(* ===== verification/Rust_Text.thy ===== *)
theory Rust_Text
  imports Prelude "HOL-Library.List_Lexorder"
begin

text \<open>
  The part of Rust's text library the program uses. A \<^verbatim>\<open>str\<close> is the list of
  its Unicode scalar values; its bytes are \<open>utf8_encode\<close> of that list, and every
  length the program compares with a byte budget is \<open>str_len\<close>, the number of those
  bytes. Decimal rendering and \<^verbatim>\<open>str::parse::<u16>\<close> follow the standard library,
  the optional leading \<^verbatim>\<open>+\<close> included.
\<close>

section \<open>Scalar values and strings\<close>

type_synonym scalar = nat
type_synonym rstr = "scalar list"

definition is_scalar :: "nat \<Rightarrow> bool" where
  "is_scalar c \<longleftrightarrow> c < 1114112 \<and> \<not> (55296 \<le> c \<and> c \<le> 57343)"

definition valid_str :: "rstr \<Rightarrow> bool" where
  "valid_str s = list_all is_scalar s"

text \<open>A string literal of the source, which is ASCII throughout the program.\<close>

definition ascii :: "string \<Rightarrow> rstr" where
  "ascii s = map of_char s"

text \<open>\<^verbatim>\<open>char::is_control\<close>: the general category Cc.\<close>

definition is_control :: "scalar \<Rightarrow> bool" where
  "is_control c \<longleftrightarrow> c \<le> 31 \<or> (127 \<le> c \<and> c \<le> 159)"

text \<open>\<^verbatim>\<open>char::is_whitespace\<close>: the property White_Space.\<close>

definition is_whitespace :: "scalar \<Rightarrow> bool" where
  "is_whitespace c \<longleftrightarrow>
     (9 \<le> c \<and> c \<le> 13) \<or> c = 32 \<or> c = 133 \<or> c = 160 \<or> c = 5760 \<or>
     (8192 \<le> c \<and> c \<le> 8202) \<or> c = 8232 \<or> c = 8233 \<or> c = 8239 \<or> c = 8287 \<or> c = 12288"

definition trim :: "rstr \<Rightarrow> rstr" where
  "trim s = rev (dropWhile is_whitespace (rev (dropWhile is_whitespace s)))"

definition to_ascii_lower :: "scalar \<Rightarrow> scalar" where
  "to_ascii_lower c = (if 65 \<le> c \<and> c \<le> 90 then c + 32 else c)"

definition eq_ignore_ascii_case :: "rstr \<Rightarrow> rstr \<Rightarrow> bool" where
  "eq_ignore_ascii_case a b \<longleftrightarrow> map to_ascii_lower a = map to_ascii_lower b"

section \<open>UTF-8\<close>

definition len_utf8 :: "scalar \<Rightarrow> nat" where
  "len_utf8 c = (if c < 128 then 1 else if c < 2048 then 2 else if c < 65536 then 3 else 4)"

definition str_len :: "rstr \<Rightarrow> nat" where
  "str_len s = sum_list (map len_utf8 s)"

definition utf8_units :: "scalar \<Rightarrow> nat list" where
  "utf8_units c =
     (if c < 128 then [c]
      else if c < 2048 then [192 + c div 64, 128 + c mod 64]
      else if c < 65536 then [224 + c div 4096, 128 + c div 64 mod 64, 128 + c mod 64]
      else [240 + c div 262144, 128 + c div 4096 mod 64, 128 + c div 64 mod 64, 128 + c mod 64])"

definition utf8_encode :: "rstr \<Rightarrow> u8 list" where
  "utf8_encode s = map of_nat (concat (map utf8_units s))"

definition is_continuation :: "nat \<Rightarrow> bool" where
  "is_continuation b \<longleftrightarrow> 128 \<le> b \<and> b \<le> 191"

text \<open>
  The strict decoder behind \<^verbatim>\<open>str::from_utf8\<close>: only the shortest form of a
  scalar value is accepted, never a surrogate.
\<close>

fun utf8_decode :: "nat list \<Rightarrow> rstr option" where
  "utf8_decode [] = Some []"
| "utf8_decode (a # bs) =
     (if a < 128 then map_option (Cons a) (utf8_decode bs)
      else if 194 \<le> a \<and> a \<le> 223 then
        (case bs of
           b # rest \<Rightarrow>
             if is_continuation b
             then map_option (Cons ((a - 192) * 64 + (b - 128))) (utf8_decode rest)
             else None
         | _ \<Rightarrow> None)
      else if 224 \<le> a \<and> a \<le> 239 then
        (case bs of
           b # c # rest \<Rightarrow>
             let v = (a - 224) * 4096 + (b - 128) * 64 + (c - 128)
             in if is_continuation b \<and> is_continuation c \<and> 2048 \<le> v \<and> is_scalar v
                then map_option (Cons v) (utf8_decode rest)
                else None
         | _ \<Rightarrow> None)
      else if 240 \<le> a \<and> a \<le> 244 then
        (case bs of
           b # c # d # rest \<Rightarrow>
             let v = (a - 240) * 262144 + (b - 128) * 4096 + (c - 128) * 64 + (d - 128)
             in if is_continuation b \<and> is_continuation c \<and> is_continuation d
                   \<and> 65536 \<le> v \<and> is_scalar v
                then map_option (Cons v) (utf8_decode rest)
                else None
         | _ \<Rightarrow> None)
      else None)"

definition from_utf8 :: "u8 list \<Rightarrow> rstr option" where
  "from_utf8 bs = utf8_decode (map unat bs)"

section \<open>Byte positions in a string\<close>

text \<open>
  \<open>split_at_byte s i\<close> is \<open>(\<close>\<^verbatim>\<open>&s[..i]\<close>\<open>, \<close>\<^verbatim>\<open>&s[i..]\<close>\<open>)\<close> when \<open>i\<close> is a
  character boundary of \<open>s\<close>, and \<open>None\<close> (the slice would panic, \<^verbatim>\<open>str::get\<close>
  returns \<^verbatim>\<open>None\<close>) otherwise.
\<close>

fun split_at_byte :: "rstr \<Rightarrow> nat \<Rightarrow> (rstr \<times> rstr) option" where
  "split_at_byte [] i = (if i = 0 then Some ([], []) else None)"
| "split_at_byte (c # s) i =
     (if i = 0 then Some ([], c # s)
      else if len_utf8 c \<le> i
      then map_option (\<lambda>(p, q). (c # p, q)) (split_at_byte s (i - len_utf8 c))
      else None)"

definition is_char_boundary :: "rstr \<Rightarrow> nat \<Rightarrow> bool" where
  "is_char_boundary s i \<longleftrightarrow> split_at_byte s i \<noteq> None"

section \<open>Splitting and affixes\<close>

fun strip_prefix :: "rstr \<Rightarrow> rstr \<Rightarrow> rstr option" where
  "strip_prefix [] s = Some s"
| "strip_prefix (p # ps) [] = None"
| "strip_prefix (p # ps) (c # s) = (if p = c then strip_prefix ps s else None)"

definition strip_suffix_char :: "scalar \<Rightarrow> rstr \<Rightarrow> rstr option" where
  "strip_suffix_char c s = (if s \<noteq> [] \<and> last s = c then Some (butlast s) else None)"

fun split_on :: "scalar \<Rightarrow> rstr \<Rightarrow> rstr list" where
  "split_on d [] = [[]]"
| "split_on d (c # s) =
     (if c = d then [] # split_on d s
      else (case split_on d s of
              [] \<Rightarrow> [[c]]
            | field # fields \<Rightarrow> (c # field) # fields))"

section \<open>Decimal text\<close>

fun show_nat :: "nat \<Rightarrow> rstr" where
  "show_nat n = (if n < 10 then [48 + n] else show_nat (n div 10) @ [48 + n mod 10])"

declare show_nat.simps [simp del]

definition show_u16 :: "u16 \<Rightarrow> rstr" where
  "show_u16 w = show_nat (unat w)"

definition show_u8 :: "u8 \<Rightarrow> rstr" where
  "show_u8 w = show_nat (unat w)"

definition is_digit :: "scalar \<Rightarrow> bool" where
  "is_digit c \<longleftrightarrow> 48 \<le> c \<and> c \<le> 57"

definition digits_value :: "rstr \<Rightarrow> nat" where
  "digits_value ds = foldl (\<lambda>acc d. acc * 10 + (d - 48)) 0 ds"

definition parse_u16 :: "rstr \<Rightarrow> u16 option" where
  "parse_u16 s =
     (let ds = (case s of c # rest \<Rightarrow> if c = 43 then rest else s | [] \<Rightarrow> s)
      in if ds \<noteq> [] \<and> list_all is_digit ds \<and> digits_value ds < 65536
         then Some (of_nat (digits_value ds)) else None)"

section \<open>Facts about UTF-8\<close>

named_theorems text_simps
  \<open>evaluation of the text predicates on concrete characters\<close>

declare is_scalar_def [text_simps] is_control_def [text_simps] is_whitespace_def [text_simps]
  ascii_def [text_simps] len_utf8_def [text_simps] utf8_units_def [text_simps]
  is_digit_def [text_simps]

lemma valid_str_simps [simp]:
  "valid_str []" "valid_str (c # s) \<longleftrightarrow> is_scalar c \<and> valid_str s"
  "valid_str (s @ t) \<longleftrightarrow> valid_str s \<and> valid_str t"
  by (simp_all add: valid_str_def)

lemma valid_str_subset: "valid_str s \<Longrightarrow> set t \<subseteq> set s \<Longrightarrow> valid_str t"
  by (auto simp: valid_str_def list_all_iff)

lemma str_len_simps [simp]:
  "str_len [] = 0" "str_len (c # s) = len_utf8 c + str_len s"
  "str_len (s @ t) = str_len s + str_len t"
  by (simp_all add: str_len_def)

lemma len_utf8_bounds [simp]: "0 < len_utf8 c" "len_utf8 c \<le> 4"
  by (simp_all add: len_utf8_def)

lemma str_len_le: "str_len s \<le> 4 * length s"
proof (induction s)
  case (Cons c s)
  then show ?case using len_utf8_bounds(2) [of c] by (simp del: len_utf8_bounds)
qed simp

lemma length_le_str_len: "length s \<le> str_len s"
proof (induction s)
  case (Cons c s)
  then show ?case using len_utf8_bounds(1) [of c] by (simp del: len_utf8_bounds)
qed simp

lemma str_len_ascii: "\<forall>c\<in>set s. c < 128 \<Longrightarrow> str_len s = length s"
  by (induction s) (simp_all add: len_utf8_def)

lemma length_utf8_units [simp]: "length (utf8_units c) = len_utf8 c"
  by (simp add: utf8_units_def len_utf8_def)

lemma utf8_units_byte: "is_scalar c \<Longrightarrow> \<forall>n\<in>set (utf8_units c). n < 256"
  by (auto simp: utf8_units_def is_scalar_def)

lemma length_utf8_encode [simp]: "length (utf8_encode s) = str_len s"
  by (induction s) (simp_all add: utf8_encode_def)

lemma utf8_encode_simps [simp]:
  "utf8_encode [] = []" "utf8_encode (s @ t) = utf8_encode s @ utf8_encode t"
  by (simp_all add: utf8_encode_def)

lemma utf8_encode_Cons: "utf8_encode (c # s) = map of_nat (utf8_units c) @ utf8_encode s"
  by (simp add: utf8_encode_def)

lemma mod_64_le [simp]: "(n::nat) mod 64 \<le> 63"
  by presburger

lemma base64_digits:
  fixes c :: nat
  shows "c div 4096 * 4096 + c div 64 mod 64 * 64 + c mod 64 = c" (is ?three)
    and "c div 262144 * 262144 + c div 4096 mod 64 * 4096 + c div 64 mod 64 * 64 + c mod 64 = c"
proof -
  have two: "c mod 4096 = c div 64 mod 64 * 64 + c mod 64"
    using mod_mult2_eq [of c 64 64] by simp
  have three: "c mod 262144 = c div 4096 mod 64 * 4096 + c mod 4096"
    using mod_mult2_eq [of c 4096 64] by simp
  from two show ?three using div_mult_mod_eq [of c 4096] by linarith
  from two three
  show "c div 262144 * 262144 + c div 4096 mod 64 * 4096 + c div 64 mod 64 * 64 + c mod 64 = c"
    using div_mult_mod_eq [of c 262144] by linarith
qed

lemma continuation_offset: "is_continuation b \<longleftrightarrow> (\<exists>x<64. b = 128 + x)"
proof
  assume "is_continuation b"
  then show "\<exists>x<64. b = 128 + x" by (intro exI [of _ "b - 128"]) (auto simp: is_continuation_def)
qed (auto simp: is_continuation_def)

lemma base64_value:
  fixes x y z w :: nat
  assumes "x < 64" "y < 64" "z < 64"
  shows "(w * 4096 + x * 64 + y) div 4096 = w" "(w * 4096 + x * 64 + y) div 64 mod 64 = x"
    "(w * 4096 + x * 64 + y) mod 64 = y"
    and "(w * 262144 + x * 4096 + y * 64 + z) div 262144 = w"
    "(w * 262144 + x * 4096 + y * 64 + z) div 4096 mod 64 = x"
    "(w * 262144 + x * 4096 + y * 64 + z) div 64 mod 64 = y"
    "(w * 262144 + x * 4096 + y * 64 + z) mod 64 = z"
proof -
  have digit: "(n * 64 + d) div 64 = n" "(n * 64 + d) mod 64 = d" if "d < 64" for n d :: nat
    using that by simp_all
  have div2: "n div 4096 = n div 64 div 64" and div3: "n div 262144 = n div 64 div 64 div 64"
    for n :: nat
    using div_mult2_eq [of n 64 64] div_mult2_eq [of n 4096 64] by simp_all
  have three: "w * 4096 + x * 64 + y = (w * 64 + x) * 64 + y"
    and four: "w * 262144 + x * 4096 + y * 64 + z = ((w * 64 + x) * 64 + y) * 64 + z"
    by simp_all
  show "(w * 4096 + x * 64 + y) div 4096 = w" "(w * 4096 + x * 64 + y) div 64 mod 64 = x"
    "(w * 4096 + x * 64 + y) mod 64 = y"
    unfolding three div2 using assms by (simp_all only: digit)
  show "(w * 262144 + x * 4096 + y * 64 + z) div 262144 = w"
    "(w * 262144 + x * 4096 + y * 64 + z) div 4096 mod 64 = x"
    "(w * 262144 + x * 4096 + y * 64 + z) div 64 mod 64 = y"
    "(w * 262144 + x * 4096 + y * 64 + z) mod 64 = z"
    unfolding four div2 div3 using assms by (simp_all only: digit)
qed

lemma utf8_decode_units:
  assumes "is_scalar c"
  shows "utf8_decode (utf8_units c @ bs) = map_option (Cons c) (utf8_decode bs)"
proof -
  consider "c < 128" | "128 \<le> c" "c < 2048" | "2048 \<le> c" "c < 65536" | "65536 \<le> c"
    by linarith
  then show ?thesis
  proof cases
    case 1
    then show ?thesis by (simp add: utf8_units_def)
  next
    case 2
    then have "c div 64 < 32" "2 \<le> c div 64" "c mod 64 \<le> 63" by auto
    with 2 show ?thesis by (simp add: utf8_units_def is_continuation_def)
  next
    case 3
    then have d: "c div 4096 < 16" by auto
    with 3 assms base64_digits(1) [of c] show ?thesis
      by (simp add: utf8_units_def is_continuation_def Let_def)
  next
    case 4
    then have d: "c div 262144 \<le> 4" using assms by (auto simp: is_scalar_def)
    with 4 assms base64_digits(2) [of c] show ?thesis
      by (simp add: utf8_units_def is_continuation_def Let_def)
  qed
qed

lemma utf8_decode_encode:
  "valid_str s \<Longrightarrow> utf8_decode (concat (map utf8_units s)) = Some s"
  by (induction s) (simp_all add: utf8_decode_units)

lemma from_utf8_encode [simp]:
  assumes "valid_str s"
  shows "from_utf8 (utf8_encode s) = Some s"
proof -
  have "\<forall>n\<in>set (concat (map utf8_units s)). n < 256"
    using assms utf8_units_byte by (fastforce simp: valid_str_def list_all_iff)
  with assms show ?thesis
    by (simp add: from_utf8_def utf8_encode_def utf8_decode_encode del: map_map)
qed

lemma utf8_decode_sound:
  "utf8_decode bs = Some s \<Longrightarrow> \<forall>b\<in>set bs. b < 256 \<Longrightarrow>
     valid_str s \<and> concat (map utf8_units s) = bs"
proof (induction bs arbitrary: s rule: utf8_decode.induct)
  case 1
  then show ?case by simp
next
  case (2 a bs)
  consider "a < 128" | "194 \<le> a" "a \<le> 223" | "224 \<le> a" "a \<le> 239" | "240 \<le> a" "a \<le> 244"
    using "2.prems"(1) by (auto split: if_splits)
  then show ?case
  proof cases
    case 1
    then obtain s' where s': "utf8_decode bs = Some s'" "s = a # s'"
      using "2.prems"(1) by auto
    with "2.IH"(1) 1 "2.prems"(2) have "valid_str s' \<and> concat (map utf8_units s') = bs" by simp
    moreover have "utf8_units a = [a]" using 1 by (simp add: utf8_units_def)
    ultimately show ?thesis using 1 s' by (simp add: is_scalar_def)
  next
    case c: 2
    then obtain b rest s' where bs: "bs = b # rest" and cb: "is_continuation b"
      and s': "utf8_decode rest = Some s'" "s = ((a - 192) * 64 + (b - 128)) # s'"
      using "2.prems"(1) by (auto split: list.splits if_splits)
    have IH: "valid_str s' \<and> concat (map utf8_units s') = rest"
      by (rule "2.IH"(2)) (use c bs cb s' "2.prems"(2) in auto)
    define v where "v = (a - 192) * 64 + (b - 128)"
    obtain x y where xy: "a = 192 + x" "b = 128 + y" "y < 64"
      using c cb by (auto simp: is_continuation_def le_iff_add)
    then have v: "128 \<le> v" "v < 2048" "v div 64 = a - 192" "v mod 64 = b - 128"
      using c by (auto simp: v_def)
    then have "utf8_units v = [a, b]" "is_scalar v"
      using c cb by (auto simp: is_scalar_def utf8_units_def is_continuation_def)
    then show ?thesis using IH bs s' by (simp add: v_def)
  next
    case c: 3
    define v where "v = (\<lambda>b d. (a - 224) * 4096 + (b - 128) * 64 + (d - (128::nat)))"
    from c obtain b d rest s' where bs: "bs = b # d # rest"
      and cb: "is_continuation b" "is_continuation d" and v: "2048 \<le> v b d" "is_scalar (v b d)"
      and s': "utf8_decode rest = Some s'" "s = v b d # s'"
      using "2.prems"(1) by (auto split: list.splits if_splits simp: Let_def v_def)
    have IH: "valid_str s' \<and> concat (map utf8_units s') = rest"
      by (rule "2.IH"(3) [OF _ _ _ bs refl refl]) (use c bs cb v s' "2.prems"(2) in \<open>auto simp: v_def\<close>)
    obtain w x y where wxy: "a = 224 + w" "b = 128 + x" "d = 128 + y" "x < 64" "y < 64" "w < 16"
      using c cb by (auto simp: continuation_offset le_iff_add)
    then have "v b d < 65536" "v b d div 4096 = a - 224" "v b d div 64 mod 64 = b - 128"
      "v b d mod 64 = d - 128"
      using base64_value(1-3) [of x y 0 w] by (simp_all add: v_def)
    then have "utf8_units (v b d) = [a, b, d]"
      using c cb v by (simp add: utf8_units_def is_continuation_def)
    then show ?thesis using IH bs s' v by simp
  next
    case c: 4
    define v where
      "v = (\<lambda>b d e. (a - 240) * 262144 + (b - 128) * 4096 + (d - 128) * 64 + (e - (128::nat)))"
    from c obtain b d e rest s' where bs: "bs = b # d # e # rest"
      and cb: "is_continuation b" "is_continuation d" "is_continuation e"
      and v: "65536 \<le> v b d e" "is_scalar (v b d e)"
      and s': "utf8_decode rest = Some s'" "s = v b d e # s'"
      using "2.prems"(1) by (auto split: list.splits if_splits simp: Let_def v_def)
    have IH: "valid_str s' \<and> concat (map utf8_units s') = rest"
      by (rule "2.IH"(4) [OF _ _ _ _ bs refl refl refl]) (use c bs cb v s' "2.prems"(2) in \<open>auto simp: v_def\<close>)
    obtain w x y z where wxyz: "a = 240 + w" "b = 128 + x" "d = 128 + y" "e = 128 + z"
        "x < 64" "y < 64" "z < 64"
      using c cb by (auto simp: continuation_offset le_iff_add)
    then have "v b d e div 262144 = a - 240" "v b d e div 4096 mod 64 = b - 128"
      "v b d e div 64 mod 64 = d - 128" "v b d e mod 64 = e - 128"
      using base64_value(4-7) [of x y z w] by (simp_all add: v_def)
    then have "utf8_units (v b d e) = [a, b, d, e]"
      using c cb v by (simp add: utf8_units_def is_continuation_def)
    then show ?thesis using IH bs s' v by simp
  qed
qed

lemma from_utf8_sound:
  assumes "from_utf8 bs = Some s"
  shows "valid_str s" "utf8_encode s = bs"
proof -
  have "\<forall>b\<in>set (map unat bs). b < 256"
    by (auto intro: order_less_le_trans [OF unsigned_less])
  with assms have "valid_str s \<and> concat (map utf8_units s) = map unat bs"
    unfolding from_utf8_def by (intro utf8_decode_sound) auto
  then show "valid_str s" "utf8_encode s = bs"
    by (simp_all add: utf8_encode_def del: map_map)
qed

lemma utf8_encode_inj: "valid_str s \<Longrightarrow> valid_str t \<Longrightarrow> utf8_encode s = utf8_encode t \<longleftrightarrow> s = t"
  by (metis from_utf8_encode option.inject)

section \<open>Facts about trimming\<close>

lemma trim_set: "set (trim s) \<subseteq> set s"
  unfolding trim_def by (auto dest!: set_dropWhileD)

lemma valid_str_trim [intro]: "valid_str s \<Longrightarrow> valid_str (trim s)"
  by (rule valid_str_subset [OF _ trim_set])

lemma trim_ends:
  assumes "trim s \<noteq> []"
  shows "\<not> is_whitespace (hd (trim s))" "\<not> is_whitespace (last (trim s))"
proof -
  let ?l = "dropWhile is_whitespace s"
  let ?r = "dropWhile is_whitespace (rev ?l)"
  have ne: "?r \<noteq> []" using assms by (simp add: trim_def)
  have "last (trim s) = hd ?r" using ne by (simp add: trim_def last_rev)
  then show "\<not> is_whitespace (last (trim s))" using hd_dropWhile [OF ne] by simp
  have "?l \<noteq> []" using ne by (cases ?l) simp_all
  have "last ?r = last (rev ?l)"
    using takeWhile_dropWhile_id [of is_whitespace "rev ?l"] ne by (metis last_appendR)
  also have "\<dots> = hd ?l" using \<open>?l \<noteq> []\<close> by (simp add: last_rev)
  finally have "hd (trim s) = hd ?l" using ne by (simp add: trim_def hd_rev)
  then show "\<not> is_whitespace (hd (trim s))" using hd_dropWhile [OF \<open>?l \<noteq> []\<close>] by simp
qed

lemma trim_id:
  assumes "s = [] \<or> (\<not> is_whitespace (hd s) \<and> \<not> is_whitespace (last s))"
  shows "trim s = s"
proof (cases "s = []")
  case False
  then obtain c t where s: "s = c # t" and c: "\<not> is_whitespace c"
    using assms by (cases s) auto
  have "rev s \<noteq> []" "\<not> is_whitespace (hd (rev s))"
    using assms False by (simp_all add: hd_rev)
  then have "dropWhile is_whitespace (rev s) = rev s" by (cases "rev s") auto
  with s c show ?thesis by (simp add: trim_def)
qed (simp add: trim_def)

lemma trim_idem [simp]: "trim (trim s) = trim s"
  using trim_ends by (intro trim_id) blast

lemma trim_eq_Nil: "trim s = [] \<longleftrightarrow> list_all is_whitespace s"
proof
  assume "trim s = []"
  then have "\<forall>c\<in>set (dropWhile is_whitespace s). is_whitespace c"
    by (simp add: trim_def dropWhile_eq_Nil_conv)
  then have "dropWhile is_whitespace s = []"
    using hd_dropWhile [of is_whitespace s] hd_in_set by blast
  then show "list_all is_whitespace s" by (simp add: dropWhile_eq_Nil_conv list_all_iff)
qed (auto simp: trim_def list_all_iff dropWhile_eq_Nil_conv dest: set_dropWhileD)

section \<open>Facts about byte positions\<close>

lemma split_at_byte_Some:
  "split_at_byte s i = Some (p, q) \<longleftrightarrow> s = p @ q \<and> str_len p = i"
proof (induction s arbitrary: i p)
  case Nil
  then show ?case by auto
next
  case (Cons c s)
  then show ?case
    by (cases p) (auto simp: gr0_conv_Suc [symmetric] dest: not_sym)
qed

lemma is_char_boundary_iff: "is_char_boundary s i \<longleftrightarrow> (\<exists>p q. s = p @ q \<and> str_len p = i)"
  by (auto simp: is_char_boundary_def split_at_byte_Some)

lemma is_char_boundary_0 [simp]: "is_char_boundary s 0"
  by (cases s) (simp_all add: is_char_boundary_def)

lemma is_char_boundary_len [simp]: "is_char_boundary s (str_len s)"
  unfolding is_char_boundary_iff by (metis append_Nil2)

section \<open>Facts about affixes and fields\<close>

lemma strip_prefix_Some: "strip_prefix p s = Some t \<longleftrightarrow> s = p @ t"
  by (induction p s rule: strip_prefix.induct) auto

lemma strip_prefix_append [simp]: "strip_prefix p (p @ t) = Some t"
  by (simp add: strip_prefix_Some)

lemma strip_suffix_char_Some: "strip_suffix_char c s = Some t \<longleftrightarrow> s = t @ [c]"
  by (cases s rule: rev_cases) (auto simp: strip_suffix_char_def)

lemma strip_suffix_char_append [simp]: "strip_suffix_char c (t @ [c]) = Some t"
  by (simp add: strip_suffix_char_Some)

lemma split_on_nonempty [simp]: "split_on d s \<noteq> []"
  by (cases s) (auto split: list.splits)

lemma split_on_no_sep: "d \<notin> set s \<Longrightarrow> split_on d s = [s]"
  by (induction s) auto

lemma split_on_field: "d \<notin> set f \<Longrightarrow> split_on d (f @ d # s) = f # split_on d s"
  by (induction f) auto

section \<open>Facts about decimal text\<close>

lemma show_nat_digits: "list_all is_digit (show_nat n)"
proof (induction n rule: show_nat.induct)
  case (1 n)
  moreover have "is_digit (48 + n mod 10)" "n < 10 \<Longrightarrow> is_digit (48 + n)"
    by (simp_all add: is_digit_def)
  ultimately show ?case by (subst show_nat.simps) simp
qed

lemma show_nat_nonempty [simp]: "show_nat n \<noteq> []"
  by (subst show_nat.simps) simp

lemma digits_value_snoc: "digits_value (ds @ [d]) = digits_value ds * 10 + (d - 48)"
  by (simp add: digits_value_def)

lemma digits_value_show_nat [simp]: "digits_value (show_nat n) = n"
proof (induction n rule: show_nat.induct)
  case (1 n)
  then show ?case
    by (subst show_nat.simps) (simp add: digits_value_snoc digits_value_def [of "[_]"])
qed

lemma show_nat_set: "c \<in> set (show_nat n) \<Longrightarrow> 48 \<le> c \<and> c \<le> 57"
  using show_nat_digits [of n] by (auto simp: list_all_iff is_digit_def)

lemma show_nat_inj [simp]: "show_nat m = show_nat n \<longleftrightarrow> m = n"
  by (metis digits_value_show_nat)

lemma length_show_nat: "n < 10 ^ k \<Longrightarrow> 0 < k \<Longrightarrow> length (show_nat n) \<le> k"
proof (induction k arbitrary: n)
  case (Suc k)
  then show ?case
    by (cases "n < 10"; cases k) (subst show_nat.simps, auto simp: less_mult_imp_div_less)+
qed simp

lemma parse_u16_show [simp]: "parse_u16 (show_u16 w) = Some w"
proof -
  have "show_u16 w = c # rest \<Longrightarrow> c \<noteq> 43" for c rest
    using show_nat_set [of c "unat w"] by (auto simp: show_u16_def)
  then have "(case show_u16 w of c # rest \<Rightarrow> if c = 43 then rest else show_u16 w | [] \<Rightarrow> show_u16 w)
      = show_u16 w"
    by (auto split: list.splits)
  moreover have "list_all is_digit (show_u16 w)" "digits_value (show_u16 w) = unat w"
      "show_u16 w \<noteq> []"
    by (simp_all add: show_u16_def show_nat_digits)
  moreover have "unat w < 65536" using unsigned_less [of w, where ?'a = nat] by simp
  ultimately show ?thesis by (simp add: parse_u16_def)
qed

lemma show_u16_inj [simp]: "show_u16 a = show_u16 b \<longleftrightarrow> a = b"
  by (metis parse_u16_show option.inject)

lemma valid_show_nat [simp]: "valid_str (show_nat n)"
  using show_nat_set [of _ n] by (fastforce simp: valid_str_def list_all_iff is_scalar_def)

lemma valid_show_u16 [simp]: "valid_str (show_u16 w)"
  by (simp add: show_u16_def)

lemma str_len_show_nat: "str_len (show_nat n) = length (show_nat n)"
  using show_nat_set [of _ n] by (intro str_len_ascii) fastforce

lemma str_len_show_u16: "str_len (show_u16 w) \<le> 5"
proof -
  have "unat w < 10 ^ 5" using unsigned_less [of w, where ?'a = nat] by simp
  then show ?thesis
    using length_show_nat [of "unat w" 5] by (simp add: show_u16_def str_len_show_nat)
qed

lemma show_u16_no_char: "c < 48 \<or> 57 < c \<Longrightarrow> c \<notin> set (show_u16 w)"
  using show_nat_set [of c "unat w"] by (auto simp: show_u16_def)

end
