(* ===== verification/Hash_Map.thy ===== *)
theory Hash_Map
  imports Prelude
begin

text \<open>
  The keyed table behind \<^verbatim>\<open>std::collections::HashMap\<close>. A table is the list of its
  entries in the (unspecified) order the iterator yields them, with distinct keys; what the
  clients rely on is the interface \<open>keyed_table\<close>, stated over the lookup function and
  proved for these operations by the interpretation \<open>hm\<close>.
\<close>

section \<open>The operations\<close>

type_synonym ('k, 'v) hash_map = "('k \<times> 'v) list"

definition hm_get :: "('k, 'v) hash_map \<Rightarrow> 'k \<Rightarrow> 'v option" where
  "hm_get m k = map_of m k"

fun hm_insert :: "'k \<Rightarrow> 'v \<Rightarrow> ('k, 'v) hash_map \<Rightarrow> ('k, 'v) hash_map" where
  "hm_insert k v [] = [(k, v)]"
| "hm_insert k v (e # m) = (if fst e = k then (k, v) # m else e # hm_insert k v m)"

definition hm_remove :: "'k \<Rightarrow> ('k, 'v) hash_map \<Rightarrow> ('k, 'v) hash_map" where
  "hm_remove k m = filter (\<lambda>e. fst e \<noteq> k) m"

definition hm_retain :: "('v \<Rightarrow> bool) \<Rightarrow> ('k, 'v) hash_map \<Rightarrow> ('k, 'v) hash_map" where
  "hm_retain P m = filter (\<lambda>e. P (snd e)) m"

definition hm_invar :: "('k, 'v) hash_map \<Rightarrow> bool" where
  "hm_invar m \<longleftrightarrow> distinct (map fst m)"

section \<open>The interface\<close>

text \<open>The keys of a lookup function whose value satisfies a predicate.\<close>

definition hits :: "('v \<Rightarrow> bool) \<Rightarrow> ('k \<Rightarrow> 'v option) \<Rightarrow> 'k set" where
  "hits P f = {k. \<exists>v. f k = Some v \<and> P v}"

lemma hits_update: "hits P (f(k \<mapsto> v)) = (if P v then insert k (hits P f) else hits P f - {k})"
  by (auto simp: hits_def)

lemma hits_delete: "hits P (f(k := None)) = hits P f - {k}"
  by (auto simp: hits_def)

lemma hits_dom: "hits P f \<subseteq> dom f"
  by (auto simp: hits_def)

locale keyed_table =
  fixes get :: "'m \<Rightarrow> 'k \<Rightarrow> 'v option"
    and put :: "'k \<Rightarrow> 'v \<Rightarrow> 'm \<Rightarrow> 'm"
    and del :: "'k \<Rightarrow> 'm \<Rightarrow> 'm"
    and keep :: "('v \<Rightarrow> bool) \<Rightarrow> 'm \<Rightarrow> 'm"
    and invar :: "'m \<Rightarrow> bool"
  assumes get_put: "invar m \<Longrightarrow> get (put k v m) = (get m)(k \<mapsto> v)"
    and get_del: "invar m \<Longrightarrow> get (del k m) = (get m)(k := None)"
    and get_keep: "invar m \<Longrightarrow>
      get (keep P m) = (\<lambda>k. case get m k of None \<Rightarrow> None | Some v \<Rightarrow> if P v then Some v else None)"
    and finite_dom: "invar m \<Longrightarrow> finite (dom (get m))"
    and invar_put: "invar m \<Longrightarrow> invar (put k v m)"
    and invar_del: "invar m \<Longrightarrow> invar (del k m)"
    and invar_keep: "invar m \<Longrightarrow> invar (keep P m)"
begin

lemma finite_hits: "invar m \<Longrightarrow> finite (hits P (get m))"
  using finite_subset [OF hits_dom finite_dom] .

lemma hits_keep: "invar m \<Longrightarrow> hits Q (get (keep P m)) = hits (\<lambda>v. P v \<and> Q v) (get m)"
  by (auto simp: hits_def get_keep split: option.splits if_splits)

text \<open>How many entries satisfy a predicate after a write.\<close>

lemma card_hits_put:
  assumes "invar m"
  shows "card (hits P (get (put k v m))) =
    (if P v then Suc (card (hits P (get m) - {k})) else card (hits P (get m) - {k}))"
  using assms finite_hits [OF assms, of P]
  by (simp add: get_put hits_update card.insert_remove)

lemma card_hits_put_new:
  assumes "invar m" "P v" "k \<notin> hits P (get m)"
  shows "card (hits P (get (put k v m))) = Suc (card (hits P (get m)))"
  using assms by (simp add: card_hits_put)

lemma card_hits_put_same:
  assumes "invar m" "P v" "k \<in> hits P (get m)"
  shows "card (hits P (get (put k v m))) = card (hits P (get m))"
  using assms finite_hits [OF assms(1), of P] card_Suc_Diff1 [of "hits P (get m)" k]
  by (simp add: card_hits_put)

lemma card_hits_put_drop:
  assumes "invar m" "\<not> P v" "k \<in> hits P (get m)"
  shows "Suc (card (hits P (get (put k v m)))) = card (hits P (get m))"
  using assms finite_hits [OF assms(1), of P] card_Suc_Diff1 [of "hits P (get m)" k]
  by (simp add: card_hits_put)

lemma card_hits_put_out:
  assumes "invar m" "\<not> P v" "k \<notin> hits P (get m)"
  shows "card (hits P (get (put k v m))) = card (hits P (get m))"
  using assms by (simp add: card_hits_put)

text \<open>Values stored under a key computed from them stay so.\<close>

lemma self_keyed_put:
  assumes "invar m" "\<forall>k v. get m k = Some v \<longrightarrow> key_of v = k" "key_of v = k"
  shows "\<forall>k' v'. get (put k v m) k' = Some v' \<longrightarrow> key_of v' = k'"
  using assms by (simp add: get_put)

lemma self_keyed_del:
  assumes "invar m" "\<forall>k v. get m k = Some v \<longrightarrow> key_of v = k"
  shows "\<forall>k' v'. get (del k m) k' = Some v' \<longrightarrow> key_of v' = k'"
  using assms by (simp add: get_del)

lemma get_put_same: "invar m \<Longrightarrow> get m k = Some v \<Longrightarrow> get (put k v m) = get m"
  by (auto simp: get_put fun_eq_iff)

end

section \<open>The provider\<close>

lemma hm_get_Nil [simp]: "hm_get [] k = None"
  by (simp add: hm_get_def)

lemma map_of_hm_insert: "map_of (hm_insert k v m) = (map_of m)(k \<mapsto> v)"
  by (induction k v m rule: hm_insert.induct) auto

lemma keys_hm_insert: "fst ` set (hm_insert k v m) = insert k (fst ` set m)"
  by (induction k v m rule: hm_insert.induct) auto

lemma map_of_filter_key: "map_of (filter (\<lambda>e. fst e \<noteq> k) m) = (map_of m)(k := None)"
  by (induction m) auto

lemma map_of_filter_value:
  "distinct (map fst m) \<Longrightarrow>
     map_of (filter (\<lambda>e. P (snd e)) m) k =
       (case map_of m k of None \<Rightarrow> None | Some v \<Rightarrow> if P v then Some v else None)"
proof (induction m)
  case (Cons e m)
  moreover have "map_of m (fst e) = None"
    using Cons.prems by (simp add: map_of_eq_None_iff)
  ultimately show ?case by (cases e) (auto split: option.splits)
qed simp

lemma distinct_hm_insert: "distinct (map fst m) \<Longrightarrow> distinct (map fst (hm_insert k v m))"
  by (induction k v m rule: hm_insert.induct) (auto simp: keys_hm_insert image_iff)

lemma distinct_filter_keys: "distinct (map fst m) \<Longrightarrow> distinct (map fst (filter P m))"
  by (induction m) auto

interpretation hm: keyed_table hm_get hm_insert hm_remove hm_retain hm_invar
proof unfold_locales
  fix m :: "('k, 'v) hash_map" and k v P
  assume m: "hm_invar m"
  show "hm_get (hm_insert k v m) = (hm_get m)(k \<mapsto> v)"
    by (simp add: hm_get_def fun_eq_iff map_of_hm_insert)
  show "hm_get (hm_remove k m) = (hm_get m)(k := None)"
    by (simp add: hm_get_def hm_remove_def fun_eq_iff map_of_filter_key)
  show "hm_get (hm_retain P m) =
      (\<lambda>k. case hm_get m k of None \<Rightarrow> None | Some v \<Rightarrow> if P v then Some v else None)"
    using m by (simp add: hm_get_def hm_retain_def fun_eq_iff hm_invar_def map_of_filter_value)
  show "finite (dom (hm_get m))"
    using finite_dom_map_of [of m] by (simp add: hm_get_def [abs_def])
  show "hm_invar (hm_insert k v m)" "hm_invar (hm_remove k m)" "hm_invar (hm_retain P m)"
    using m by (simp_all add: hm_invar_def distinct_hm_insert distinct_filter_keys
        hm_remove_def hm_retain_def)
qed

lemma hm_invar_Nil [simp]: "hm_invar []"
  by (simp add: hm_invar_def)

text \<open>Iterating a table meets every entry of the lookup function once.\<close>

lemma hm_get_Some: "hm_invar m \<Longrightarrow> hm_get m k = Some v \<longleftrightarrow> (k, v) \<in> set m"
  by (simp add: hm_get_def hm_invar_def)

lemma hits_hm_get: "hm_invar m \<Longrightarrow> hits P (hm_get m) = fst ` set (filter (\<lambda>e. P (snd e)) m)"
  by (force simp: hits_def hm_get_Some)

lemma card_hits_hm_get:
  assumes "hm_invar m"
  shows "card (hits P (hm_get m)) = length (filter (\<lambda>e. P (snd e)) m)"
proof -
  have "card (fst ` set (filter (\<lambda>e. P (snd e)) m)) = length (map fst (filter (\<lambda>e. P (snd e)) m))"
    using assms distinct_card [of "map fst (filter (\<lambda>e. P (snd e)) m)"]
    by (simp add: hm_invar_def distinct_filter_keys)
  with assms show ?thesis by (simp add: hits_hm_get)
qed

lemma hm_entries_eq:
  assumes "hm_invar m" "hm_invar n" "hm_get m = hm_get n"
  shows "set m = set n"
  using assms hm_get_Some by (metis subrelI subset_antisym)

end
