(* ===== verification/Codec.thy ===== *)
theory Codec
  imports Rust_Text
begin

text \<open>
  The contract between an encoder and a decoder, as the rest of the program relies on it.
  \<open>roundtrip\<close> promises that a well-formed value survives; \<open>codec\<close> adds that the decoder
  accepts nothing but encodings of well-formed values, so each value has one wire form.
\<close>

definition result_ok :: "'e + 'a \<Rightarrow> 'a option" where
  "result_ok r = (case r of Err _ \<Rightarrow> None | Ok x \<Rightarrow> Some x)"

lemma result_ok_simps [simp]: "result_ok (Err e) = None" "result_ok (Ok x) = Some x"
  by (simp_all add: result_ok_def)

lemma result_ok_Some [result_simps]: "result_ok r = Some x \<longleftrightarrow> r = Ok x"
  by (cases r) simp_all

locale roundtrip =
  fixes enc :: "'a \<Rightarrow> 'b" and dec :: "'b \<Rightarrow> 'a option" and wf :: "'a \<Rightarrow> bool"
  assumes dec_enc: "wf x \<Longrightarrow> dec (enc x) = Some x"
begin

lemma enc_inj: "wf x \<Longrightarrow> wf y \<Longrightarrow> enc x = enc y \<longleftrightarrow> x = y"
  by (metis dec_enc option.inject)

end

locale codec = roundtrip +
  assumes dec_sound: "dec y = Some x \<Longrightarrow> wf x \<and> enc x = y"
begin

lemma dec_iff: "dec y = Some x \<longleftrightarrow> wf x \<and> y = enc x"
  using dec_enc dec_sound by blast

lemma dec_canonical: "dec y = Some x \<Longrightarrow> dec z = Some x \<Longrightarrow> y = z"
  using dec_sound by blast

lemma dec_rejects: "dec y = None \<longleftrightarrow> (\<forall>x. wf x \<longrightarrow> enc x \<noteq> y)"
  by (metis dec_enc dec_sound option.collapse option.distinct(1))

end

interpretation utf8: codec utf8_encode from_utf8 valid_str
  by unfold_locales (simp_all add: from_utf8_sound)

text \<open>
  \<^verbatim>\<open>text.parse::<u16>()\<close> followed by the comparison with the rendered value: the
  canonical reading both the discovery metadata and the trusted-peer store use.
\<close>

definition canonical_u16 :: "rstr \<Rightarrow> u16 option" where
  "canonical_u16 text =
     (case parse_u16 text of
        None \<Rightarrow> None
      | Some v \<Rightarrow> if show_u16 v = text then Some v else None)"

interpretation decimal: codec show_u16 canonical_u16 "\<lambda>_. True"
  by unfold_locales (auto simp: canonical_u16_def split: option.splits if_splits)

end
