(* ===== verification/Text_Label.thy ===== *)
theory Text_Label
  imports Rust_Text
begin

text \<open>
  The contract of a validated, trimmed presentation label. Device display names and
  trusted-peer labels are two providers of it; the facts their stores and encoders need are
  proved here once.
\<close>

definition has_control :: "rstr \<Rightarrow> bool" where
  "has_control s \<longleftrightarrow> list_ex is_control s"

lemma has_control_simps [simp]:
  "\<not> has_control []" "has_control (c # s) \<longleftrightarrow> is_control c \<or> has_control s"
  "has_control (s @ t) \<longleftrightarrow> has_control s \<or> has_control t"
  by (auto simp: has_control_def)

lemma has_control_trim: "\<not> has_control s \<Longrightarrow> \<not> has_control (trim s)"
  using trim_set [of s] by (auto simp: has_control_def list_ex_iff)

locale text_label =
  fixes validate :: "rstr \<Rightarrow> 'e + 'n" and as_text :: "'n \<Rightarrow> rstr" and max_chars :: nat
  assumes validate_Ok: "validate v = Ok n \<longleftrightarrow>
      \<not> has_control v \<and> trim v \<noteq> [] \<and> length (trim v) \<le> max_chars \<and> as_text n = trim v"
begin

lemma accepted_text:
  assumes "validate v = Ok n"
  shows "as_text n = trim v" "\<not> has_control (as_text n)" "as_text n \<noteq> []"
    "length (as_text n) \<le> max_chars" "trim (as_text n) = as_text n"
  using assms by (auto simp: validate_Ok has_control_trim)

lemma validate_idem: "validate v = Ok n \<Longrightarrow> validate (as_text n) = Ok n"
  by (simp add: validate_Ok has_control_trim)

lemma accepted_bytes: "validate v = Ok n \<Longrightarrow> str_len (as_text n) \<le> 4 * max_chars"
  using str_len_le [of "as_text n"] accepted_text(4) [of v n] by linarith

lemma accepted_single_line: "validate v = Ok n \<Longrightarrow> 10 \<notin> set (as_text n)"
  using accepted_text(2) [of v n] by (auto simp: has_control_def list_ex_iff is_control_def)

lemma accepted_visible: "validate v = Ok n \<Longrightarrow> \<not> is_whitespace (hd (as_text n))"
  using trim_ends(1) [of v] accepted_text [of v n] by simp

end

end
