(* ===== verification/Pairing_Message.thy ===== *)
theory Pairing_Message
  imports Codec
begin

text \<open>
  The wire message family of the pairing-request phase
  (\<^verbatim>\<open>crates/local-transfer-core/src/pairing.rs\<close>): the attempt identifier, the closed
  set of rejection reasons, the three messages, their bounded encoding and the decoder of
  untrusted bytes with its typed errors.
\<close>

section \<open>Constants\<close>

definition PAIRING_PROTOCOL_VERSION :: u8 where
  "PAIRING_PROTOCOL_VERSION = 1"

definition VERSION_OFFSET :: nat where
  "VERSION_OFFSET = 0"

definition KIND_OFFSET :: nat where
  "KIND_OFFSET = 1"

definition ATTEMPT_ID_OFFSET :: nat where
  "ATTEMPT_ID_OFFSET = 2"

definition ATTEMPT_ID_LEN :: nat where
  "ATTEMPT_ID_LEN = 16"

definition REASON_OFFSET :: nat where
  "REASON_OFFSET = ATTEMPT_ID_OFFSET + ATTEMPT_ID_LEN"

definition BASE_MESSAGE_LEN :: nat where
  "BASE_MESSAGE_LEN = ATTEMPT_ID_OFFSET + ATTEMPT_ID_LEN"

definition REJECTED_MESSAGE_LEN :: nat where
  "REJECTED_MESSAGE_LEN = BASE_MESSAGE_LEN + 1"

definition MAX_PAIRING_MESSAGE_BYTES :: nat where
  "MAX_PAIRING_MESSAGE_BYTES = REJECTED_MESSAGE_LEN"

definition KIND_REQUEST :: u8 where
  "KIND_REQUEST = 1"

definition KIND_REQUEST_ACCEPTED :: u8 where
  "KIND_REQUEST_ACCEPTED = 2"

definition KIND_REQUEST_REJECTED :: u8 where
  "KIND_REQUEST_REJECTED = 3"

definition REASON_UNSPECIFIED :: u8 where
  "REASON_UNSPECIFIED = 0"

definition REASON_BUSY :: u8 where
  "REASON_BUSY = 1"

definition REASON_DECLINED :: u8 where
  "REASON_DECLINED = 2"

lemmas wire_constants =
  PAIRING_PROTOCOL_VERSION_def VERSION_OFFSET_def KIND_OFFSET_def ATTEMPT_ID_OFFSET_def
  ATTEMPT_ID_LEN_def REASON_OFFSET_def BASE_MESSAGE_LEN_def REJECTED_MESSAGE_LEN_def
  MAX_PAIRING_MESSAGE_BYTES_def KIND_REQUEST_def KIND_REQUEST_ACCEPTED_def
  KIND_REQUEST_REJECTED_def REASON_UNSPECIFIED_def REASON_BUSY_def REASON_DECLINED_def

section \<open>Attempt identifiers and rejection reasons\<close>

text \<open>
  A \<^verbatim>\<open>Uuid\<close> belongs to a third-party crate. This module only builds one from its
  16 bytes, reads the 16 bytes back and compares, so the model keeps the bytes; a fresh one
  (\<^verbatim>\<open>Uuid::new_v4\<close>) is an argument of \<open>PairingAttemptId_generate\<close>. The array
  type \<^verbatim>\<open>[u8; 16]\<close> is the predicate \<open>wf_attempt_id\<close>.
\<close>

datatype PairingAttemptId = PairingAttemptId (uuid_bytes: "u8 list")

definition wf_attempt_id :: "PairingAttemptId \<Rightarrow> bool" where
  "wf_attempt_id a \<longleftrightarrow> length (uuid_bytes a) = ATTEMPT_ID_LEN"

definition PairingAttemptId_generate :: "u8 list \<Rightarrow> PairingAttemptId" where
  "PairingAttemptId_generate new_v4 = PairingAttemptId new_v4"

definition PairingAttemptId_from_bytes :: "u8 list \<Rightarrow> PairingAttemptId" where
  "PairingAttemptId_from_bytes bytes = PairingAttemptId bytes"

definition PairingAttemptId_to_bytes :: "PairingAttemptId \<Rightarrow> u8 list" where
  "PairingAttemptId_to_bytes a = uuid_bytes a"

datatype PairingRejectionReason = Unspecified | Busy | Declined

fun PairingRejectionReason_as_str :: "PairingRejectionReason \<Rightarrow> rstr" where
  "PairingRejectionReason_as_str Unspecified = ascii ''unspecified''"
| "PairingRejectionReason_as_str Busy = ascii ''busy''"
| "PairingRejectionReason_as_str Declined = ascii ''declined''"

fun to_wire :: "PairingRejectionReason \<Rightarrow> u8" where
  "to_wire Unspecified = REASON_UNSPECIFIED"
| "to_wire Busy = REASON_BUSY"
| "to_wire Declined = REASON_DECLINED"

definition from_wire :: "u8 \<Rightarrow> PairingRejectionReason option" where
  "from_wire v =
     (if v = REASON_UNSPECIFIED then Some Unspecified
      else if v = REASON_BUSY then Some Busy
      else if v = REASON_DECLINED then Some Declined
      else None)"

section \<open>Messages\<close>

datatype PairingMessage =
    Request PairingAttemptId
  | RequestAccepted PairingAttemptId
  | RequestRejected PairingAttemptId PairingRejectionReason

datatype PairingMessageError =
    InvalidLength nat
  | UnsupportedVersion u8
  | UnknownMessageKind u8
  | UnknownRejectionReason u8
  | LengthKindMismatch u8 nat

definition PairingMessage_request :: "PairingAttemptId \<Rightarrow> PairingMessage" where
  "PairingMessage_request a = Request a"

definition PairingMessage_accepted :: "PairingAttemptId \<Rightarrow> PairingMessage" where
  "PairingMessage_accepted a = RequestAccepted a"

definition PairingMessage_rejected ::
  "PairingAttemptId \<Rightarrow> PairingRejectionReason \<Rightarrow> PairingMessage" where
  "PairingMessage_rejected a r = RequestRejected a r"

fun PairingMessage_attempt_id :: "PairingMessage \<Rightarrow> PairingAttemptId" where
  "PairingMessage_attempt_id (Request a) = a"
| "PairingMessage_attempt_id (RequestAccepted a) = a"
| "PairingMessage_attempt_id (RequestRejected a _) = a"

definition PairingMessage_encode :: "PairingMessage \<Rightarrow> u8 list" where
  "PairingMessage_encode m =
     [PAIRING_PROTOCOL_VERSION] @
     (case m of
        Request a \<Rightarrow> [KIND_REQUEST] @ PairingAttemptId_to_bytes a
      | RequestAccepted a \<Rightarrow> [KIND_REQUEST_ACCEPTED] @ PairingAttemptId_to_bytes a
      | RequestRejected a r \<Rightarrow>
          [KIND_REQUEST_REJECTED] @ PairingAttemptId_to_bytes a @ [to_wire r])"

definition exact_len :: "u8 list \<Rightarrow> nat \<Rightarrow> u8 \<Rightarrow> PairingMessageError + unit" where
  "exact_len bytes expected kind =
     (if length bytes = expected then Ok () else Err (LengthKindMismatch kind (length bytes)))"

text \<open>
  Indexing is in range wherever it happens: the first check leaves at least 18 bytes, and
  \<open>exact_len\<close> leaves 19 where the reason is read.
\<close>

definition PairingMessage_decode :: "u8 list \<Rightarrow> PairingMessageError + PairingMessage" where
  "PairingMessage_decode bytes =
     (if length bytes < BASE_MESSAGE_LEN \<or> length bytes > MAX_PAIRING_MESSAGE_BYTES
      then Err (InvalidLength (length bytes))
      else let version = bytes ! VERSION_OFFSET in
        if version \<noteq> PAIRING_PROTOCOL_VERSION then Err (UnsupportedVersion version)
        else
          let kind = bytes ! KIND_OFFSET;
              attempt_id = PairingAttemptId_from_bytes
                (take ATTEMPT_ID_LEN (drop ATTEMPT_ID_OFFSET bytes))
          in
            if kind = KIND_REQUEST then
              and_then (exact_len bytes BASE_MESSAGE_LEN kind) (\<lambda>_. Ok (Request attempt_id))
            else if kind = KIND_REQUEST_ACCEPTED then
              and_then (exact_len bytes BASE_MESSAGE_LEN kind)
                (\<lambda>_. Ok (RequestAccepted attempt_id))
            else if kind = KIND_REQUEST_REJECTED then
              and_then (exact_len bytes REJECTED_MESSAGE_LEN kind) (\<lambda>_.
                let raw = bytes ! REASON_OFFSET in
                and_then (ok_or (UnknownRejectionReason raw) (from_wire raw)) (\<lambda>reason.
                  Ok (RequestRejected attempt_id reason)))
            else Err (UnknownMessageKind kind))"

fun display_PairingMessageError :: "PairingMessageError \<Rightarrow> rstr" where
  "display_PairingMessageError (InvalidLength len) =
     ascii ''pairing message length '' @ show_nat len @ ascii '' is outside the valid range ''
     @ show_nat BASE_MESSAGE_LEN @ ascii ''..='' @ show_nat MAX_PAIRING_MESSAGE_BYTES"
| "display_PairingMessageError (UnsupportedVersion version) =
     ascii ''unsupported pairing protocol version '' @ show_u8 version"
| "display_PairingMessageError (UnknownMessageKind kind) =
     ascii ''unknown pairing message kind '' @ show_u8 kind"
| "display_PairingMessageError (UnknownRejectionReason reason) =
     ascii ''unknown pairing rejection reason '' @ show_u8 reason"
| "display_PairingMessageError (LengthKindMismatch kind len) =
     ascii ''pairing message kind '' @ show_u8 kind @ ascii '' does not permit length ''
     @ show_nat len"

section \<open>Facts about the codec\<close>

definition wf_message :: "PairingMessage \<Rightarrow> bool" where
  "wf_message m \<longleftrightarrow> wf_attempt_id (PairingMessage_attempt_id m)"

lemma from_wire_to_wire [simp]: "from_wire (to_wire r) = Some r"
  by (cases r) (simp_all add: from_wire_def wire_constants)

lemma from_wire_Some: "from_wire v = Some r \<Longrightarrow> to_wire r = v"
  by (auto simp: from_wire_def split: if_splits)

lemma length_encode:
  "wf_message m \<Longrightarrow> length (PairingMessage_encode m) =
     (case m of RequestRejected _ _ \<Rightarrow> REJECTED_MESSAGE_LEN | _ \<Rightarrow> BASE_MESSAGE_LEN)"
  by (cases m) (simp_all add: PairingMessage_encode_def wf_message_def wf_attempt_id_def
      PairingAttemptId_to_bytes_def wire_constants)

lemma decode_encode [simp]:
  assumes "wf_message m"
  shows "PairingMessage_decode (PairingMessage_encode m) = Ok m"
proof -
  have len: "length (uuid_bytes (PairingMessage_attempt_id m)) = 16"
    using assms by (simp add: wf_message_def wf_attempt_id_def wire_constants)
  show ?thesis
  proof (cases m)
    case (Request a)
    with len show ?thesis
      by (cases a) (simp add: PairingMessage_decode_def PairingMessage_encode_def exact_len_def
          PairingAttemptId_to_bytes_def PairingAttemptId_from_bytes_def wire_constants)
  next
    case (RequestAccepted a)
    with len show ?thesis
      by (cases a) (simp add: PairingMessage_decode_def PairingMessage_encode_def exact_len_def
          PairingAttemptId_to_bytes_def PairingAttemptId_from_bytes_def wire_constants)
  next
    case (RequestRejected a r)
    with len from_wire_to_wire [of r] show ?thesis
      by (cases a) (simp add: PairingMessage_decode_def PairingMessage_encode_def exact_len_def
          PairingAttemptId_to_bytes_def PairingAttemptId_from_bytes_def wire_constants
          nth_append nth_Cons')
  qed
qed

lemma take_drop_two:
  "length bs = 18 \<Longrightarrow> bs = bs ! 0 # bs ! 1 # take 16 (drop 2 bs)"
  "length bs = 19 \<Longrightarrow> bs = bs ! 0 # bs ! 1 # take 16 (drop 2 bs) @ [bs ! 18]"
proof -
  have two: "bs = bs ! 0 # bs ! 1 # drop 2 bs" if "2 \<le> length bs"
    using that by (cases bs; cases "tl bs") auto
  show "bs = bs ! 0 # bs ! 1 # take 16 (drop 2 bs)" if "length bs = 18"
    using that two by simp
  assume l: "length bs = 19"
  then have "drop 2 bs = take (Suc 16) (drop 2 bs)" by simp
  also have "\<dots> = take 16 (drop 2 bs) @ [bs ! 18]"
    using l by (subst take_Suc_conv_app_nth) simp_all
  finally show "bs = bs ! 0 # bs ! 1 # take 16 (drop 2 bs) @ [bs ! 18]"
    using l two by simp
qed

lemma decode_sound:
  assumes "PairingMessage_decode bs = Ok m"
  shows "wf_message m \<and> PairingMessage_encode m = bs"
proof -
  from assms have len: "length bs = 18 \<or> length bs = 19" and version: "bs ! 0 = 1"
    by (auto simp: PairingMessage_decode_def wire_constants Let_def split: if_splits)
  let ?a = "PairingAttemptId (take 16 (drop 2 bs))"
  from assms len consider
      "m = Request ?a" "bs ! 1 = 1" "length bs = 18"
    | "m = RequestAccepted ?a" "bs ! 1 = 2" "length bs = 18"
    | r where "m = RequestRejected ?a r" "bs ! 1 = 3" "length bs = 19" "bs ! 18 = to_wire r"
    by (auto simp: PairingMessage_decode_def wire_constants Let_def exact_len_def
        PairingAttemptId_from_bytes_def result_simps dest!: from_wire_Some split: if_splits)
  then show ?thesis
  proof cases
    case 1
    with take_drop_two(1) [of bs] version show ?thesis
      by (simp add: wf_message_def wf_attempt_id_def PairingMessage_encode_def wire_constants
          PairingAttemptId_to_bytes_def)
  next
    case 2
    with take_drop_two(1) [of bs] version show ?thesis
      by (simp add: wf_message_def wf_attempt_id_def PairingMessage_encode_def wire_constants
          PairingAttemptId_to_bytes_def)
  next
    case 3
    with take_drop_two(2) [of bs] version show ?thesis
      by (simp add: wf_message_def wf_attempt_id_def PairingMessage_encode_def
          PAIRING_PROTOCOL_VERSION_def KIND_REQUEST_REJECTED_def ATTEMPT_ID_LEN_def
          PairingAttemptId_to_bytes_def)
  qed
qed

interpretation wire: codec PairingMessage_encode "\<lambda>bs. result_ok (PairingMessage_decode bs)" wf_message
  by unfold_locales (simp_all add: result_simps decode_sound)

lemma decode_iff: "PairingMessage_decode bs = Ok m \<longleftrightarrow> wf_message m \<and> bs = PairingMessage_encode m"
  using wire.dec_iff [of bs m] by (simp add: result_simps)

end
