(* ===== verification/Attempt.thy ===== *)
theory Attempt
  imports Prelude
begin

text \<open>
  What the two pairing-attempt machines promise their callers: terminal states are
  absorbing, the deadline is fixed, a timed call at or after the deadline times a pending
  attempt out and nothing else does. The consequences for whole input sequences are proved
  once here and reach both machines by interpretation.
\<close>

definition run :: "('i \<Rightarrow> 's \<Rightarrow> 'o \<times> 's) \<Rightarrow> 'i list \<Rightarrow> 's \<Rightarrow> 's" where
  "run step is s = fold (\<lambda>i s. snd (step i s)) is s"

fun outputs :: "('i \<Rightarrow> 's \<Rightarrow> 'o \<times> 's) \<Rightarrow> 'i list \<Rightarrow> 's \<Rightarrow> 'o list" where
  "outputs step [] s = []"
| "outputs step (i # is) s = fst (step i s) # outputs step is (snd (step i s))"

lemma run_simps [simp]:
  "run step [] s = s"
  "run step (i # is) s = run step is (snd (step i s))"
  "run step (is @ js) s = run step js (run step is s)"
  by (simp_all add: run_def)

lemma outputs_append [simp]: "outputs step (is @ js) s = outputs step is s @ outputs step js (run step is s)"
  by (induction "is" arbitrary: s) simp_all

locale attempt_machine =
  fixes step :: "'i \<Rightarrow> 's \<Rightarrow> 'o \<times> 's"
    and terminal :: "'s \<Rightarrow> bool"
    and expired :: "'s \<Rightarrow> bool"
    and deadline :: "'s \<Rightarrow> duration"
    and clock :: "'i \<Rightarrow> duration option"
    and inert :: "'o \<Rightarrow> bool"
  assumes absorbing: "terminal s \<Longrightarrow> snd (step i s) = s \<and> inert (fst (step i s))"
    and fixed_deadline: "deadline (snd (step i s)) = deadline s"
    and expiry: "\<not> terminal s \<Longrightarrow> clock i = Some t \<Longrightarrow> deadline s \<le> t \<Longrightarrow> expired (snd (step i s))"
    and expired_only: "\<not> terminal s \<Longrightarrow> expired (snd (step i s)) \<Longrightarrow> \<exists>t. clock i = Some t \<and> deadline s \<le> t"
    and expired_terminal: "expired s \<Longrightarrow> terminal s"
begin

lemma run_deadline: "deadline (run step is s) = deadline s"
  by (induction "is" arbitrary: s) (simp_all add: fixed_deadline)

lemma run_absorbing: "terminal s \<Longrightarrow> run step is s = s"
  by (induction "is") (simp_all add: absorbing)

lemma outputs_absorbing: "terminal s \<Longrightarrow> \<forall>out\<in>set (outputs step is s). inert out"
  by (induction "is") (simp_all add: absorbing)

text \<open>An attempt that ends has one deciding input; whatever follows it changes nothing.\<close>

lemma deciding_input:
  assumes "\<not> terminal s" "terminal (run step is s)"
  obtains pre i post where "is = pre @ i # post" "\<not> terminal (run step pre s)"
    "run step is s = snd (step i (run step pre s))"
proof -
  from assms have "\<exists>pre i post. is = pre @ i # post \<and> \<not> terminal (run step pre s) \<and>
      run step is s = snd (step i (run step pre s))"
  proof (induction "is" rule: rev_induct)
    case Nil
    then show ?case by simp
  next
    case (snoc j js)
    show ?case
    proof (cases "terminal (run step js s)")
      case True
      with snoc obtain pre i post where "js = pre @ i # post" "\<not> terminal (run step pre s)"
          "run step js s = snd (step i (run step pre s))" by blast
      moreover have "run step (js @ [j]) s = run step js s"
        using True absorbing by simp
      ultimately show ?thesis by (metis append.assoc append_Cons)
    next
      case False
      then show ?thesis by (intro exI [of _ js] exI [of _ j] exI [of _ "[]"]) simp
    qed
  qed
  then show thesis using that by blast
qed

lemma late_call_ends:
  assumes "i \<in> set is" "clock i = Some t" "deadline s \<le> t"
  shows "terminal (run step is s)"
proof -
  from assms(1) obtain pre post where split: "is = pre @ i # post" by (meson split_list)
  let ?s = "run step pre s"
  have "terminal (snd (step i ?s))"
    using assms(2,3) expiry expired_terminal absorbing run_deadline [of pre s] by metis
  then show ?thesis using split run_absorbing by simp
qed

lemma pending_calls_in_time:
  assumes "\<not> terminal (run step is s)" "i \<in> set is" "clock i = Some t"
  shows "t < deadline s"
  using late_call_ends assms by (meson not_le_imp_less)

lemma decided_in_time:
  assumes "\<not> terminal s" "\<not> expired (snd (step i s))" "clock i = Some t"
  shows "t < deadline s"
  using assms expiry by (meson not_le_imp_less)

end

end
