(* ===== verification/Pairing_Request.thy ===== *)
theory Pairing_Request
  imports Pairing_Message Attempt
begin

text \<open>
  The initiator of the pairing-request phase: \<^verbatim>\<open>PairingRequest\<close> of
  \<^verbatim>\<open>crates/local-transfer-core/src/pairing.rs\<close>. Each \<^verbatim>\<open>&mut self\<close>
  operation is a function from the attempt to its result and the attempt afterwards.
\<close>

section \<open>State\<close>

datatype PairingRequestFailure =
    Protocol PairingMessageError
  | UnexpectedMessage
  | TransportFailure

datatype PairingRequestIgnored =
    AlreadyResolved
  | AlreadySent
  | NotAwaitingResponse
  | AttemptIdMismatch

datatype PairingRequestState =
    RequestCreated
  | AwaitingRemoteResponse
  | ReadyForNextPairingStage
  | Rejected PairingRejectionReason
  | Cancelled
  | TimedOut
  | Failed PairingRequestFailure

datatype PairingRequestEvent =
    Pending
  | AwaitingResponse
  | ReadyForNextPairingStage
  | Rejected PairingRejectionReason
  | Cancelled
  | TimedOut
  | Failed PairingRequestFailure
  | Ignored PairingRequestIgnored

record PairingRequest =
  req_attempt_id :: PairingAttemptId
  req_deadline :: duration
  req_state :: PairingRequestState

fun display_PairingRequestFailure :: "PairingRequestFailure \<Rightarrow> rstr" where
  "display_PairingRequestFailure (Protocol source) =
     ascii ''pairing request protocol failure: '' @ display_PairingMessageError source"
| "display_PairingRequestFailure UnexpectedMessage =
     ascii ''received a pairing message that is not valid for the initiator in this state''"
| "display_PairingRequestFailure TransportFailure =
     ascii ''the pairing transport failed during the request phase''"

section \<open>Operations\<close>

definition with_attempt_id :: "PairingAttemptId \<Rightarrow> duration \<Rightarrow> PairingRequest" where
  "with_attempt_id a d = \<lparr>req_attempt_id = a, req_deadline = d, req_state = RequestCreated\<rparr>"

definition initiate :: "u8 list \<Rightarrow> duration \<Rightarrow> PairingRequest" where
  "initiate new_v4 d = with_attempt_id (PairingAttemptId_generate new_v4) d"

definition req_is_terminal :: "PairingRequest \<Rightarrow> bool" where
  "req_is_terminal p =
     (case req_state p of
        PairingRequestState.ReadyForNextPairingStage \<Rightarrow> True
      | PairingRequestState.Rejected _ \<Rightarrow> True
      | PairingRequestState.Cancelled \<Rightarrow> True
      | PairingRequestState.TimedOut \<Rightarrow> True
      | PairingRequestState.Failed _ \<Rightarrow> True
      | _ \<Rightarrow> False)"

definition req_is_ready :: "PairingRequest \<Rightarrow> bool" where
  "req_is_ready p \<longleftrightarrow> req_state p = PairingRequestState.ReadyForNextPairingStage"

definition req_short_circuit ::
  "duration \<Rightarrow> PairingRequest \<Rightarrow> PairingRequestEvent option \<times> PairingRequest" where
  "req_short_circuit now p =
     (if req_is_terminal p then (Some (Ignored AlreadyResolved), p)
      else if now \<ge> req_deadline p
      then (Some PairingRequestEvent.TimedOut, p\<lparr>req_state := PairingRequestState.TimedOut\<rparr>)
      else (None, p))"

definition req_fail ::
  "PairingRequestFailure \<Rightarrow> PairingRequest \<Rightarrow> PairingRequestEvent \<times> PairingRequest" where
  "req_fail failure p =
     (PairingRequestEvent.Failed failure, p\<lparr>req_state := PairingRequestState.Failed failure\<rparr>)"

definition request_message :: "duration \<Rightarrow> PairingRequest \<Rightarrow> u8 list option \<times> PairingRequest" where
  "request_message now p =
     (case req_short_circuit now p of
        (Some _, p') \<Rightarrow> (None, p')
      | (None, p') \<Rightarrow>
          (case req_state p' of
             RequestCreated \<Rightarrow>
               (Some (PairingMessage_encode (PairingMessage_request (req_attempt_id p'))), p')
           | _ \<Rightarrow> (None, p')))"

definition mark_request_sent :: "duration \<Rightarrow> PairingRequest \<Rightarrow> PairingRequestEvent \<times> PairingRequest" where
  "mark_request_sent now p =
     (case req_short_circuit now p of
        (Some event, p') \<Rightarrow> (event, p')
      | (None, p') \<Rightarrow>
          (case req_state p' of
             RequestCreated \<Rightarrow> (AwaitingResponse, p'\<lparr>req_state := AwaitingRemoteResponse\<rparr>)
           | _ \<Rightarrow> (Ignored AlreadySent, p')))"

definition handle_remote_message ::
  "u8 list \<Rightarrow> duration \<Rightarrow> PairingRequest \<Rightarrow> PairingRequestEvent \<times> PairingRequest" where
  "handle_remote_message raw now p =
     (case req_short_circuit now p of
        (Some event, p') \<Rightarrow> (event, p')
      | (None, p') \<Rightarrow>
          (case PairingMessage_decode raw of
             Err error \<Rightarrow> req_fail (Protocol error) p'
           | Ok message \<Rightarrow>
               if PairingMessage_attempt_id message \<noteq> req_attempt_id p'
               then (Ignored AttemptIdMismatch, p')
               else (case message of
                   Request _ \<Rightarrow> req_fail UnexpectedMessage p'
                 | RequestAccepted _ \<Rightarrow>
                     if req_state p' = RequestCreated then (Ignored NotAwaitingResponse, p')
                     else (PairingRequestEvent.ReadyForNextPairingStage,
                       p'\<lparr>req_state := PairingRequestState.ReadyForNextPairingStage\<rparr>)
                 | RequestRejected _ reason \<Rightarrow>
                     if req_state p' = RequestCreated then (Ignored NotAwaitingResponse, p')
                     else (PairingRequestEvent.Rejected reason,
                       p'\<lparr>req_state := PairingRequestState.Rejected reason\<rparr>))))"

definition req_check_deadline :: "duration \<Rightarrow> PairingRequest \<Rightarrow> PairingRequestEvent \<times> PairingRequest" where
  "req_check_deadline now p =
     (case req_short_circuit now p of
        (Some event, p') \<Rightarrow> (event, p')
      | (None, p') \<Rightarrow> (Pending, p'))"

definition req_cancel :: "PairingRequest \<Rightarrow> PairingRequestEvent \<times> PairingRequest" where
  "req_cancel p =
     (if req_is_terminal p then (Ignored AlreadyResolved, p)
      else (PairingRequestEvent.Cancelled, p\<lparr>req_state := PairingRequestState.Cancelled\<rparr>))"

definition req_note_transport_failure :: "PairingRequest \<Rightarrow> PairingRequestEvent \<times> PairingRequest" where
  "req_note_transport_failure p =
     (if req_is_terminal p then (Ignored AlreadyResolved, p) else req_fail TransportFailure p)"

section \<open>Sequences of calls\<close>

datatype initiator_input =
    RequestMessage duration
  | MarkRequestSent duration
  | HandleRemoteMessage "u8 list" duration
  | CheckDeadline duration
  | Cancel
  | NoteTransportFailure

datatype initiator_output = Bytes "u8 list option" | Event PairingRequestEvent

fun initiator_step :: "initiator_input \<Rightarrow> PairingRequest \<Rightarrow> initiator_output \<times> PairingRequest" where
  "initiator_step (RequestMessage now) p = map_prod Bytes id (request_message now p)"
| "initiator_step (MarkRequestSent now) p = map_prod Event id (mark_request_sent now p)"
| "initiator_step (HandleRemoteMessage raw now) p =
     map_prod Event id (handle_remote_message raw now p)"
| "initiator_step (CheckDeadline now) p = map_prod Event id (req_check_deadline now p)"
| "initiator_step Cancel p = map_prod Event id (req_cancel p)"
| "initiator_step NoteTransportFailure p = map_prod Event id (req_note_transport_failure p)"

fun initiator_clock :: "initiator_input \<Rightarrow> duration option" where
  "initiator_clock (RequestMessage now) = Some now"
| "initiator_clock (MarkRequestSent now) = Some now"
| "initiator_clock (HandleRemoteMessage _ now) = Some now"
| "initiator_clock (CheckDeadline now) = Some now"
| "initiator_clock Cancel = None"
| "initiator_clock NoteTransportFailure = None"

lemmas req_op_defs = request_message_def mark_request_sent_def handle_remote_message_def
  req_check_deadline_def req_cancel_def req_note_transport_failure_def req_short_circuit_def
  req_fail_def

definition req_timed_out :: "PairingRequest \<Rightarrow> bool" where
  "req_timed_out p \<longleftrightarrow> req_state p = PairingRequestState.TimedOut"

definition req_inert :: "initiator_output \<Rightarrow> bool" where
  "req_inert out \<longleftrightarrow> out = Bytes None \<or> out = Event (Ignored AlreadyResolved)"

lemma req_terminal_cases:
  "req_is_terminal p \<longleftrightarrow> req_state p \<noteq> RequestCreated \<and> req_state p \<noteq> AwaitingRemoteResponse"
  by (auto simp: req_is_terminal_def split: PairingRequestState.splits)

interpretation initiator: attempt_machine initiator_step req_is_terminal req_timed_out req_deadline
  initiator_clock req_inert
proof unfold_locales
  fix s i t
  show "req_is_terminal s \<Longrightarrow> snd (initiator_step i s) = s \<and> req_inert (fst (initiator_step i s))"
    by (cases i) (simp_all add: req_op_defs req_inert_def)
  show "req_deadline (snd (initiator_step i s)) = req_deadline s"
    by (cases i) (simp_all add: req_op_defs split: PairingRequestState.split sum.split PairingMessage.split)
  show "req_timed_out (snd (initiator_step i s))"
    if "\<not> req_is_terminal s" "initiator_clock i = Some t" "req_deadline s \<le> t"
    using that by (cases i) (simp_all add: req_op_defs req_timed_out_def)
  show "\<exists>t. initiator_clock i = Some t \<and> req_deadline s \<le> t"
    if "\<not> req_is_terminal s" "req_timed_out (snd (initiator_step i s))"
    using that by (cases i)
      (auto simp: req_op_defs req_timed_out_def req_terminal_cases
        split: PairingRequestState.splits sum.splits PairingMessage.splits if_splits)
  show "req_timed_out s \<Longrightarrow> req_is_terminal s"
    by (simp add: req_timed_out_def req_is_terminal_def)
qed

section \<open>The documented state graph\<close>

text \<open>
  The transitions the documentation of \<^verbatim>\<open>PairingRequestState\<close> allows, each with
  the event that reports it.
\<close>

inductive initiator_edge :: "PairingRequestState \<Rightarrow> PairingRequestEvent \<Rightarrow> PairingRequestState \<Rightarrow> bool" where
  sent: "initiator_edge RequestCreated AwaitingResponse AwaitingRemoteResponse"
| accepted: "initiator_edge AwaitingRemoteResponse PairingRequestEvent.ReadyForNextPairingStage
     PairingRequestState.ReadyForNextPairingStage"
| rejected: "initiator_edge AwaitingRemoteResponse (PairingRequestEvent.Rejected r)
     (PairingRequestState.Rejected r)"
| cancelled: "st = RequestCreated \<or> st = AwaitingRemoteResponse \<Longrightarrow>
     initiator_edge st PairingRequestEvent.Cancelled PairingRequestState.Cancelled"
| timed_out: "st = RequestCreated \<or> st = AwaitingRemoteResponse \<Longrightarrow>
     initiator_edge st PairingRequestEvent.TimedOut PairingRequestState.TimedOut"
| failed: "st = RequestCreated \<or> st = AwaitingRemoteResponse \<Longrightarrow>
     initiator_edge st (PairingRequestEvent.Failed f) (PairingRequestState.Failed f)"

inductive_cases edge_to_readyE: "initiator_edge st e PairingRequestState.ReadyForNextPairingStage"
inductive_cases edge_from_createdE: "initiator_edge RequestCreated e st"
inductive_simps edge_from_ready: "initiator_edge PairingRequestState.ReadyForNextPairingStage e st"

definition initiator_quiet :: "initiator_output \<Rightarrow> bool" where
  "initiator_quiet out \<longleftrightarrow>
     (case out of Bytes b \<Rightarrow> b \<noteq> None | Event e \<Rightarrow> e = Pending \<or> (\<exists>r. e = Ignored r))"

lemma req_step_id: "req_attempt_id (snd (initiator_step i p)) = req_attempt_id p"
  by (cases i) (simp_all add: req_op_defs split: PairingRequestState.split sum.split PairingMessage.split)

lemma req_run_id: "req_attempt_id (run initiator_step is p) = req_attempt_id p"
  by (induction "is" arbitrary: p) (simp_all add: req_step_id)

lemma with_attempt_id_simps [simp]:
  "req_attempt_id (with_attempt_id a d) = a" "req_deadline (with_attempt_id a d) = d"
  "req_state (with_attempt_id a d) = RequestCreated" "\<not> req_is_terminal (with_attempt_id a d)"
  by (simp_all add: with_attempt_id_def req_is_terminal_def)

lemma req_step_event:
  assumes "fst (initiator_step i p) = Event e"
  shows "(e = Pending \<or> (\<exists>r. e = Ignored r)) \<and> snd (initiator_step i p) = p \<or>
    (\<exists>st. initiator_edge (req_state p) e st \<and> snd (initiator_step i p) = p\<lparr>req_state := st\<rparr>)"
  using assms
  by (cases i)
    (auto simp: req_op_defs req_terminal_cases intro: initiator_edge.intros
      split: PairingRequestState.splits sum.splits PairingMessage.splits if_splits)

text \<open>
  What an input can have done to a pending attempt, by the state it leaves. These are the
  facts the provenance proofs use.
\<close>

lemma req_step_to_awaiting:
  assumes "req_state (snd (initiator_step i p)) = AwaitingRemoteResponse"
  shows "req_state p = AwaitingRemoteResponse \<or>
    (\<exists>now. i = MarkRequestSent now \<and> now < req_deadline p)"
  using assms
  by (cases i)
    (auto simp: req_op_defs split: PairingRequestState.splits sum.splits PairingMessage.splits if_splits)

lemma req_step_to_verdict:
  assumes "\<not> req_is_terminal p"
  shows "req_state (snd (initiator_step i p)) = PairingRequestState.ReadyForNextPairingStage \<longleftrightarrow>
      req_state p = AwaitingRemoteResponse \<and> (\<exists>now < req_deadline p. \<exists>raw. i = HandleRemoteMessage raw now \<and>
        PairingMessage_decode raw = Ok (RequestAccepted (req_attempt_id p)))"
    and "req_state (snd (initiator_step i p)) = PairingRequestState.Rejected r \<longleftrightarrow>
      req_state p = AwaitingRemoteResponse \<and> (\<exists>now < req_deadline p. \<exists>raw. i = HandleRemoteMessage raw now \<and>
        PairingMessage_decode raw = Ok (RequestRejected (req_attempt_id p) r))"
  using assms
  by (atomize (full), cases i)
    (auto simp: req_op_defs req_terminal_cases
      split: PairingRequestState.splits sum.splits PairingMessage.splits if_splits)

lemma req_step_abort: "i = Cancel \<or> i = NoteTransportFailure \<Longrightarrow> req_is_terminal (snd (initiator_step i p))"
  by (auto simp: req_op_defs req_is_terminal_def split: PairingRequestState.splits)

lemma req_pending_no_abort:
  assumes "\<not> req_is_terminal (run initiator_step is p)" "i \<in> set is"
  shows "i \<noteq> Cancel \<and> i \<noteq> NoteTransportFailure"
proof -
  from assms(2) obtain pre post where "is = pre @ i # post" by (meson split_list)
  with assms(1) show ?thesis
    using initiator.run_absorbing req_step_abort [of i "run initiator_step pre p"] by auto
qed

lemma req_awaiting_sent:
  assumes "req_state (run initiator_step is p) = AwaitingRemoteResponse" "req_state p = RequestCreated"
  shows "\<exists>pre now post. is = pre @ MarkRequestSent now # post \<and> now < req_deadline p"
  using assms(1)
proof (induction "is" rule: rev_induct)
  case Nil
  then show ?case using assms(2) by simp
next
  case (snoc i js)
  then consider "req_state (run initiator_step js p) = AwaitingRemoteResponse"
    | now where "i = MarkRequestSent now" "now < req_deadline p"
    using req_step_to_awaiting [of i "run initiator_step js p"] initiator.run_deadline [of js p] by auto
  then show ?case
  proof cases
    case 1
    then show ?thesis using snoc.IH by (metis append.assoc append_Cons)
  next
    case 2
    then show ?thesis by blast
  qed
qed

lemma req_verdict_provenance:
  assumes "req_state (run initiator_step is (with_attempt_id a d)) = st"
    and "(st = PairingRequestState.ReadyForNextPairingStage \<and> m = RequestAccepted a) \<or>
      (\<exists>r. st = PairingRequestState.Rejected r \<and> m = RequestRejected a r)"
  shows "\<exists>pre sent mid received post.
    is = pre @ MarkRequestSent sent # mid @ HandleRemoteMessage (PairingMessage_encode m) received # post \<and>
    sent < d \<and> received < d \<and> Cancel \<notin> set (pre @ mid) \<and> NoteTransportFailure \<notin> set (pre @ mid)"
proof -
  let ?p = "with_attempt_id a d"
  have "req_is_terminal (run initiator_step is ?p)"
    using assms by (auto simp: req_terminal_cases)
  then obtain pre i post where split: "is = pre @ i # post"
      and pending: "\<not> req_is_terminal (run initiator_step pre ?p)"
      and last: "run initiator_step is ?p = snd (initiator_step i (run initiator_step pre ?p))"
    using initiator.deciding_input [of ?p "is"] by auto
  from assms last pending have "req_state (run initiator_step pre ?p) = AwaitingRemoteResponse \<and>
      (\<exists>received < d. i = HandleRemoteMessage (PairingMessage_encode m) received)"
    using req_step_to_verdict [of "run initiator_step pre ?p" i] initiator.run_deadline [of pre ?p]
      req_run_id [of pre ?p] by (auto simp: decode_iff)
  then obtain received where awaiting: "req_state (run initiator_step pre ?p) = AwaitingRemoteResponse"
      and i: "i = HandleRemoteMessage (PairingMessage_encode m) received" "received < d" by blast
  from req_awaiting_sent [OF awaiting] obtain before sent mid where
      pre: "pre = before @ MarkRequestSent sent # mid" "sent < d" by auto
  have "Cancel \<notin> set pre" "NoteTransportFailure \<notin> set pre"
    using req_pending_no_abort [OF pending] by blast+
  with split i pre show ?thesis by (intro exI [of _ before] exI [of _ sent] exI [of _ mid] exI [of _ received] exI [of _ post]) auto
qed

end
