(* ===== verification/Pairing_Response.thy ===== *)
theory Pairing_Response
  imports Pairing_Message Attempt
begin

text \<open>
  The responder of the pairing-request phase: \<^verbatim>\<open>PairingResponse\<close> of
  \<^verbatim>\<open>crates/local-transfer-core/src/pairing.rs\<close>, in the same shape as the initiator.
\<close>

section \<open>State\<close>

datatype PairingResponseError =
    Protocol PairingMessageError
  | NotARequest

datatype PairingResponseIgnored =
    AlreadyResolved
  | DecisionAlreadyMade
  | NoAcceptedReply

datatype PairingResponseState =
    AwaitingDecision
  | AcceptedAwaitingSend
  | ReadyForNextPairingStage
  | Rejected PairingRejectionReason
  | Cancelled
  | TimedOut
  | Failed

datatype PairingResponseEvent =
    Pending
  | Accepted "u8 list"
  | Rejected "u8 list"
  | ReadyForNextPairingStage
  | Cancelled
  | TimedOut
  | Failed
  | Ignored PairingResponseIgnored

record PairingResponse =
  resp_attempt_id :: PairingAttemptId
  resp_deadline :: duration
  resp_state :: PairingResponseState

fun display_PairingResponseError :: "PairingResponseError \<Rightarrow> rstr" where
  "display_PairingResponseError (Protocol source) =
     ascii ''invalid incoming pairing request: '' @ display_PairingMessageError source"
| "display_PairingResponseError NotARequest =
     ascii ''the message is not a pairing request and cannot start a responder attempt''"

section \<open>Operations\<close>

definition from_request :: "u8 list \<Rightarrow> duration \<Rightarrow> PairingResponseError + PairingResponse" where
  "from_request request d =
     and_then (map_err Protocol (PairingMessage_decode request)) (\<lambda>m.
       case m of
         Request a \<Rightarrow>
           Ok \<lparr>resp_attempt_id = a, resp_deadline = d, resp_state = AwaitingDecision\<rparr>
       | RequestAccepted _ \<Rightarrow> Err NotARequest
       | RequestRejected _ _ \<Rightarrow> Err NotARequest)"

definition resp_is_terminal :: "PairingResponse \<Rightarrow> bool" where
  "resp_is_terminal p =
     (case resp_state p of
        PairingResponseState.ReadyForNextPairingStage \<Rightarrow> True
      | PairingResponseState.Rejected _ \<Rightarrow> True
      | PairingResponseState.Cancelled \<Rightarrow> True
      | PairingResponseState.TimedOut \<Rightarrow> True
      | PairingResponseState.Failed \<Rightarrow> True
      | _ \<Rightarrow> False)"

definition resp_is_ready :: "PairingResponse \<Rightarrow> bool" where
  "resp_is_ready p \<longleftrightarrow> resp_state p = PairingResponseState.ReadyForNextPairingStage"

definition resp_short_circuit ::
  "duration \<Rightarrow> PairingResponse \<Rightarrow> PairingResponseEvent option \<times> PairingResponse" where
  "resp_short_circuit now p =
     (if resp_is_terminal p then (Some (Ignored AlreadyResolved), p)
      else if now \<ge> resp_deadline p
      then (Some PairingResponseEvent.TimedOut, p\<lparr>resp_state := PairingResponseState.TimedOut\<rparr>)
      else (None, p))"

definition accept :: "duration \<Rightarrow> PairingResponse \<Rightarrow> PairingResponseEvent \<times> PairingResponse" where
  "accept now p =
     (case resp_short_circuit now p of
        (Some event, p') \<Rightarrow> (event, p')
      | (None, p') \<Rightarrow>
          (case resp_state p' of
             AwaitingDecision \<Rightarrow>
               (Accepted (PairingMessage_encode (PairingMessage_accepted (resp_attempt_id p'))),
                p'\<lparr>resp_state := AcceptedAwaitingSend\<rparr>)
           | _ \<Rightarrow> (Ignored DecisionAlreadyMade, p')))"

definition reject ::
  "PairingRejectionReason \<Rightarrow> duration \<Rightarrow> PairingResponse \<Rightarrow> PairingResponseEvent \<times> PairingResponse" where
  "reject reason now p =
     (case resp_short_circuit now p of
        (Some event, p') \<Rightarrow> (event, p')
      | (None, p') \<Rightarrow>
          (case resp_state p' of
             AwaitingDecision \<Rightarrow>
               (PairingResponseEvent.Rejected
                  (PairingMessage_encode (PairingMessage_rejected (resp_attempt_id p') reason)),
                p'\<lparr>resp_state := PairingResponseState.Rejected reason\<rparr>)
           | _ \<Rightarrow> (Ignored DecisionAlreadyMade, p')))"

definition mark_reply_sent :: "duration \<Rightarrow> PairingResponse \<Rightarrow> PairingResponseEvent \<times> PairingResponse" where
  "mark_reply_sent now p =
     (case resp_short_circuit now p of
        (Some event, p') \<Rightarrow> (event, p')
      | (None, p') \<Rightarrow>
          (case resp_state p' of
             AcceptedAwaitingSend \<Rightarrow>
               (PairingResponseEvent.ReadyForNextPairingStage,
                p'\<lparr>resp_state := PairingResponseState.ReadyForNextPairingStage\<rparr>)
           | _ \<Rightarrow> (Ignored NoAcceptedReply, p')))"

definition resp_cancel :: "PairingResponse \<Rightarrow> PairingResponseEvent \<times> PairingResponse" where
  "resp_cancel p =
     (if resp_is_terminal p then (Ignored AlreadyResolved, p)
      else (PairingResponseEvent.Cancelled, p\<lparr>resp_state := PairingResponseState.Cancelled\<rparr>))"

definition resp_note_transport_failure :: "PairingResponse \<Rightarrow> PairingResponseEvent \<times> PairingResponse" where
  "resp_note_transport_failure p =
     (if resp_is_terminal p then (Ignored AlreadyResolved, p)
      else (PairingResponseEvent.Failed, p\<lparr>resp_state := PairingResponseState.Failed\<rparr>))"

definition resp_check_deadline :: "duration \<Rightarrow> PairingResponse \<Rightarrow> PairingResponseEvent \<times> PairingResponse" where
  "resp_check_deadline now p =
     (case resp_short_circuit now p of
        (Some event, p') \<Rightarrow> (event, p')
      | (None, p') \<Rightarrow> (Pending, p'))"

section \<open>Sequences of calls\<close>

datatype responder_input =
    Accept duration
  | Reject PairingRejectionReason duration
  | MarkReplySent duration
  | CheckDeadline duration
  | Cancel
  | NoteTransportFailure

fun responder_step :: "responder_input \<Rightarrow> PairingResponse \<Rightarrow> PairingResponseEvent \<times> PairingResponse" where
  "responder_step (Accept now) p = accept now p"
| "responder_step (Reject reason now) p = reject reason now p"
| "responder_step (MarkReplySent now) p = mark_reply_sent now p"
| "responder_step (CheckDeadline now) p = resp_check_deadline now p"
| "responder_step Cancel p = resp_cancel p"
| "responder_step NoteTransportFailure p = resp_note_transport_failure p"

fun responder_clock :: "responder_input \<Rightarrow> duration option" where
  "responder_clock (Accept now) = Some now"
| "responder_clock (Reject _ now) = Some now"
| "responder_clock (MarkReplySent now) = Some now"
| "responder_clock (CheckDeadline now) = Some now"
| "responder_clock Cancel = None"
| "responder_clock NoteTransportFailure = None"

lemmas resp_op_defs = accept_def reject_def mark_reply_sent_def resp_check_deadline_def
  resp_cancel_def resp_note_transport_failure_def resp_short_circuit_def

definition resp_timed_out :: "PairingResponse \<Rightarrow> bool" where
  "resp_timed_out p \<longleftrightarrow> resp_state p = PairingResponseState.TimedOut"

definition resp_inert :: "PairingResponseEvent \<Rightarrow> bool" where
  "resp_inert e \<longleftrightarrow> e = Ignored AlreadyResolved"

lemma resp_terminal_cases:
  "resp_is_terminal p \<longleftrightarrow> resp_state p \<noteq> AwaitingDecision \<and> resp_state p \<noteq> AcceptedAwaitingSend"
  by (auto simp: resp_is_terminal_def split: PairingResponseState.splits)

interpretation responder: attempt_machine responder_step resp_is_terminal resp_timed_out resp_deadline
  responder_clock resp_inert
proof unfold_locales
  fix s i t
  show "resp_is_terminal s \<Longrightarrow> snd (responder_step i s) = s \<and> resp_inert (fst (responder_step i s))"
    by (cases i) (simp_all add: resp_op_defs resp_inert_def)
  show "resp_deadline (snd (responder_step i s)) = resp_deadline s"
    by (cases i) (simp_all add: resp_op_defs split: PairingResponseState.split)
  show "resp_timed_out (snd (responder_step i s))"
    if "\<not> resp_is_terminal s" "responder_clock i = Some t" "resp_deadline s \<le> t"
    using that by (cases i) (simp_all add: resp_op_defs resp_timed_out_def)
  show "\<exists>t. responder_clock i = Some t \<and> resp_deadline s \<le> t"
    if "\<not> resp_is_terminal s" "resp_timed_out (snd (responder_step i s))"
    using that by (cases i)
      (auto simp: resp_op_defs resp_timed_out_def resp_terminal_cases
        split: PairingResponseState.splits if_splits)
  show "resp_timed_out s \<Longrightarrow> resp_is_terminal s"
    by (simp add: resp_timed_out_def resp_is_terminal_def)
qed

section \<open>The documented state graph\<close>

inductive responder_edge ::
  "PairingAttemptId \<Rightarrow> PairingResponseState \<Rightarrow> PairingResponseEvent \<Rightarrow> PairingResponseState \<Rightarrow> bool"
  for a where
  accepted: "responder_edge a AwaitingDecision (Accepted (PairingMessage_encode (RequestAccepted a)))
     AcceptedAwaitingSend"
| rejected: "responder_edge a AwaitingDecision
     (PairingResponseEvent.Rejected (PairingMessage_encode (RequestRejected a r)))
     (PairingResponseState.Rejected r)"
| ready: "responder_edge a AcceptedAwaitingSend PairingResponseEvent.ReadyForNextPairingStage
     PairingResponseState.ReadyForNextPairingStage"
| cancelled: "st = AwaitingDecision \<or> st = AcceptedAwaitingSend \<Longrightarrow>
     responder_edge a st PairingResponseEvent.Cancelled PairingResponseState.Cancelled"
| timed_out: "st = AwaitingDecision \<or> st = AcceptedAwaitingSend \<Longrightarrow>
     responder_edge a st PairingResponseEvent.TimedOut PairingResponseState.TimedOut"
| failed: "st = AwaitingDecision \<or> st = AcceptedAwaitingSend \<Longrightarrow>
     responder_edge a st PairingResponseEvent.Failed PairingResponseState.Failed"

inductive_cases edge_acceptedE: "responder_edge a st (Accepted reply) st'"
inductive_cases edge_rejectedE: "responder_edge a st (PairingResponseEvent.Rejected reply) st'"

definition reply_of :: "PairingResponseEvent \<Rightarrow> u8 list option" where
  "reply_of e =
     (case e of Accepted reply \<Rightarrow> Some reply | PairingResponseEvent.Rejected reply \<Rightarrow> Some reply
      | _ \<Rightarrow> None)"

lemma resp_step_id: "resp_attempt_id (snd (responder_step i p)) = resp_attempt_id p"
  by (cases i) (simp_all add: resp_op_defs split: PairingResponseState.split)

lemma resp_run_id: "resp_attempt_id (run responder_step is p) = resp_attempt_id p"
  by (induction "is" arbitrary: p) (simp_all add: resp_step_id)

lemma resp_step_event:
  "(fst (responder_step i p) = Pending \<or> (\<exists>r. fst (responder_step i p) = Ignored r)) \<and>
     snd (responder_step i p) = p \<or>
   (\<exists>st. responder_edge (resp_attempt_id p) (resp_state p) (fst (responder_step i p)) st \<and>
     snd (responder_step i p) = p\<lparr>resp_state := st\<rparr>)"
  by (cases i)
    (auto simp: resp_op_defs resp_terminal_cases PairingMessage_accepted_def PairingMessage_rejected_def
      intro: responder_edge.intros split: PairingResponseState.splits if_splits)

lemma resp_step_decided:
  assumes "resp_state p \<noteq> AwaitingDecision"
  shows "resp_state (snd (responder_step i p)) \<noteq> AwaitingDecision \<and> reply_of (fst (responder_step i p)) = None"
  using assms
  by (cases i) (auto simp: resp_op_defs reply_of_def split: PairingResponseState.splits)

lemma resp_decided_silent:
  "resp_state p \<noteq> AwaitingDecision \<Longrightarrow> \<forall>e\<in>set (outputs responder_step is p). reply_of e = None"
  by (induction "is" arbitrary: p) (auto dest: resp_step_decided)

lemma resp_step_reply:
  assumes "reply_of (fst (responder_step i p)) = Some reply"
  shows "resp_state (snd (responder_step i p)) \<noteq> AwaitingDecision"
    and "(\<exists>now < resp_deadline p. i = Accept now \<and>
        reply = PairingMessage_encode (RequestAccepted (resp_attempt_id p))) \<or>
      (\<exists>now < resp_deadline p. \<exists>r. i = Reject r now \<and>
        reply = PairingMessage_encode (RequestRejected (resp_attempt_id p) r))"
  using assms
  by (atomize (full), cases i)
    (simp_all add: resp_op_defs reply_of_def resp_terminal_cases PairingMessage_accepted_def
      PairingMessage_rejected_def not_le split: PairingResponseState.splits if_splits)

lemma resp_step_to:
  assumes "\<not> resp_is_terminal p"
  shows "resp_state (snd (responder_step i p)) = AcceptedAwaitingSend \<Longrightarrow>
      resp_state p = AcceptedAwaitingSend \<or> (\<exists>now < resp_deadline p. i = Accept now)"
    and "resp_state (snd (responder_step i p)) = PairingResponseState.ReadyForNextPairingStage \<Longrightarrow>
      resp_state p = AcceptedAwaitingSend \<and> (\<exists>now < resp_deadline p. i = MarkReplySent now)"
  using assms
  by (atomize (full), cases i)
    (auto simp: resp_op_defs resp_terminal_cases split: PairingResponseState.splits if_splits)

lemma resp_accepted_provenance:
  assumes "resp_state (run responder_step is p) = AcceptedAwaitingSend" "resp_state p = AwaitingDecision"
  shows "\<exists>pre now post. is = pre @ Accept now # post \<and> now < resp_deadline p"
  using assms(1)
proof (induction "is" rule: rev_induct)
  case Nil
  then show ?case using assms(2) by simp
next
  case (snoc i js)
  have pending: "\<not> resp_is_terminal (run responder_step js p)"
  proof
    assume t: "resp_is_terminal (run responder_step js p)"
    with responder.absorbing [OF this, of i] snoc.prems show False by (simp add: resp_terminal_cases)
  qed
  from resp_step_to(1) [OF pending, of i] snoc.prems
  consider "resp_state (run responder_step js p) = AcceptedAwaitingSend"
    | now where "i = Accept now" "now < resp_deadline p"
    using responder.run_deadline [of js p] by auto
  then show ?case
  proof cases
    case 1
    then show ?thesis using snoc.IH by (metis append.assoc append_Cons)
  next
    case 2
    then show ?thesis by blast
  qed
qed

lemma from_request_Ok:
  "from_request request d = Ok p \<longleftrightarrow>
     (\<exists>a. wf_attempt_id a \<and> request = PairingMessage_encode (Request a) \<and>
       p = \<lparr>resp_attempt_id = a, resp_deadline = d, resp_state = AwaitingDecision\<rparr>)"
proof
  assume "from_request request d = Ok p"
  moreover from this obtain m where "PairingMessage_decode request = Ok m"
    by (auto simp: from_request_def result_simps)
  ultimately obtain a where "PairingMessage_decode request = Ok (Request a)"
      "p = \<lparr>resp_attempt_id = a, resp_deadline = d, resp_state = AwaitingDecision\<rparr>"
    by (cases m) (auto simp: from_request_def)
  then show "\<exists>a. wf_attempt_id a \<and> request = PairingMessage_encode (Request a) \<and>
       p = \<lparr>resp_attempt_id = a, resp_deadline = d, resp_state = AwaitingDecision\<rparr>"
    by (auto simp: decode_iff wf_message_def)
qed (auto simp: from_request_def wf_message_def)

end
