(* ===== verification/Pairing_Session.thy ===== *)
theory Pairing_Session
  imports Pairing_Request Pairing_Response
begin

text \<open>
  The two machines of \<^verbatim>\<open>pairing.rs\<close> joined by a network that loses, duplicates and
  reorders messages. A message once sent stays available; delivering it never, once or many
  times covers loss and duplication, and every delivered request may start another responder
  attempt, as \<^verbatim>\<open>PairingResponse::from_request\<close> does. In a \<open>hostile\<close> session
  anybody may add bytes to either direction.
\<close>

record session =
  ses_initiator :: PairingRequest
  ses_responders :: "PairingResponse list"
  to_responder :: "u8 list set"
  to_initiator :: "u8 list set"
  ses_calls :: "(nat \<times> responder_input) list"

definition session_start :: "PairingAttemptId \<Rightarrow> duration \<Rightarrow> session" where
  "session_start a d = \<lparr>ses_initiator = with_attempt_id a d, ses_responders = [],
     to_responder = {}, to_initiator = {}, ses_calls = []\<rparr>"

inductive session_step :: "bool \<Rightarrow> session \<Rightarrow> session \<Rightarrow> bool" for hostile where
  send_request:
    "request_message now (ses_initiator s) = (Some bytes, p) \<Longrightarrow>
     session_step hostile s
       (s\<lparr>ses_initiator := p, to_responder := insert bytes (to_responder s)\<rparr>)"
| initiator_call:
    "(\<And>raw now. i \<noteq> HandleRemoteMessage raw now) \<Longrightarrow>
     session_step hostile s (s\<lparr>ses_initiator := snd (initiator_step i (ses_initiator s))\<rparr>)"
| deliver_reply:
    "raw \<in> to_initiator s \<Longrightarrow>
     session_step hostile s
       (s\<lparr>ses_initiator := snd (handle_remote_message raw now (ses_initiator s))\<rparr>)"
| deliver_request:
    "raw \<in> to_responder s \<Longrightarrow> from_request raw d = Ok r \<Longrightarrow>
     session_step hostile s (s\<lparr>ses_responders := ses_responders s @ [r]\<rparr>)"
| responder_call:
    "n < length (ses_responders s) \<Longrightarrow> responder_step i (ses_responders s ! n) = (e, r) \<Longrightarrow>
     session_step hostile s
       (s\<lparr>ses_responders := (ses_responders s)[n := r],
          to_initiator := set_option (reply_of e) \<union> to_initiator s,
          ses_calls := (n, i) # ses_calls s\<rparr>)"
| inject_request:
    "hostile \<Longrightarrow> session_step hostile s (s\<lparr>to_responder := insert raw (to_responder s)\<rparr>)"
| inject_reply:
    "hostile \<Longrightarrow> session_step hostile s (s\<lparr>to_initiator := insert raw (to_initiator s)\<rparr>)"

inductive session_reachable :: "bool \<Rightarrow> PairingAttemptId \<Rightarrow> duration \<Rightarrow> session \<Rightarrow> bool"
  for hostile a d where
  start: "session_reachable hostile a d (session_start a d)"
| step: "session_reachable hostile a d s \<Longrightarrow> session_step hostile s t \<Longrightarrow> session_reachable hostile a d t"

text \<open>
  The user decision a reply stands for, and the invariant: every reply on the wire was
  produced by a responder attempt for this identifier, decided before its own deadline, and
  the initiator's verdict is one of the replies on the wire.
\<close>

definition decision_made :: "session \<Rightarrow> (duration \<Rightarrow> responder_input) \<Rightarrow> bool" where
  "decision_made s decide \<longleftrightarrow>
     (\<exists>n now. (n, decide now) \<in> set (ses_calls s) \<and> n < length (ses_responders s) \<and>
        now < resp_deadline (ses_responders s ! n) \<and>
        resp_attempt_id (ses_responders s ! n) = req_attempt_id (ses_initiator s))"

definition session_inv :: "PairingAttemptId \<Rightarrow> session \<Rightarrow> bool" where
  "session_inv a s \<longleftrightarrow>
     req_attempt_id (ses_initiator s) = a \<and>
     to_responder s \<subseteq> {PairingMessage_encode (Request a)} \<and>
     (\<forall>r\<in>set (ses_responders s). resp_attempt_id r = a) \<and>
     (\<forall>b\<in>to_initiator s. b = PairingMessage_encode (RequestAccepted a) \<and> decision_made s Accept \<or>
        (\<exists>reason. b = PairingMessage_encode (RequestRejected a reason) \<and> decision_made s (Reject reason))) \<and>
     (req_is_ready (ses_initiator s) \<longrightarrow> decision_made s Accept) \<and>
     (\<forall>reason. req_state (ses_initiator s) = PairingRequestState.Rejected reason \<longrightarrow>
        decision_made s (Reject reason))"

lemma decision_madeI:
  "(n, decide now) \<in> set (ses_calls s) \<Longrightarrow> n < length (ses_responders s) \<Longrightarrow>
     now < resp_deadline (ses_responders s ! n) \<Longrightarrow>
     resp_attempt_id (ses_responders s ! n) = req_attempt_id (ses_initiator s) \<Longrightarrow> decision_made s decide"
  by (auto simp: decision_made_def)

lemma decision_madeE:
  assumes "decision_made s decide"
  obtains n now where "(n, decide now) \<in> set (ses_calls s)" "n < length (ses_responders s)"
    "now < resp_deadline (ses_responders s ! n)"
    "resp_attempt_id (ses_responders s ! n) = req_attempt_id (ses_initiator s)"
  using assms by (auto simp: decision_made_def)

lemma decision_made_append:
  assumes "decision_made s decide"
  shows "decision_made (s\<lparr>ses_responders := ses_responders s @ rs\<rparr>) decide"
  using assms
proof (rule decision_madeE)
  fix n now
  assume "(n, decide now) \<in> set (ses_calls s)" "n < length (ses_responders s)"
    "now < resp_deadline (ses_responders s ! n)"
    "resp_attempt_id (ses_responders s ! n) = req_attempt_id (ses_initiator s)"
  then show ?thesis by (intro decision_madeI [of n decide now]) (simp_all add: nth_append)
qed

lemma decision_made_initiator:
  "req_attempt_id p = req_attempt_id (ses_initiator s) \<Longrightarrow>
     decision_made (s\<lparr>ses_initiator := p, to_responder := x\<rparr>) decide = decision_made s decide"
  "req_attempt_id p = req_attempt_id (ses_initiator s) \<Longrightarrow>
     decision_made (s\<lparr>ses_initiator := p\<rparr>) decide = decision_made s decide"
  by (simp_all add: decision_made_def)

lemma decision_made_call:
  assumes "decision_made s decide" "responder_step i (ses_responders s ! n) = (e, r)"
  shows "decision_made (s\<lparr>ses_responders := (ses_responders s)[n := r], to_initiator := x,
    ses_calls := c # ses_calls s\<rparr>) decide"
  using assms(1)
proof (rule decision_madeE)
  fix m now
  assume m: "(m, decide now) \<in> set (ses_calls s)" "m < length (ses_responders s)"
    "now < resp_deadline (ses_responders s ! m)"
    "resp_attempt_id (ses_responders s ! m) = req_attempt_id (ses_initiator s)"
  have "resp_deadline r = resp_deadline (ses_responders s ! n)"
      "resp_attempt_id r = resp_attempt_id (ses_responders s ! n)"
    using responder.fixed_deadline [of i "ses_responders s ! n"] resp_step_id [of i "ses_responders s ! n"]
      assms(2) by simp_all
  with m show ?thesis
    by (cases "m = n") (auto intro!: decision_madeI [of m decide now])
qed

lemma session_inv_start: "session_inv a (session_start a d)"
  by (simp add: session_inv_def session_start_def req_is_ready_def)

lemma session_inv_initiator_call:
  assumes "session_inv a s" "\<And>raw now. i \<noteq> HandleRemoteMessage raw now"
  shows "session_inv a (s\<lparr>ses_initiator := snd (initiator_step i (ses_initiator s))\<rparr>)"
proof -
  let ?p = "ses_initiator s" and ?p' = "snd (initiator_step i (ses_initiator s))"
  have "req_is_ready ?p' \<longrightarrow> req_is_ready ?p"
      "req_state ?p' = PairingRequestState.Rejected reason \<longrightarrow> req_state ?p = PairingRequestState.Rejected reason"
    for reason
    using req_step_to_verdict [of ?p i] initiator.absorbing [of ?p i] assms(2)
    by (atomize (full), cases "req_is_terminal ?p") (fastforce simp: req_is_ready_def)+
  with assms(1) show ?thesis
    by (simp add: session_inv_def decision_made_initiator req_step_id)
qed

lemma session_inv_deliver_reply:
  assumes "session_inv a s" "wf_attempt_id a" "raw \<in> to_initiator s"
  shows "session_inv a (s\<lparr>ses_initiator := snd (handle_remote_message raw now (ses_initiator s))\<rparr>)"
proof -
  let ?p = "ses_initiator s" and ?i = "HandleRemoteMessage raw now"
  let ?p' = "snd (initiator_step ?i ?p)"
  have dec: "PairingMessage_decode (PairingMessage_encode (RequestAccepted a)) = Ok (RequestAccepted a)"
      "PairingMessage_decode (PairingMessage_encode (RequestRejected a r)) = Ok (RequestRejected a r)" for r
    using assms(2) by (simp_all add: wf_message_def)
  have ready: "req_is_ready ?p' \<longrightarrow> decision_made s Accept"
    using assms(1,3) req_step_to_verdict(1) [of ?p ?i] initiator.absorbing [of ?p ?i] dec
    by (cases "req_is_terminal ?p") (fastforce simp: session_inv_def req_is_ready_def)+
  have rejected: "req_state ?p' = PairingRequestState.Rejected reason \<longrightarrow> decision_made s (Reject reason)"
    for reason
    using assms(1,3) req_step_to_verdict(2) [of ?p ?i reason] initiator.absorbing [of ?p ?i] dec
    by (cases "req_is_terminal ?p") (fastforce simp: session_inv_def)+
  have "?p' = snd (handle_remote_message raw now ?p)" by simp
  with ready rejected assms(1) show ?thesis
    unfolding session_inv_def using req_step_id [of ?i ?p] by (simp add: decision_made_initiator)
qed

lemma session_inv_responder_call:
  assumes "session_inv a s" "n < length (ses_responders s)"
    and step: "responder_step i (ses_responders s ! n) = (e, r)"
  shows "session_inv a (s\<lparr>ses_responders := (ses_responders s)[n := r],
    to_initiator := set_option (reply_of e) \<union> to_initiator s, ses_calls := (n, i) # ses_calls s\<rparr>)"
    (is "session_inv a ?t")
proof -
  let ?r = "ses_responders s ! n"
  have ids: "resp_attempt_id ?r = a" "resp_attempt_id r = a" "resp_deadline r = resp_deadline ?r"
    using assms responder.fixed_deadline [of i ?r] resp_step_id [of i ?r]
    by (auto simp: session_inv_def)
  have old: "decision_made s decide \<Longrightarrow> decision_made ?t decide" for decide
    using step by (rule decision_made_call [rotated])
  have new: "decision_made ?t decide" if "i = decide now" "now < resp_deadline ?r" for decide now
    using that assms(1,2) ids by (intro decision_madeI [of n decide now]) (simp_all add: session_inv_def)
  let ?ok = "\<lambda>s b. b = PairingMessage_encode (RequestAccepted a) \<and> decision_made s Accept \<or>
      (\<exists>reason. b = PairingMessage_encode (RequestRejected a reason) \<and> decision_made s (Reject reason))"
  have "?ok ?t b" if "b \<in> set_option (reply_of e)" for b
    using resp_step_reply(2) [of i ?r b] that step new ids by auto
  moreover have "?ok ?t b" if "b \<in> to_initiator s" for b
  proof -
    have "?ok s b" using assms(1) that by (simp add: session_inv_def)
    then show ?thesis using old by blast
  qed
  moreover have "\<forall>q\<in>set ((ses_responders s)[n := r]). resp_attempt_id q = a"
    using assms(1) ids set_update_subset_insert [of "ses_responders s" n r]
    by (fastforce simp: session_inv_def)
  moreover have "req_is_ready (ses_initiator s) \<longrightarrow> decision_made ?t Accept"
    using assms(1) old by (simp add: session_inv_def)
  moreover have "req_state (ses_initiator s) = PairingRequestState.Rejected reason \<longrightarrow>
      decision_made ?t (Reject reason)" for reason
    using assms(1) old by (simp add: session_inv_def)
  ultimately show ?thesis
    using assms(1) unfolding session_inv_def by auto
qed

lemma session_inv_step:
  assumes "session_step False s t" "session_inv a s" "wf_attempt_id a"
  shows "session_inv a t"
  using assms(1)
proof cases
  case (send_request now bytes p)
  then have "p = ses_initiator s" "bytes = PairingMessage_encode (Request (req_attempt_id (ses_initiator s)))"
    by (auto simp: request_message_def req_short_circuit_def PairingMessage_request_def
        split: PairingRequestState.splits if_splits)
  with send_request assms(2) show ?thesis
    by (auto simp: session_inv_def decision_made_def)
next
  case (initiator_call i)
  then show ?thesis using session_inv_initiator_call assms(2) by simp
next
  case (deliver_reply raw now)
  then show ?thesis using session_inv_deliver_reply assms(2,3) by simp
next
  case (deliver_request raw d r)
  then have "raw = PairingMessage_encode (Request a)" using assms(2) by (auto simp: session_inv_def)
  then have "resp_attempt_id r = a"
    using deliver_request(3) decode_encode [of "Request a"] assms(3)
    by (auto simp: from_request_def wf_message_def)
  with deliver_request assms(2) show ?thesis
    using decision_made_append [of s] by (simp add: session_inv_def, blast)
next
  case (responder_call n i e r)
  then show ?thesis using session_inv_responder_call assms(2) by simp
qed simp_all

lemma session_reachable_inv:
  "session_reachable False a d s \<Longrightarrow> wf_attempt_id a \<Longrightarrow> session_inv a s"
  by (induction rule: session_reachable.induct) (auto intro: session_inv_start session_inv_step)

end
