(* ===== verification/Pairing_Properties.thy ===== *)
theory Pairing_Properties
  imports Pairing_Session
begin

text \<open>
  What makes \<^verbatim>\<open>pairing.rs\<close> correct, stated over the wire codec, the two attempt
  machines and the sessions of the preceding theories. Each property is followed by a concrete
  instance where it has hypotheses.
\<close>

lemmas sample_simps = with_attempt_id_def req_op_defs req_is_terminal_def resp_op_defs
  resp_is_terminal_def PairingMessage_request_def PairingMessage_accepted_def PairingMessage_rejected_def

section \<open>The wire codec\<close>

text \<open>C6. The decoder accepts exactly the encodings of well-formed messages (sixteen
  identifier bytes), and returns the message that was encoded: nothing else on the wire is a
  message, and no two byte strings stand for the same one.\<close>

theorem pairing_wire_exact:
  "PairingMessage_decode bs = Ok m \<longleftrightarrow> wf_message m \<and> bs = PairingMessage_encode m"
  by (rule decode_iff)

text \<open>C38. Rejected bytes are reported by the first check that fails: the overall length, then
  the version, then the kind, then the length the kind requires, then the reason; each error
  carries the offending value.\<close>

theorem pairing_decode_errors:
  "PairingMessage_decode bs = Err e \<longleftrightarrow>
     (if length bs \<notin> {18, 19} then e = InvalidLength (length bs)
      else if bs ! 0 \<noteq> 1 then e = UnsupportedVersion (bs ! 0)
      else if bs ! 1 \<notin> {1, 2, 3} then e = UnknownMessageKind (bs ! 1)
      else if (bs ! 1 = 3) \<noteq> (length bs = 19) then e = LengthKindMismatch (bs ! 1) (length bs)
      else bs ! 1 = 3 \<and> bs ! 18 \<notin> {0, 1, 2} \<and> e = UnknownRejectionReason (bs ! 18))"
proof -
  have len: "length bs < 18 \<or> 19 < length bs \<longleftrightarrow> length bs \<notin> {18, 19}" by auto
  show ?thesis
    unfolding PairingMessage_decode_def wire_constants len
    by (auto simp: Let_def exact_len_def from_wire_def wire_constants ok_or_def)
qed

section \<open>The initiator\<close>

text \<open>A resolved initiator attempt stays as it is: no later sequence of calls changes it,
  and every call answers that the attempt is already resolved (or has no message to send).\<close>

theorem initiator_terminal_absorbing:
  assumes "req_is_terminal p"
  shows "run initiator_step is p = p \<and> (\<forall>out\<in>set (outputs initiator_step is p). req_inert out)"
  using initiator.run_absorbing [OF assms] initiator.outputs_absorbing [OF assms] by simp

theorem initiator_terminal_absorbing_witness:
  "run initiator_step [MarkRequestSent 3, initiator_input.CheckDeadline 9]
     ((with_attempt_id (PairingAttemptId (replicate 16 7)) 5)\<lparr>req_state := PairingRequestState.Cancelled\<rparr>)
   = (with_attempt_id (PairingAttemptId (replicate 16 7)) 5)\<lparr>req_state := PairingRequestState.Cancelled\<rparr>"
  by (rule conjunct1 [OF initiator_terminal_absorbing]) (simp add: req_is_terminal_def)

text \<open>C39. The deadline is enforced by every timed operation: an attempt that is still pending
  after a sequence of calls saw each of its clock readings strictly before the deadline it
  started with.\<close>

theorem initiator_deadline_enforced:
  assumes "\<not> req_is_terminal (run initiator_step is p)" "i \<in> set is" "initiator_clock i = Some t"
  shows "t < req_deadline p"
  by (rule initiator.pending_calls_in_time [OF assms])

theorem initiator_deadline_enforced_witness:
  "(4 :: duration) < req_deadline (with_attempt_id (PairingAttemptId (replicate 16 7)) 5)"
  by (rule initiator_deadline_enforced [of "[MarkRequestSent 4]" _ "MarkRequestSent 4"])
    (simp_all add: sample_simps)

text \<open>C40. Every event the initiator reports is a transition of the documented state graph: a
  call either leaves the attempt as it was and reports \<open>Pending\<close> or \<open>Ignored\<close>, or
  moves it along the edge that the event names.\<close>

theorem initiator_events_follow_graph:
  assumes "fst (initiator_step i p) = Event e"
  shows "(e = PairingRequestEvent.Pending \<or> (\<exists>r. e = PairingRequestEvent.Ignored r)) \<and> snd (initiator_step i p) = p \<or>
    (\<exists>st. initiator_edge (req_state p) e st \<and> snd (initiator_step i p) = p\<lparr>req_state := st\<rparr>)"
  by (rule req_step_event [OF assms])

theorem initiator_events_follow_graph_witness:
  "\<exists>st. initiator_edge RequestCreated AwaitingResponse st"
  using initiator_events_follow_graph
    [of "MarkRequestSent 2" "with_attempt_id (PairingAttemptId (replicate 16 7)) 5" AwaitingResponse]
  by (auto simp: sample_simps)

text \<open>C17. An initiator verdict has a cause: if an attempt for \<open>a\<close> with deadline \<open>d\<close> ends
  accepted (or rejected for a reason), then the request was marked sent before the deadline and
  afterwards, again before the deadline, exactly the encoding of the matching reply for
  \<open>a\<close> was delivered, with no cancellation or transport failure in between.\<close>

theorem initiator_verdict_has_cause:
  assumes "req_state (run initiator_step is (with_attempt_id a d)) = st"
    and "(st = PairingRequestState.ReadyForNextPairingStage \<and> m = RequestAccepted a) \<or>
      (\<exists>r. st = PairingRequestState.Rejected r \<and> m = RequestRejected a r)"
  shows "\<exists>pre sent mid received post.
    is = pre @ MarkRequestSent sent # mid @ HandleRemoteMessage (PairingMessage_encode m) received # post \<and>
    sent < d \<and> received < d \<and> initiator_input.Cancel \<notin> set (pre @ mid) \<and> initiator_input.NoteTransportFailure \<notin> set (pre @ mid)"
  by (rule req_verdict_provenance [OF assms])

theorem initiator_verdict_has_cause_witness:
  "\<exists>pre sent mid received post.
    [MarkRequestSent 1, HandleRemoteMessage
       (PairingMessage_encode (RequestAccepted (PairingAttemptId (replicate 16 7)))) 2] =
      pre @ MarkRequestSent sent # mid @ HandleRemoteMessage
        (PairingMessage_encode (RequestAccepted (PairingAttemptId (replicate 16 7)))) received # post \<and>
    sent < 5 \<and> received < 5 \<and> initiator_input.Cancel \<notin> set (pre @ mid) \<and> initiator_input.NoteTransportFailure \<notin> set (pre @ mid)"
  by (rule initiator_verdict_has_cause [OF refl])
    (simp add: sample_simps wf_message_def wf_attempt_id_def ATTEMPT_ID_LEN_def)

section \<open>The responder\<close>

text \<open>A responder attempt starts only from the encoding of a request, carries that request's
  identifier and the given deadline, and starts undecided.\<close>

theorem responder_starts_from_request:
  "from_request request d = Ok p \<longleftrightarrow>
     (\<exists>a. wf_attempt_id a \<and> request = PairingMessage_encode (Request a) \<and>
       p = \<lparr>resp_attempt_id = a, resp_deadline = d, resp_state = AwaitingDecision\<rparr>)"
  by (rule from_request_Ok)

text \<open>C18. A responder never becomes ready without consent: if an undecided attempt ends ready
  for the next stage, the calls contain an acceptance and after it the confirmation that the
  reply was sent, both before the deadline.\<close>

theorem responder_ready_needs_acceptance:
  assumes "resp_state p = AwaitingDecision"
    and "resp_state (run responder_step is p) = PairingResponseState.ReadyForNextPairingStage"
  shows "\<exists>pre accepted mid sent post.
    is = pre @ Accept accepted # mid @ MarkReplySent sent # post \<and>
    accepted < resp_deadline p \<and> sent < resp_deadline p"
proof -
  have "\<not> resp_is_terminal p" "resp_is_terminal (run responder_step is p)"
    using assms by (simp_all add: resp_terminal_cases)
  then obtain pre i post where split: "is = pre @ i # post" "\<not> resp_is_terminal (run responder_step pre p)"
      "run responder_step is p = snd (responder_step i (run responder_step pre p))"
    using responder.deciding_input [of p "is"] by blast
  then obtain sent where awaiting: "resp_state (run responder_step pre p) = AcceptedAwaitingSend"
      and i: "i = MarkReplySent sent" "sent < resp_deadline p"
    using resp_step_to(2) [of "run responder_step pre p" i] assms(2) responder.run_deadline [of pre p] by auto
  from resp_accepted_provenance [OF awaiting assms(1)] obtain before accepted mid where
      "pre = before @ Accept accepted # mid" "accepted < resp_deadline p" by blast
  with split i show ?thesis by (intro exI [of _ before] exI [of _ accepted] exI [of _ mid] exI [of _ sent]
      exI [of _ post]) auto
qed

theorem responder_ready_needs_acceptance_witness:
  "\<exists>pre accepted mid sent post.
    [Accept 1, CheckDeadline 2, MarkReplySent 3] = pre @ Accept accepted # mid @ MarkReplySent sent # post \<and>
    accepted < 5 \<and> sent < 5"
  using responder_ready_needs_acceptance
    [of "\<lparr>resp_attempt_id = PairingAttemptId (replicate 16 7), resp_deadline = 5, resp_state = AwaitingDecision\<rparr>"
        "[Accept 1, CheckDeadline 2, MarkReplySent 3]"]
  by (simp add: sample_simps)

text \<open>A responder attempt produces at most one reply in its life, whatever is called and in
  whatever order, and that reply echoes the attempt's own identifier.\<close>

theorem responder_replies_once:
  "length (filter (\<lambda>e. reply_of e \<noteq> None) (outputs responder_step is p)) \<le> 1 \<and>
   List.map_filter reply_of (outputs responder_step is p) \<in>
     {[]} \<union> {[PairingMessage_encode (RequestAccepted (resp_attempt_id p))]} \<union>
     (\<lambda>r. [PairingMessage_encode (RequestRejected (resp_attempt_id p) r)]) ` UNIV"
proof (induction "is" arbitrary: p)
  case Nil
  then show ?case by (simp add: List.map_filter_def)
next
  case (Cons i js)
  let ?e = "fst (responder_step i p)" and ?p = "snd (responder_step i p)"
  show ?case
  proof (cases "reply_of ?e")
    case None
    then show ?thesis using Cons.IH [of ?p] by (simp add: List.map_filter_def resp_step_id)
  next
    case (Some reply)
    from resp_decided_silent [OF resp_step_reply(1) [OF Some]]
    have "filter (\<lambda>e. reply_of e \<noteq> None) (outputs responder_step js ?p) = []"
      by (simp add: filter_empty_conv)
    then show ?thesis using Some resp_step_reply(2) [OF Some] by (auto simp: List.map_filter_def)
  qed
qed

section \<open>Sessions\<close>

text \<open>C1. Agreement over a lossy, duplicating and reordering network that forges nothing: in
  every reachable session the initiator is accepted only if some responder attempt for its
  identifier was accepted by its user before that attempt's deadline, and likewise for each
  rejection reason.\<close>

theorem pairing_session_agreement:
  assumes "session_reachable False a d s" "wf_attempt_id a"
  shows "req_attempt_id (ses_initiator s) = a \<and>
    (req_is_ready (ses_initiator s) \<longrightarrow> decision_made s Accept) \<and>
    (\<forall>reason. req_state (ses_initiator s) = PairingRequestState.Rejected reason \<longrightarrow>
       decision_made s (Reject reason))"
  using session_reachable_inv [OF assms] by (simp add: session_inv_def)

theorem pairing_session_agreement_witness:
  "\<exists>s. session_reachable False (PairingAttemptId (replicate 16 7)) 5 s \<and>
     req_is_ready (ses_initiator s) \<and> decision_made s Accept"
proof -
  let ?a = "PairingAttemptId (replicate 16 7)"
  let ?request = "PairingMessage_encode (Request ?a)" and ?reply = "PairingMessage_encode (RequestAccepted ?a)"
  let ?r = "\<lparr>resp_attempt_id = ?a, resp_deadline = 6, resp_state = AwaitingDecision\<rparr>"
  let ?s0 = "session_start ?a 5"
  let ?s1 = "?s0\<lparr>ses_initiator := ses_initiator ?s0, to_responder := insert ?request (to_responder ?s0)\<rparr>"
  let ?s2 = "?s1\<lparr>ses_initiator := snd (initiator_step (MarkRequestSent 1) (ses_initiator ?s1))\<rparr>"
  let ?s3 = "?s2\<lparr>ses_responders := ses_responders ?s2 @ [?r]\<rparr>"
  let ?s4 = "?s3\<lparr>ses_responders := (ses_responders ?s3)[0 := snd (accept 2 ?r)],
    to_initiator := set_option (reply_of (fst (accept 2 ?r))) \<union> to_initiator ?s3,
    ses_calls := (0, Accept 2) # ses_calls ?s3\<rparr>"
  let ?s5 = "?s4\<lparr>ses_initiator := snd (handle_remote_message ?reply 3 (ses_initiator ?s4))\<rparr>"
  have wf: "wf_attempt_id ?a" by (simp add: wf_attempt_id_def ATTEMPT_ID_LEN_def)
  have "session_reachable False ?a 5 ?s1"
    by (rule session_reachable.step [OF session_reachable.start], rule session_step.send_request [of 1])
      (simp add: session_start_def sample_simps)
  then have "session_reachable False ?a 5 ?s2"
    by (rule session_reachable.step) (rule session_step.initiator_call, simp)
  then have "session_reachable False ?a 5 ?s3"
    by (rule session_reachable.step)
      (rule session_step.deliver_request [of ?request _ 6], auto simp: from_request_Ok wf)
  then have "session_reachable False ?a 5 ?s4"
    by (rule session_reachable.step)
      (rule session_step.responder_call, auto simp: session_start_def)
  then have reachable: "session_reachable False ?a 5 ?s5"
    by (rule session_reachable.step)
      (rule session_step.deliver_reply, auto simp: sample_simps reply_of_def)
  have "req_is_ready (ses_initiator ?s5)"
    using wf by (simp add: session_start_def sample_simps req_is_ready_def wf_message_def)
  with reachable pairing_session_agreement [OF reachable wf] show ?thesis by blast
qed

text \<open>The stage authenticates nobody, as its documentation says: with an attacker who can
  inject bytes, a session in which no responder attempt ever existed can leave the initiator
  ready for the next stage.\<close>

theorem pairing_is_not_authentication:
  "\<exists>s. session_reachable True (PairingAttemptId (replicate 16 7)) 5 s \<and>
     ses_responders s = [] \<and> req_is_ready (ses_initiator s)"
proof -
  let ?a = "PairingAttemptId (replicate 16 7)"
  let ?reply = "PairingMessage_encode (RequestAccepted ?a)"
  let ?s0 = "session_start ?a 5"
  let ?s1 = "?s0\<lparr>ses_initiator := snd (initiator_step (MarkRequestSent 1) (ses_initiator ?s0))\<rparr>"
  let ?s2 = "?s1\<lparr>to_initiator := insert ?reply (to_initiator ?s1)\<rparr>"
  let ?s3 = "?s2\<lparr>ses_initiator := snd (handle_remote_message ?reply 2 (ses_initiator ?s2))\<rparr>"
  have "session_reachable True ?a 5 ?s1"
    by (rule session_reachable.step [OF session_reachable.start]) (rule session_step.initiator_call, simp)
  then have "session_reachable True ?a 5 ?s2"
    by (rule session_reachable.step) (rule session_step.inject_reply, simp)
  then have "session_reachable True ?a 5 ?s3"
    by (rule session_reachable.step) (rule session_step.deliver_reply, simp)
  moreover have "ses_responders ?s3 = [] \<and> req_is_ready (ses_initiator ?s3)"
    by (simp add: session_start_def sample_simps req_is_ready_def wf_message_def wf_attempt_id_def
        ATTEMPT_ID_LEN_def)
  ultimately show ?thesis by blast
qed

end
