(* ===== verification/Device_Name.thy ===== *)
theory Device_Name
  imports Text_Label
begin

text \<open>
  The mutable local display name
  (\<^verbatim>\<open>crates/local-transfer-core/src/device_name.rs\<close>): its validation and error
  texts. The store that persists it is in \<^verbatim>\<open>Device_Name_Store\<close>.
\<close>

definition DEFAULT_DEVICE_NAME :: rstr where
  "DEFAULT_DEVICE_NAME = ascii ''Local Device''"

definition MAX_DEVICE_NAME_CHARS :: nat where
  "MAX_DEVICE_NAME_CHARS = 64"

datatype DeviceName = DeviceName (DeviceName_as_str: rstr)

datatype DeviceNameValidationError = Empty | TooLong nat | ControlCharacter

definition DeviceName_new :: "rstr \<Rightarrow> DeviceNameValidationError + DeviceName" where
  "DeviceName_new v =
     (if has_control v then Err ControlCharacter
      else let normalized = trim v in
        if normalized = [] then Err Empty
        else if length normalized > MAX_DEVICE_NAME_CHARS then Err (TooLong MAX_DEVICE_NAME_CHARS)
        else Ok (DeviceName normalized))"

definition DeviceName_default :: DeviceName where
  "DeviceName_default = DeviceName DEFAULT_DEVICE_NAME"

definition display_DeviceName :: "DeviceName \<Rightarrow> rstr" where
  "display_DeviceName n = DeviceName_as_str n"

fun display_DeviceNameValidationError :: "DeviceNameValidationError \<Rightarrow> rstr" where
  "display_DeviceNameValidationError Empty = ascii ''device display name must not be empty''"
| "display_DeviceNameValidationError (TooLong maximum) =
     ascii ''device display name must not exceed '' @ show_nat maximum @ ascii '' Unicode characters''"
| "display_DeviceNameValidationError ControlCharacter =
     ascii ''device display name must not contain control characters''"

interpretation device_name: text_label DeviceName_new DeviceName_as_str MAX_DEVICE_NAME_CHARS
proof unfold_locales
  fix v n
  show "DeviceName_new v = Ok n \<longleftrightarrow> \<not> has_control v \<and> trim v \<noteq> [] \<and>
      length (trim v) \<le> MAX_DEVICE_NAME_CHARS \<and> DeviceName_as_str n = trim v"
    by (cases n) (auto simp: DeviceName_new_def Let_def)
qed

lemma DeviceName_default_valid:
  "DeviceName_new (DeviceName_as_str DeviceName_default) = Ok DeviceName_default"
  by (simp add: DeviceName_new_def DeviceName_default_def DEFAULT_DEVICE_NAME_def text_simps
      has_control_def trim_def MAX_DEVICE_NAME_CHARS_def)

text \<open>Every value a caller can hold: one that validation produced.\<close>

definition wf_device_name :: "DeviceName \<Rightarrow> bool" where
  "wf_device_name n \<longleftrightarrow> DeviceName_new (DeviceName_as_str n) = Ok n \<and> valid_str (DeviceName_as_str n)"

lemma wf_device_nameI: "DeviceName_new v = Ok n \<Longrightarrow> valid_str v \<Longrightarrow> wf_device_name n"
  by (metis device_name.validate_idem device_name.accepted_text(1) valid_str_trim wf_device_name_def)

lemma wf_device_name_default [simp]: "wf_device_name DeviceName_default"
  unfolding wf_device_name_def using DeviceName_default_valid
  by (simp add: DeviceName_default_def DEFAULT_DEVICE_NAME_def text_simps valid_str_def)

end
