(* ===== verification/Local_Platform.thy ===== *)
theory Local_Platform
  imports Rust_Text
begin

text \<open>
  The bounded operating-system metadata
  (\<^verbatim>\<open>crates/local-transfer-core/src/platform.rs\<close>).
  \<^verbatim>\<open>std::env::consts::OS\<close> is an argument of \<open>Platform_current\<close>.
\<close>

datatype Platform = MacOs | Windows | Linux

datatype UnsupportedPlatformError = UnsupportedPlatformError (target_os: rstr)

fun Platform_as_str :: "Platform \<Rightarrow> rstr" where
  "Platform_as_str MacOs = ascii ''macos''"
| "Platform_as_str Windows = ascii ''windows''"
| "Platform_as_str Linux = ascii ''linux''"

definition from_target_os :: "rstr \<Rightarrow> UnsupportedPlatformError + Platform" where
  "from_target_os os =
     (if os = ascii ''macos'' then Ok MacOs
      else if os = ascii ''windows'' then Ok Windows
      else if os = ascii ''linux'' then Ok Linux
      else Err (UnsupportedPlatformError os))"

definition Platform_current :: "rstr \<Rightarrow> UnsupportedPlatformError + Platform" where
  "Platform_current consts_OS = from_target_os consts_OS"

definition display_Platform :: "Platform \<Rightarrow> rstr" where
  "display_Platform p = Platform_as_str p"

definition display_UnsupportedPlatformError :: "UnsupportedPlatformError \<Rightarrow> rstr" where
  "display_UnsupportedPlatformError e =
     ascii ''unsupported operating-system target: '' @ target_os e"

lemma from_target_os_as_str: "from_target_os (Platform_as_str p) = Ok p"
  by (cases p) (simp_all add: from_target_os_def text_simps)

lemma from_target_os_Ok: "from_target_os os = Ok p \<longleftrightarrow> os = Platform_as_str p"
  by (cases p) (auto simp: from_target_os_def text_simps)

end
