(* ===== verification/Discovery.thy ===== *)
theory Discovery
  imports Device_Name Local_Platform Codec "HOL-Library.Multiset"
begin

text \<open>
  The bounded, unauthenticated DNS-SD metadata
  (\<^verbatim>\<open>crates/local-transfer-core/src/discovery.rs\<close>): protocol ranges, name and
  platform hints, TXT entries, and the schema encoder and decoder.
\<close>

section \<open>Constants\<close>

definition DISCOVERY_SERVICE_TYPE :: rstr where
  "DISCOVERY_SERVICE_TYPE = ascii ''_local-transfer._tcp''"

definition DISCOVERY_SCHEMA_VERSION :: u16 where
  "DISCOVERY_SCHEMA_VERSION = 1"

definition INITIAL_PROTOCOL_MAJOR :: u16 where
  "INITIAL_PROTOCOL_MAJOR = 1"

definition MAX_DISCOVERY_NAME_BYTES :: nat where
  "MAX_DISCOVERY_NAME_BYTES = 96"

definition MAX_DISCOVERY_TXT_BYTES :: nat where
  "MAX_DISCOVERY_TXT_BYTES = 512"

definition MAX_DISCOVERY_TXT_ENTRY_BYTES :: nat where
  "MAX_DISCOVERY_TXT_ENTRY_BYTES = 255"

definition KEY_DISCOVERY_VERSION :: rstr where
  "KEY_DISCOVERY_VERSION = ascii ''dv''"

definition KEY_PROTOCOL_MIN :: rstr where
  "KEY_PROTOCOL_MIN = ascii ''pmin''"

definition KEY_PROTOCOL_MAX :: rstr where
  "KEY_PROTOCOL_MAX = ascii ''pmax''"

definition KEY_NAME :: rstr where
  "KEY_NAME = ascii ''name''"

definition KEY_PLATFORM :: rstr where
  "KEY_PLATFORM = ascii ''os''"

lemmas key_defs = KEY_DISCOVERY_VERSION_def KEY_PROTOCOL_MIN_def KEY_PROTOCOL_MAX_def
  KEY_NAME_def KEY_PLATFORM_def

lemmas discovery_bounds = MAX_DISCOVERY_NAME_BYTES_def MAX_DISCOVERY_TXT_BYTES_def
  MAX_DISCOVERY_TXT_ENTRY_BYTES_def

section \<open>Protocol ranges\<close>

record DiscoveryProtocolRange =
  range_min :: u16
  range_max :: u16

datatype DiscoveryProtocolRangeError = DiscoveryProtocolRangeError u16 u16

definition DiscoveryProtocolRange_new ::
  "u16 \<Rightarrow> u16 \<Rightarrow> DiscoveryProtocolRangeError + DiscoveryProtocolRange" where
  "DiscoveryProtocolRange_new mn mx =
     (if mn > mx then Err (DiscoveryProtocolRangeError mn mx)
      else Ok \<lparr>range_min = mn, range_max = mx\<rparr>)"

definition DiscoveryProtocolRange_initial :: DiscoveryProtocolRange where
  "DiscoveryProtocolRange_initial =
     \<lparr>range_min = INITIAL_PROTOCOL_MAJOR, range_max = INITIAL_PROTOCOL_MAJOR\<rparr>"

definition highest_compatible_version ::
  "DiscoveryProtocolRange \<Rightarrow> DiscoveryProtocolRange \<Rightarrow> u16 option" where
  "highest_compatible_version self other =
     (let minimum = max (range_min self) (range_min other);
          maximum = min (range_max self) (range_max other)
      in if minimum \<le> maximum then Some maximum else None)"

definition is_compatible_with :: "DiscoveryProtocolRange \<Rightarrow> DiscoveryProtocolRange \<Rightarrow> bool" where
  "is_compatible_with self other \<longleftrightarrow> highest_compatible_version self other \<noteq> None"

fun display_DiscoveryProtocolRangeError :: "DiscoveryProtocolRangeError \<Rightarrow> rstr" where
  "display_DiscoveryProtocolRangeError (DiscoveryProtocolRangeError mn mx) =
     ascii ''minimum protocol major '' @ show_u16 mn @ ascii '' exceeds maximum '' @ show_u16 mx"

section \<open>Name hints\<close>

datatype DiscoveryNameHint = DiscoveryNameHint (DiscoveryNameHint_as_str: rstr)

datatype DiscoveryNameHintError = Empty | ControlCharacter | TooLong nat nat

definition DiscoveryNameHint_new :: "rstr \<Rightarrow> DiscoveryNameHintError + DiscoveryNameHint" where
  "DiscoveryNameHint_new v =
     (if str_len v > MAX_DISCOVERY_NAME_BYTES
      then Err (DiscoveryNameHintError.TooLong (str_len v) MAX_DISCOVERY_NAME_BYTES)
      else if trim v = [] then Err DiscoveryNameHintError.Empty
      else if has_control v then Err DiscoveryNameHintError.ControlCharacter
      else Ok (DiscoveryNameHint v))"

text \<open>
  \<^verbatim>\<open>while !value.is_char_boundary(end) { end -= 1; }\<close>: index 0 is always a boundary, so
  the loop stops there at the latest.
\<close>

fun back_to_boundary :: "rstr \<Rightarrow> nat \<Rightarrow> nat" where
  "back_to_boundary v 0 = 0"
| "back_to_boundary v (Suc e) = (if is_char_boundary v (Suc e) then Suc e else back_to_boundary v e)"

text \<open>\<open>None\<close> would be the panic of the slice \<^verbatim>\<open>value[..end]\<close> off a boundary.\<close>

definition from_device_name :: "DeviceName \<Rightarrow> DiscoveryNameHint option" where
  "from_device_name name =
     (let value = DeviceName_as_str name;
          end = back_to_boundary value (min (str_len value) MAX_DISCOVERY_NAME_BYTES)
      in map_option (\<lambda>(head, _). DiscoveryNameHint head) (split_at_byte value end))"

fun display_DiscoveryNameHintError :: "DiscoveryNameHintError \<Rightarrow> rstr" where
  "display_DiscoveryNameHintError DiscoveryNameHintError.Empty =
     ascii ''discovery name hint must not be empty''"
| "display_DiscoveryNameHintError DiscoveryNameHintError.ControlCharacter =
     ascii ''discovery name hint must not contain control characters''"
| "display_DiscoveryNameHintError (DiscoveryNameHintError.TooLong actual maximum) =
     ascii ''discovery name hint is '' @ show_nat actual @ ascii '' UTF-8 bytes; maximum is ''
     @ show_nat maximum"

section \<open>Platform hints\<close>

datatype DiscoveryPlatformHint = MacOs | Windows | Linux

fun DiscoveryPlatformHint_as_str :: "DiscoveryPlatformHint \<Rightarrow> rstr" where
  "DiscoveryPlatformHint_as_str DiscoveryPlatformHint.MacOs = ascii ''macos''"
| "DiscoveryPlatformHint_as_str DiscoveryPlatformHint.Windows = ascii ''windows''"
| "DiscoveryPlatformHint_as_str DiscoveryPlatformHint.Linux = ascii ''linux''"

definition DiscoveryPlatformHint_parse :: "u8 list \<Rightarrow> DiscoveryPlatformHint option" where
  "DiscoveryPlatformHint_parse value =
     (if value = utf8_encode (ascii ''macos'') then Some DiscoveryPlatformHint.MacOs
      else if value = utf8_encode (ascii ''windows'') then Some DiscoveryPlatformHint.Windows
      else if value = utf8_encode (ascii ''linux'') then Some DiscoveryPlatformHint.Linux
      else None)"

fun platform_hint :: "Platform \<Rightarrow> DiscoveryPlatformHint" where
  "platform_hint Platform.MacOs = DiscoveryPlatformHint.MacOs"
| "platform_hint Platform.Windows = DiscoveryPlatformHint.Windows"
| "platform_hint Platform.Linux = DiscoveryPlatformHint.Linux"

section \<open>TXT entries and metadata\<close>

datatype DiscoveryMetadataError =
    InvalidTxtKey
  | TxtEntryTooLarge nat nat
  | TotalMetadataTooLarge nat nat
  | MissingField rstr
  | DuplicateKnownKey rstr
  | MalformedField rstr
  | UnsupportedSchemaVersion u16
  | InvalidProtocolRange DiscoveryProtocolRangeError

record DiscoveryTxtEntry =
  txt_key :: rstr
  txt_value :: "u8 list"

definition DiscoveryTxtEntry_new :: "rstr \<Rightarrow> u8 list \<Rightarrow> DiscoveryMetadataError + DiscoveryTxtEntry" where
  "DiscoveryTxtEntry_new key value =
     (if key = [] \<or> \<not> list_all (\<lambda>b. 32 \<le> b \<and> b \<le> 126 \<and> b \<noteq> 61) (utf8_encode key)
      then Err InvalidTxtKey
      else let size = str_len key + 1 + length value in
        if size > MAX_DISCOVERY_TXT_ENTRY_BYTES
        then Err (TxtEntryTooLarge size MAX_DISCOVERY_TXT_ENTRY_BYTES)
        else Ok \<lparr>txt_key = key, txt_value = value\<rparr>)"

definition encoded_size :: "DiscoveryTxtEntry \<Rightarrow> nat" where
  "encoded_size e = 1 + str_len (txt_key e) + 1 + length (txt_value e)"

definition emitted :: "rstr \<Rightarrow> u8 list \<Rightarrow> DiscoveryTxtEntry" where
  "emitted key value = \<lparr>txt_key = key, txt_value = value\<rparr>"

record DiscoveryMetadata =
  md_protocols :: DiscoveryProtocolRange
  md_name :: "DiscoveryNameHint option"
  md_platform :: "DiscoveryPlatformHint option"

definition DiscoveryMetadata_new ::
  "DiscoveryProtocolRange \<Rightarrow> DiscoveryNameHint option \<Rightarrow> DiscoveryPlatformHint option \<Rightarrow> DiscoveryMetadata" where
  "DiscoveryMetadata_new protocols name platform =
     \<lparr>md_protocols = protocols, md_name = name, md_platform = platform\<rparr>"

definition to_txt_entries :: "DiscoveryMetadata \<Rightarrow> DiscoveryTxtEntry list" where
  "to_txt_entries md =
     [emitted KEY_DISCOVERY_VERSION (utf8_encode (show_u16 DISCOVERY_SCHEMA_VERSION)),
      emitted KEY_PROTOCOL_MIN (utf8_encode (show_u16 (range_min (md_protocols md)))),
      emitted KEY_PROTOCOL_MAX (utf8_encode (show_u16 (range_max (md_protocols md))))]
     @ (case md_name md of
          None \<Rightarrow> []
        | Some name \<Rightarrow> [emitted KEY_NAME (utf8_encode (DiscoveryNameHint_as_str name))])
     @ (case md_platform md of
          None \<Rightarrow> []
        | Some p \<Rightarrow> [emitted KEY_PLATFORM (utf8_encode (DiscoveryPlatformHint_as_str p))])"

text \<open>The source saturates the sums at \<^verbatim>\<open>usize::MAX\<close>, which the sizes of entries held in one
  address space do not reach.\<close>

definition total_encoded_size :: "DiscoveryTxtEntry list \<Rightarrow> nat" where
  "total_encoded_size entries = foldl (\<lambda>total e. total + encoded_size e) 0 entries"

text \<open>The five mutable slots of \<^verbatim>\<open>from_txt_entries\<close>.\<close>

record txt_slots =
  slot_version :: "u8 list option"
  slot_min :: "u8 list option"
  slot_max :: "u8 list option"
  slot_name :: "u8 list option"
  slot_platform :: "u8 list option"

definition set_once ::
  "u8 list option \<Rightarrow> u8 list \<Rightarrow> rstr \<Rightarrow> DiscoveryMetadataError + u8 list option" where
  "set_once slot value key =
     (if slot \<noteq> None then Err (DuplicateKnownKey key) else Ok (Some value))"

fun collect_known :: "DiscoveryTxtEntry list \<Rightarrow> txt_slots \<Rightarrow> DiscoveryMetadataError + txt_slots" where
  "collect_known [] s = Ok s"
| "collect_known (e # es) s =
     (if eq_ignore_ascii_case (txt_key e) KEY_DISCOVERY_VERSION then
        and_then (set_once (slot_version s) (txt_value e) KEY_DISCOVERY_VERSION)
          (\<lambda>v. collect_known es (s\<lparr>slot_version := v\<rparr>))
      else if eq_ignore_ascii_case (txt_key e) KEY_PROTOCOL_MIN then
        and_then (set_once (slot_min s) (txt_value e) KEY_PROTOCOL_MIN)
          (\<lambda>v. collect_known es (s\<lparr>slot_min := v\<rparr>))
      else if eq_ignore_ascii_case (txt_key e) KEY_PROTOCOL_MAX then
        and_then (set_once (slot_max s) (txt_value e) KEY_PROTOCOL_MAX)
          (\<lambda>v. collect_known es (s\<lparr>slot_max := v\<rparr>))
      else if eq_ignore_ascii_case (txt_key e) KEY_NAME then
        and_then (set_once (slot_name s) (txt_value e) KEY_NAME)
          (\<lambda>v. collect_known es (s\<lparr>slot_name := v\<rparr>))
      else if eq_ignore_ascii_case (txt_key e) KEY_PLATFORM then
        and_then (set_once (slot_platform s) (txt_value e) KEY_PLATFORM)
          (\<lambda>v. collect_known es (s\<lparr>slot_platform := v\<rparr>))
      else collect_known es s)"

definition no_slots :: txt_slots where
  "no_slots = \<lparr>slot_version = None, slot_min = None, slot_max = None, slot_name = None,
     slot_platform = None\<rparr>"

definition parse_required_decimal :: "u8 list \<Rightarrow> rstr \<Rightarrow> DiscoveryMetadataError + u16" where
  "parse_required_decimal value key =
     and_then (ok_or (MalformedField key) (from_utf8 value)) (\<lambda>text.
     and_then (ok_or (MalformedField key) (parse_u16 text)) (\<lambda>parsed.
       if show_u16 parsed \<noteq> text then Err (MalformedField key) else Ok parsed))"

definition parse_optional_name :: "u8 list \<Rightarrow> DiscoveryNameHint option" where
  "parse_optional_name value =
     Option.bind (from_utf8 value) (\<lambda>text. result_ok (DiscoveryNameHint_new text))"

definition metadata_of_slots :: "txt_slots \<Rightarrow> DiscoveryMetadataError + DiscoveryMetadata" where
  "metadata_of_slots s =
     and_then (ok_or (MissingField KEY_DISCOVERY_VERSION) (slot_version s)) (\<lambda>raw_version.
     and_then (parse_required_decimal raw_version KEY_DISCOVERY_VERSION) (\<lambda>version.
     if version \<noteq> DISCOVERY_SCHEMA_VERSION then Err (UnsupportedSchemaVersion version)
     else
     and_then (ok_or (MissingField KEY_PROTOCOL_MIN) (slot_min s)) (\<lambda>raw_min.
     and_then (parse_required_decimal raw_min KEY_PROTOCOL_MIN) (\<lambda>mn.
     and_then (ok_or (MissingField KEY_PROTOCOL_MAX) (slot_max s)) (\<lambda>raw_max.
     and_then (parse_required_decimal raw_max KEY_PROTOCOL_MAX) (\<lambda>mx.
     and_then (map_err InvalidProtocolRange (DiscoveryProtocolRange_new mn mx)) (\<lambda>protocols.
       Ok (DiscoveryMetadata_new protocols
             (Option.bind (slot_name s) parse_optional_name)
             (Option.bind (slot_platform s) DiscoveryPlatformHint_parse)))))))))"

definition from_txt_entries :: "DiscoveryTxtEntry list \<Rightarrow> DiscoveryMetadataError + DiscoveryMetadata" where
  "from_txt_entries entries =
     (let total_size = total_encoded_size entries in
      if total_size > MAX_DISCOVERY_TXT_BYTES
      then Err (TotalMetadataTooLarge total_size MAX_DISCOVERY_TXT_BYTES)
      else and_then (collect_known entries no_slots) metadata_of_slots)"

fun display_DiscoveryMetadataError :: "DiscoveryMetadataError \<Rightarrow> rstr" where
  "display_DiscoveryMetadataError InvalidTxtKey = ascii ''invalid DNS-SD TXT key''"
| "display_DiscoveryMetadataError (TxtEntryTooLarge sz maximum) =
     ascii ''DNS-SD TXT entry is '' @ show_nat sz @ ascii '' bytes; maximum is '' @ show_nat maximum"
| "display_DiscoveryMetadataError (TotalMetadataTooLarge sz maximum) =
     ascii ''local-transfer TXT metadata is '' @ show_nat sz @ ascii '' bytes; maximum is ''
     @ show_nat maximum"
| "display_DiscoveryMetadataError (MissingField key) =
     ascii ''missing discovery TXT field `'' @ key @ ascii ''`''"
| "display_DiscoveryMetadataError (DuplicateKnownKey key) =
     ascii ''duplicate discovery TXT field `'' @ key @ ascii ''`''"
| "display_DiscoveryMetadataError (MalformedField key) =
     ascii ''malformed discovery TXT field `'' @ key @ ascii ''`''"
| "display_DiscoveryMetadataError (UnsupportedSchemaVersion version) =
     ascii ''unsupported discovery schema version '' @ show_u16 version"
| "display_DiscoveryMetadataError (InvalidProtocolRange source) =
     display_DiscoveryProtocolRangeError source"

section \<open>Facts about ranges and hints\<close>

definition in_range :: "u16 \<Rightarrow> DiscoveryProtocolRange \<Rightarrow> bool" where
  "in_range v r \<longleftrightarrow> range_min r \<le> v \<and> v \<le> range_max r"

lemma highest_compatible_Some:
  "highest_compatible_version a b = Some v \<longleftrightarrow>
     in_range v a \<and> in_range v b \<and> (\<forall>w. in_range w a \<and> in_range w b \<longrightarrow> w \<le> v)"
  (is "?l \<longleftrightarrow> ?r")
proof -
  let ?lo = "max (range_min a) (range_min b)" and ?hi = "min (range_max a) (range_max b)"
  have both: "in_range w a \<and> in_range w b \<longleftrightarrow> ?lo \<le> w \<and> w \<le> ?hi" for w
    unfolding in_range_def max.bounded_iff min.bounded_iff by blast
  have l: "?l \<longleftrightarrow> ?lo \<le> ?hi \<and> v = ?hi"
    unfolding highest_compatible_version_def Let_def by (metis option.distinct(1) option.inject)
  have "?r \<longleftrightarrow> (?lo \<le> v \<and> v \<le> ?hi) \<and> (\<forall>w. ?lo \<le> w \<and> w \<le> ?hi \<longrightarrow> w \<le> v)"
    using both by blast
  also have "\<dots> \<longleftrightarrow> ?lo \<le> ?hi \<and> v = ?hi"
    by (meson order.antisym order.refl order.trans)
  finally show ?thesis using l by simp
qed

lemma back_to_boundary:
  "is_char_boundary v (back_to_boundary v e) \<and> back_to_boundary v e \<le> e \<and>
     (\<forall>k. back_to_boundary v e < k \<longrightarrow> k \<le> e \<longrightarrow> \<not> is_char_boundary v k)"
proof (induction e)
  case (Suc e)
  then show ?case by (auto simp: le_Suc_eq)
qed simp

lemma hint_new_Ok:
  "DiscoveryNameHint_new v = Ok h \<longleftrightarrow>
     str_len v \<le> MAX_DISCOVERY_NAME_BYTES \<and> trim v \<noteq> [] \<and> \<not> has_control v \<and> h = DiscoveryNameHint v"
  by (auto simp: DiscoveryNameHint_new_def)

lemma from_device_name_split:
  assumes "from_device_name n = Some h"
  obtains rest where "DeviceName_as_str n = DiscoveryNameHint_as_str h @ rest"
    "str_len (DiscoveryNameHint_as_str h) = back_to_boundary (DeviceName_as_str n)
       (min (str_len (DeviceName_as_str n)) MAX_DISCOVERY_NAME_BYTES)"
proof -
  let ?e = "back_to_boundary (DeviceName_as_str n)
       (min (str_len (DeviceName_as_str n)) MAX_DISCOVERY_NAME_BYTES)"
  obtain head rest where "split_at_byte (DeviceName_as_str n) ?e = Some (head, rest)"
      "h = DiscoveryNameHint head"
    using assms unfolding from_device_name_def Let_def map_option_eq_Some by (auto simp del: split_at_byte.simps)
  then show thesis unfolding split_at_byte_Some by (metis DiscoveryNameHint.sel that)
qed

lemma boundary_after_char:
  "v = p @ c # t \<Longrightarrow> is_char_boundary v (str_len p + len_utf8 c)"
  unfolding is_char_boundary_iff by (intro exI [of _ "p @ [c]"] exI [of _ t]) simp

lemma from_device_name_prefix:
  assumes "from_device_name n = Some h"
  shows "\<exists>rest. DeviceName_as_str n = DiscoveryNameHint_as_str h @ rest \<and>
    str_len (DiscoveryNameHint_as_str h) \<le> MAX_DISCOVERY_NAME_BYTES \<and>
    (rest \<noteq> [] \<longrightarrow> MAX_DISCOVERY_NAME_BYTES < str_len (DiscoveryNameHint_as_str h) + len_utf8 (hd rest))"
proof -
  let ?v = "DeviceName_as_str n"
  let ?m = "min (str_len ?v) MAX_DISCOVERY_NAME_BYTES"
  obtain rest where split: "?v = DiscoveryNameHint_as_str h @ rest"
      and len: "str_len (DiscoveryNameHint_as_str h) = back_to_boundary ?v ?m"
    by (rule from_device_name_split [OF assms])
  note b = back_to_boundary [of ?v ?m]
  have next_char: "MAX_DISCOVERY_NAME_BYTES < str_len (DiscoveryNameHint_as_str h) + len_utf8 (hd rest)"
    if "rest \<noteq> []"
  proof (rule ccontr)
    let ?k = "str_len (DiscoveryNameHint_as_str h) + len_utf8 (hd rest)"
    assume small: "\<not> MAX_DISCOVERY_NAME_BYTES < ?k"
    from that obtain c t where rest: "rest = c # t" by (cases rest) auto
    have "is_char_boundary ?v ?k" using boundary_after_char [of ?v _ c t] split rest by simp
    moreover have "?k \<le> str_len ?v" using split rest by simp
    moreover have "back_to_boundary ?v ?m < ?k" using len rest by simp
    ultimately show False using b small by (meson min.boundedI not_less)
  qed
  moreover have "str_len (DiscoveryNameHint_as_str h) \<le> MAX_DISCOVERY_NAME_BYTES"
    using b len by (metis min.boundedE)
  ultimately show ?thesis using split by blast
qed

lemma from_device_name_total: "\<exists>h. from_device_name n = Some h"
  using back_to_boundary [of "DeviceName_as_str n"]
  by (auto simp: from_device_name_def Let_def is_char_boundary_def)

lemma from_device_name_valid:
  assumes "wf_device_name n" "from_device_name n = Some h"
  shows "DiscoveryNameHint_new (DiscoveryNameHint_as_str h) = Ok h" "valid_str (DiscoveryNameHint_as_str h)"
proof -
  let ?h = "DiscoveryNameHint_as_str h" and ?n = "DeviceName_as_str n"
  obtain rest where pre: "?n = ?h @ rest" "str_len ?h \<le> MAX_DISCOVERY_NAME_BYTES"
      "rest \<noteq> [] \<Longrightarrow> MAX_DISCOVERY_NAME_BYTES < str_len ?h + len_utf8 (hd rest)"
    using from_device_name_prefix [OF assms(2)] by auto
  from assms(1) have ok: "DeviceName_new ?n = Ok n" by (simp add: wf_device_name_def)
  have "?h \<noteq> []"
  proof
    assume "?h = []"
    then have "rest \<noteq> []" using pre device_name.accepted_text(3) [OF ok] by simp
    then show False using pre(3) \<open>?h = []\<close> len_utf8_bounds(2) [of "hd rest"]
      by (simp add: MAX_DISCOVERY_NAME_BYTES_def)
  qed
  then have "\<not> is_whitespace (hd ?h)" using device_name.accepted_visible [OF ok] pre(1) by simp
  then have "trim ?h \<noteq> []"
    using \<open>?h \<noteq> []\<close> hd_in_set by (auto simp: trim_eq_Nil list_all_iff)
  moreover have "\<not> has_control ?h" using device_name.accepted_text(2) [OF ok] pre(1) by simp
  ultimately show "DiscoveryNameHint_new ?h = Ok h"
    using pre(2) by (simp add: hint_new_Ok)
  show "valid_str ?h" using assms(1) pre(1) by (simp add: wf_device_name_def)
qed

section \<open>Facts about the TXT schema\<close>

definition wf_metadata :: "DiscoveryMetadata \<Rightarrow> bool" where
  "wf_metadata md \<longleftrightarrow>
     range_min (md_protocols md) \<le> range_max (md_protocols md) \<and>
     (case md_name md of
        None \<Rightarrow> True
      | Some h \<Rightarrow> DiscoveryNameHint_new (DiscoveryNameHint_as_str h) = Ok h
                   \<and> valid_str (DiscoveryNameHint_as_str h))"

lemma total_encoded_size_simps [simp]:
  "total_encoded_size [] = 0" "total_encoded_size (e # es) = encoded_size e + total_encoded_size es"
  "total_encoded_size (es @ fs) = total_encoded_size es + total_encoded_size fs"
proof -
  have sum: "total_encoded_size es = sum_list (map encoded_size es)" for es
    unfolding total_encoded_size_def using foldl_conv_fold [of _ _ es]
    by (induction es rule: rev_induct) (simp_all add: foldl_conv_fold)
  show "total_encoded_size [] = 0" "total_encoded_size (e # es) = encoded_size e + total_encoded_size es"
    "total_encoded_size (es @ fs) = total_encoded_size es + total_encoded_size fs"
    by (simp_all add: sum)
qed

lemma total_encoded_size_mset: "total_encoded_size es = sum_mset (image_mset encoded_size (mset es))"
  by (induction es) simp_all

lemma parse_required_decimal_show [simp]:
  "parse_required_decimal (utf8_encode (show_u16 w)) key = Ok w"
  by (simp add: parse_required_decimal_def)

lemma parse_required_decimal_Ok:
  "parse_required_decimal value key = Ok w \<longleftrightarrow> value = utf8_encode (show_u16 w)"
proof
  assume "parse_required_decimal value key = Ok w"
  then show "value = utf8_encode (show_u16 w)"
    by (auto simp: parse_required_decimal_def result_simps from_utf8_sound(2) split: if_splits)
qed simp

lemma parse_required_decimal_cases:
  "parse_required_decimal value key = Err (MalformedField key) \<or> (\<exists>w. parse_required_decimal value key = Ok w)"
  by (auto simp: parse_required_decimal_def ok_or_def split: option.splits)

lemma platform_hint_parse [simp]:
  "DiscoveryPlatformHint_parse (utf8_encode (DiscoveryPlatformHint_as_str p)) = Some p"
  by (cases p) (simp_all add: DiscoveryPlatformHint_parse_def utf8_encode_inj valid_str_def text_simps)

lemma parse_optional_name_encode:
  "DiscoveryNameHint_new (DiscoveryNameHint_as_str h) = Ok h \<Longrightarrow> valid_str (DiscoveryNameHint_as_str h) \<Longrightarrow>
     parse_optional_name (utf8_encode (DiscoveryNameHint_as_str h)) = Some h"
  by (simp add: parse_optional_name_def)

lemma parse_optional_name_Some:
  assumes "parse_optional_name value = Some h"
  shows "DiscoveryNameHint_new (DiscoveryNameHint_as_str h) = Ok h" "valid_str (DiscoveryNameHint_as_str h)"
  using assms
  by (auto simp: parse_optional_name_def bind_eq_Some_conv result_simps hint_new_Ok from_utf8_sound(1))

text \<open>
  The known keys, compared without ASCII case. The slots hold, for each known key, the only
  value given for it.
\<close>

definition is_key :: "rstr \<Rightarrow> DiscoveryTxtEntry \<Rightarrow> bool" where
  "is_key k e \<longleftrightarrow> eq_ignore_ascii_case (txt_key e) k"

definition values_for :: "rstr \<Rightarrow> DiscoveryTxtEntry list \<Rightarrow> u8 list list" where
  "values_for k es = map txt_value (filter (is_key k) es)"

definition is_known :: "DiscoveryTxtEntry \<Rightarrow> bool" where
  "is_known e \<longleftrightarrow> is_key KEY_DISCOVERY_VERSION e \<or> is_key KEY_PROTOCOL_MIN e \<or>
     is_key KEY_PROTOCOL_MAX e \<or> is_key KEY_NAME e \<or> is_key KEY_PLATFORM e"

fun fill :: "u8 list option \<Rightarrow> u8 list list \<Rightarrow> u8 list option option" where
  "fill slot [] = Some slot"
| "fill slot (v # vs) = (if slot = None then fill (Some v) vs else None)"

lemma keys_distinct:
  "is_key KEY_DISCOVERY_VERSION e \<Longrightarrow> \<not> is_key KEY_PROTOCOL_MIN e \<and> \<not> is_key KEY_PROTOCOL_MAX e \<and>
     \<not> is_key KEY_NAME e \<and> \<not> is_key KEY_PLATFORM e"
  "is_key KEY_PROTOCOL_MIN e \<Longrightarrow> \<not> is_key KEY_PROTOCOL_MAX e \<and> \<not> is_key KEY_NAME e \<and> \<not> is_key KEY_PLATFORM e"
  "is_key KEY_PROTOCOL_MAX e \<Longrightarrow> \<not> is_key KEY_NAME e \<and> \<not> is_key KEY_PLATFORM e"
  "is_key KEY_NAME e \<Longrightarrow> \<not> is_key KEY_PLATFORM e"
  by (auto simp: is_key_def eq_ignore_ascii_case_def key_defs ascii_def to_ascii_lower_def)

lemma values_for_simps [simp]:
  "values_for k [] = []"
  "values_for k (e # es) = (if is_key k e then txt_value e # values_for k es else values_for k es)"
  by (simp_all add: values_for_def)

lemma collect_known_ok:
  "result_ok (collect_known es s) =
     Option.bind (fill (slot_version s) (values_for KEY_DISCOVERY_VERSION es)) (\<lambda>a.
     Option.bind (fill (slot_min s) (values_for KEY_PROTOCOL_MIN es)) (\<lambda>b.
     Option.bind (fill (slot_max s) (values_for KEY_PROTOCOL_MAX es)) (\<lambda>c.
     Option.bind (fill (slot_name s) (values_for KEY_NAME es)) (\<lambda>d.
     Option.bind (fill (slot_platform s) (values_for KEY_PLATFORM es)) (\<lambda>f.
       Some \<lparr>slot_version = a, slot_min = b, slot_max = c, slot_name = d, slot_platform = f\<rparr>)))))"
proof (induction es arbitrary: s)
  case (Cons e es)
  note collect = collect_known.simps set_once_def is_key_def [symmetric]
  consider "is_key KEY_DISCOVERY_VERSION e" | "is_key KEY_PROTOCOL_MIN e" | "is_key KEY_PROTOCOL_MAX e"
    | "is_key KEY_NAME e" | "is_key KEY_PLATFORM e" | "\<not> is_known e"
    by (auto simp: is_known_def)
  then show ?case
  proof cases
    case 1
    then show ?thesis using keys_distinct [of e]
      by (cases "slot_version s") (simp_all add: Cons.IH collect)
  next
    case 2
    moreover from this have "\<not> is_key KEY_DISCOVERY_VERSION e" using keys_distinct by blast
    ultimately show ?thesis using keys_distinct [of e]
      by (cases "slot_min s") (simp_all add: Cons.IH collect)
  next
    case 3
    moreover from this have "\<not> is_key KEY_DISCOVERY_VERSION e" "\<not> is_key KEY_PROTOCOL_MIN e"
      using keys_distinct by blast+
    ultimately show ?thesis using keys_distinct [of e]
      by (cases "slot_max s") (simp_all add: Cons.IH collect)
  next
    case 4
    moreover from this have "\<not> is_key KEY_DISCOVERY_VERSION e" "\<not> is_key KEY_PROTOCOL_MIN e"
        "\<not> is_key KEY_PROTOCOL_MAX e"
      using keys_distinct by blast+
    ultimately show ?thesis using keys_distinct [of e]
      by (cases "slot_name s") (simp_all add: Cons.IH collect)
  next
    case 5
    moreover from this have "\<not> is_key KEY_DISCOVERY_VERSION e" "\<not> is_key KEY_PROTOCOL_MIN e"
        "\<not> is_key KEY_PROTOCOL_MAX e" "\<not> is_key KEY_NAME e"
      using keys_distinct by blast+
    ultimately show ?thesis
      by (cases "slot_platform s") (simp_all add: Cons.IH collect)
  next
    case 6
    then show ?thesis by (simp add: Cons.IH collect is_known_def)
  qed
qed simp

lemma collect_known_filter: "collect_known (filter is_known es) s = collect_known es s"
proof (induction es arbitrary: s)
  case (Cons e es)
  have "collect_known (e # es) s = collect_known es s" if "\<not> is_known e"
    using that by (simp add: is_known_def is_key_def)
  then show ?case by (cases "is_known e") (simp_all add: Cons.IH)
qed simp

lemma total_encoded_size_filter: "total_encoded_size (filter P es) \<le> total_encoded_size es"
  by (induction es) simp_all

lemma from_txt_ignores_unknown:
  "total_encoded_size es \<le> MAX_DISCOVERY_TXT_BYTES \<Longrightarrow>
     from_txt_entries (filter is_known es) = from_txt_entries es"
  using total_encoded_size_filter [of is_known es]
  by (simp add: from_txt_entries_def Let_def collect_known_filter not_less [symmetric])

lemma fill_None: "fill None vs = (case vs of [] \<Rightarrow> Some None | [v] \<Rightarrow> Some (Some v) | _ \<Rightarrow> None)"
  by (cases vs; cases "tl vs") simp_all

lemma fill_perm:
  assumes "mset vs = mset ws"
  shows "fill None vs = fill None ws"
proof (cases vs)
  case (Cons v vs')
  show ?thesis
  proof (cases vs')
    case Nil
    with Cons assms have "ws = [v]" by simp
    with Cons Nil show ?thesis by simp
  next
    case (Cons v' vs'')
    with \<open>vs = v # vs'\<close> assms have "length ws = Suc (Suc (length vs''))"
      by (metis length_Cons mset_eq_length)
    with Cons \<open>vs = v # vs'\<close> show ?thesis by (auto simp: fill_None length_Suc_conv)
  qed
qed (use assms in simp)

lemma values_for_perm: "mset es = mset fs \<Longrightarrow> mset (values_for k es) = mset (values_for k fs)"
  by (simp add: values_for_def mset_filter)

lemma from_txt_result:
  "result_ok (from_txt_entries es) =
     (if total_encoded_size es \<le> MAX_DISCOVERY_TXT_BYTES
      then Option.bind (result_ok (collect_known es no_slots)) (\<lambda>s. result_ok (metadata_of_slots s))
      else None)"
  by (cases "collect_known es no_slots") (simp_all add: from_txt_entries_def Let_def)

lemma from_txt_perm:
  assumes "mset es = mset fs"
  shows "result_ok (from_txt_entries es) = result_ok (from_txt_entries fs)"
proof -
  have "fill None (values_for k es) = fill None (values_for k fs)" for k
    by (rule fill_perm) (rule values_for_perm [OF assms])
  then have "result_ok (collect_known es no_slots) = result_ok (collect_known fs no_slots)"
    by (simp add: collect_known_ok no_slots_def)
  moreover have "total_encoded_size es = total_encoded_size fs"
    using assms by (simp add: total_encoded_size_mset)
  ultimately show ?thesis by (simp add: from_txt_result)
qed

lemma metadata_of_slots_wf:
  assumes "metadata_of_slots s = Ok md"
  shows "wf_metadata md"
proof -
  have "range_min (md_protocols md) \<le> range_max (md_protocols md)"
      and name: "md_name md = Option.bind (slot_name s) parse_optional_name"
    using assms
    by (auto simp: metadata_of_slots_def result_simps DiscoveryProtocolRange_new_def
        DiscoveryMetadata_new_def split: if_splits)
  then show ?thesis
    using parse_optional_name_Some
    by (auto simp: wf_metadata_def bind_eq_Some_conv split: option.split)
qed

lemma from_txt_wf: "from_txt_entries es = Ok md \<Longrightarrow> wf_metadata md"
  by (auto simp: from_txt_entries_def Let_def result_simps split: if_splits
      intro: metadata_of_slots_wf)

text \<open>The encoder's own entries: their sizes, their slots and what is read back.\<close>

definition slots_of :: "DiscoveryMetadata \<Rightarrow> txt_slots" where
  "slots_of md = \<lparr>
     slot_version = Some (utf8_encode (show_u16 DISCOVERY_SCHEMA_VERSION)),
     slot_min = Some (utf8_encode (show_u16 (range_min (md_protocols md)))),
     slot_max = Some (utf8_encode (show_u16 (range_max (md_protocols md)))),
     slot_name = map_option (\<lambda>h. utf8_encode (DiscoveryNameHint_as_str h)) (md_name md),
     slot_platform = map_option (\<lambda>p. utf8_encode (DiscoveryPlatformHint_as_str p)) (md_platform md)\<rparr>"

lemma known_keys_eq [simp]:
  "eq_ignore_ascii_case KEY_DISCOVERY_VERSION KEY_DISCOVERY_VERSION"
  "eq_ignore_ascii_case k k"
  "\<not> eq_ignore_ascii_case KEY_PROTOCOL_MIN KEY_DISCOVERY_VERSION"
  "\<not> eq_ignore_ascii_case KEY_PROTOCOL_MAX KEY_DISCOVERY_VERSION"
  "\<not> eq_ignore_ascii_case KEY_PROTOCOL_MAX KEY_PROTOCOL_MIN"
  "\<not> eq_ignore_ascii_case KEY_NAME KEY_DISCOVERY_VERSION"
  "\<not> eq_ignore_ascii_case KEY_NAME KEY_PROTOCOL_MIN"
  "\<not> eq_ignore_ascii_case KEY_NAME KEY_PROTOCOL_MAX"
  "\<not> eq_ignore_ascii_case KEY_PLATFORM KEY_DISCOVERY_VERSION"
  "\<not> eq_ignore_ascii_case KEY_PLATFORM KEY_PROTOCOL_MIN"
  "\<not> eq_ignore_ascii_case KEY_PLATFORM KEY_PROTOCOL_MAX"
  "\<not> eq_ignore_ascii_case KEY_PLATFORM KEY_NAME"
  by (simp_all add: eq_ignore_ascii_case_def key_defs ascii_def to_ascii_lower_def)

lemma collect_known_to_txt: "collect_known (to_txt_entries md) no_slots = Ok (slots_of md)"
  by (cases "md_name md"; cases "md_platform md")
    (simp_all add: to_txt_entries_def emitted_def no_slots_def slots_of_def set_once_def)

lemma hint_text_len: "str_len (DiscoveryPlatformHint_as_str p) \<le> 7"
  by (cases p) (simp_all add: text_simps)

lemma key_lens: "str_len KEY_DISCOVERY_VERSION = 2" "str_len KEY_PROTOCOL_MIN = 4"
  "str_len KEY_PROTOCOL_MAX = 4" "str_len KEY_NAME = 4" "str_len KEY_PLATFORM = 2"
  by (simp_all add: key_defs text_simps)

lemma emitted_size [simp]: "encoded_size (emitted k v) = 2 + str_len k + length v"
  by (simp add: encoded_size_def emitted_def)

lemma hint_len:
  "wf_metadata md \<Longrightarrow> md_name md = Some h \<Longrightarrow> str_len (DiscoveryNameHint_as_str h) \<le> 96"
  by (auto simp: wf_metadata_def hint_new_Ok discovery_bounds)

lemma to_txt_size:
  assumes "wf_metadata md"
  shows "total_encoded_size (to_txt_entries md) \<le> 150"
proof -
  define name where "name = (case md_name md of None \<Rightarrow> []
      | Some h \<Rightarrow> [emitted KEY_NAME (utf8_encode (DiscoveryNameHint_as_str h))])"
  define os where "os = (case md_platform md of None \<Rightarrow> []
      | Some p \<Rightarrow> [emitted KEY_PLATFORM (utf8_encode (DiscoveryPlatformHint_as_str p))])"
  have "total_encoded_size name \<le> 102"
    using hint_len [OF assms] by (cases "md_name md") (simp_all add: name_def key_lens)
  moreover have "total_encoded_size os \<le> 11"
    using hint_text_len by (cases "md_platform md") (simp_all add: os_def key_lens)
  ultimately show ?thesis
    using str_len_show_u16 [of DISCOVERY_SCHEMA_VERSION]
      str_len_show_u16 [of "range_min (md_protocols md)"]
      str_len_show_u16 [of "range_max (md_protocols md)"]
    by (simp add: to_txt_entries_def name_def [symmetric] os_def [symmetric] key_lens)
qed

lemma encoded_size_le_total: "e \<in> set es \<Longrightarrow> encoded_size e \<le> total_encoded_size es"
  by (induction es) auto

lemma metadata_of_slots_of: "wf_metadata md \<Longrightarrow> metadata_of_slots (slots_of md) = Ok md"
  by (cases "md_name md"; cases "md_platform md")
    (simp_all add: metadata_of_slots_def slots_of_def wf_metadata_def DiscoveryProtocolRange_new_def
      DiscoveryMetadata_new_def parse_optional_name_encode not_less)

lemma from_txt_to_txt: "wf_metadata md \<Longrightarrow> from_txt_entries (to_txt_entries md) = Ok md"
  using to_txt_size(1) [of md]
  by (simp add: from_txt_entries_def collect_known_to_txt metadata_of_slots_of discovery_bounds)

interpretation txt_schema: roundtrip to_txt_entries "\<lambda>es. result_ok (from_txt_entries es)" wf_metadata
  by unfold_locales (simp add: from_txt_to_txt)

end
