(* ===== verification/Mdns.thy ===== *)
theory Mdns
  imports Rust_Text Hash_Map
begin

text \<open>
  What the program sees of the \<^verbatim>\<open>mdns_sd\<close> crate, which is not part of the repository.
  Its operations are the fields of the record \<open>mdns\<close>, an argument of every definition that
  calls them; they act on an opaque world \<open>'w\<close> through daemon handles \<open>'d\<close>. Nothing is assumed
  about them. A channel is the finite script of results its next \<^verbatim>\<open>try_recv\<close> calls
  return, after which it is empty; a reply channel maps the timeout to the result of
  \<^verbatim>\<open>recv_timeout\<close>. A foreign error is known by its text only.

  The contract \<open>owned_session\<close> is the life cycle the browser and the advertisement share:
  a session owns its backend until one stop succeeds, and then nothing reaches the backend again.
\<close>

section \<open>Foreign values\<close>

type_synonym foreign_error = rstr

datatype DaemonEvent = DaemonError foreign_error | NameChange rstr rstr | OtherDaemonEvent

datatype DaemonStatus = DaemonRunning | DaemonShutdown

datatype UnregisterStatus = UnregisterOK | UnregisterNotFound

datatype ScopedIp = ScopedV4 u32 | ScopedV6 "128 word" u32 | OtherIp

record TxtProperty =
  property_key :: rstr
  property_val :: "u8 list option"

record ResolvedService =
  get_fullname :: rstr
  get_port :: u16
  get_properties :: "TxtProperty list"
  get_addresses :: "ScopedIp list"

datatype ServiceEvent = ServiceResolved ResolvedService | ServiceRemoved rstr rstr | OtherServiceEvent

datatype TryRecvError = RecvEmpty | RecvFailed foreign_error

type_synonym 'e receiver = "(TryRecvError + 'e) list"

type_synonym 'e reply = "duration \<Rightarrow> foreign_error + 'e"

record ('w, 'd, 'i) mdns =
  daemon_new :: "'w \<Rightarrow> (foreign_error + 'd) \<times> 'w"
  daemon_monitor :: "'d \<Rightarrow> 'w \<Rightarrow> (foreign_error + DaemonEvent receiver) \<times> 'w"
  daemon_browse :: "'d \<Rightarrow> rstr \<Rightarrow> 'w \<Rightarrow> (foreign_error + ServiceEvent receiver) \<times> 'w"
  daemon_stop_browse :: "'d \<Rightarrow> rstr \<Rightarrow> 'w \<Rightarrow> (foreign_error + unit) \<times> 'w"
  daemon_register :: "'d \<Rightarrow> 'i \<Rightarrow> 'w \<Rightarrow> (foreign_error + unit) \<times> 'w"
  daemon_unregister :: "'d \<Rightarrow> rstr \<Rightarrow> 'w \<Rightarrow> (foreign_error + UnregisterStatus reply) \<times> 'w"
  daemon_shutdown :: "'d \<Rightarrow> 'w \<Rightarrow> (foreign_error + DaemonStatus reply) \<times> 'w"
  service_info_new :: "rstr \<Rightarrow> rstr \<Rightarrow> rstr \<Rightarrow> u16 \<Rightarrow> (rstr, rstr) hash_map \<Rightarrow> foreign_error + 'i"
  enable_addr_auto :: "'i \<Rightarrow> 'i"

section \<open>The life cycle of an owned session\<close>

locale owned_session =
  fixes active :: "'s \<Rightarrow> bool"
    and stop :: "'s \<Rightarrow> ('e + unit) \<times> 's"
    and drop_session :: "'s \<Rightarrow> 's"
  assumes stop_inactive: "\<not> active s \<Longrightarrow> stop s = (Ok (), s)"
    and stop_success: "stop s = (Ok (), s') \<Longrightarrow> \<not> active s'"
    and stop_failure: "stop s = (Err e, s') \<Longrightarrow> active s'"
    and drop_inactive: "\<not> active s \<Longrightarrow> drop_session s = s"
begin

lemma stop_again: "stop s = (Ok (), s') \<Longrightarrow> stop s' = (Ok (), s') \<and> drop_session s' = s'"
  using stop_inactive stop_success drop_inactive by blast

lemma stop_keeps_trying: "stop s = (r, s') \<Longrightarrow> active s' \<longleftrightarrow> \<not> is_ok r"
  using stop_success stop_failure by (cases r) auto

lemma stops_inactive: "\<not> active s \<Longrightarrow> ((\<lambda>s. snd (stop s)) ^^ n) s = s"
  by (induction n) (simp_all add: stop_inactive)

end

end
