(* ===== verification/Advertisement.thy ===== *)
theory Advertisement
  imports Discovery Mdns
begin

text \<open>
  The DNS-SD advertisement life cycle
  (\<^verbatim>\<open>crates/local-transfer-core/src/advertisement.rs\<close>): configuration, the service
  description built from the discovery metadata, the owned session and its daemon backend.
  \<^verbatim>\<open>Uuid::new_v4()\<close> rendered as text is an argument of \<open>SessionIdentity_random\<close>.
\<close>

section \<open>Configuration and errors\<close>

definition LOCAL_DOMAIN_SUFFIX :: rstr where
  "LOCAL_DOMAIN_SUFFIX = ascii ''.local.''"

definition STOP_TIMEOUT :: duration where
  "STOP_TIMEOUT = from_secs 2"

datatype DiscoveryAdvertisementErrorKind =
    InvalidPort | MetadataEncoding | DaemonStartup | ServiceConstruction | Registration | Daemon
  | Unregister | Shutdown

text \<open>
  The boxed causes: an error of the daemon, or the \<^verbatim>\<open>FromUtf8Error\<close> that keeps the bytes
  it rejected.
\<close>

datatype advertisement_source = ForeignSource foreign_error | Utf8Source "u8 list"

record DiscoveryAdvertisementError =
  error_kind :: DiscoveryAdvertisementErrorKind
  error_cause :: "advertisement_source option"

definition without_source :: "DiscoveryAdvertisementErrorKind \<Rightarrow> DiscoveryAdvertisementError" where
  "without_source kind = \<lparr>error_kind = kind, error_cause = None\<rparr>"

definition with_source :: "DiscoveryAdvertisementErrorKind \<Rightarrow> advertisement_source \<Rightarrow> DiscoveryAdvertisementError" where
  "with_source kind source = \<lparr>error_kind = kind, error_cause = Some source\<rparr>"

definition display_DiscoveryAdvertisementError :: "DiscoveryAdvertisementError \<Rightarrow> rstr" where
  "display_DiscoveryAdvertisementError e = (case error_kind e of
     InvalidPort \<Rightarrow> ascii ''discovery advertisement port must not be zero''
   | MetadataEncoding \<Rightarrow> ascii ''discovery metadata could not be encoded safely''
   | DaemonStartup \<Rightarrow> ascii ''failed to start the mDNS advertisement daemon''
   | ServiceConstruction \<Rightarrow> ascii ''failed to construct the DNS-SD service''
   | Registration \<Rightarrow> ascii ''failed to submit the DNS-SD registration''
   | Daemon \<Rightarrow> ascii ''the mDNS advertisement daemon reported an error''
   | Unregister \<Rightarrow> ascii ''failed to unregister the DNS-SD service''
   | Shutdown \<Rightarrow> ascii ''failed to shut down the mDNS advertisement daemon'')"

record DiscoveryAdvertisementConfig =
  config_metadata :: DiscoveryMetadata
  config_port :: u16

definition DiscoveryAdvertisementConfig_new ::
  "DiscoveryMetadata \<Rightarrow> u16 \<Rightarrow> DiscoveryAdvertisementError + DiscoveryAdvertisementConfig" where
  "DiscoveryAdvertisementConfig_new metadata port =
     (if port = 0 then Err (without_source InvalidPort)
      else Ok \<lparr>config_metadata = metadata, config_port = port\<rparr>)"

datatype DiscoveryAdvertisementEvent = NameChanged rstr rstr

section \<open>The service description\<close>

record ServiceSpec =
  spec_service_type :: rstr
  spec_instance_name :: rstr
  spec_hostname :: rstr
  spec_port :: u16
  spec_properties :: "(rstr, rstr) hash_map"

datatype SessionIdentity = SessionIdentity (session_label: rstr)

definition SessionIdentity_random :: "rstr \<Rightarrow> SessionIdentity" where
  "SessionIdentity_random new_v4 = SessionIdentity (ascii ''lt-'' @ new_v4)"

text \<open>Collecting pairs into a \<^verbatim>\<open>HashMap\<close> inserts them in order.\<close>

definition collect_map :: "('k \<times> 'v) list \<Rightarrow> ('k, 'v) hash_map" where
  "collect_map kvs = foldl (\<lambda>m (k, v). hm_insert k v m) [] kvs"

definition entry_property :: "DiscoveryTxtEntry \<Rightarrow> DiscoveryAdvertisementError + rstr \<times> rstr" where
  "entry_property entry =
     (case from_utf8 (txt_value entry) of
        None \<Rightarrow> Err (with_source MetadataEncoding (Utf8Source (txt_value entry)))
      | Some v \<Rightarrow> Ok (txt_key entry, v))"

definition ServiceSpec_new ::
  "DiscoveryAdvertisementConfig \<Rightarrow> SessionIdentity \<Rightarrow> DiscoveryAdvertisementError + ServiceSpec" where
  "ServiceSpec_new config identity =
     (let entries = to_txt_entries (config_metadata config);
          total = foldl (\<lambda>total entry. total + encoded_size entry) 0 entries
      in if total > MAX_DISCOVERY_TXT_BYTES then Err (without_source MetadataEncoding)
         else and_then (collect_results entry_property entries) (\<lambda>properties.
           Ok \<lparr>spec_service_type = DISCOVERY_SERVICE_TYPE @ LOCAL_DOMAIN_SUFFIX,
               spec_instance_name = session_label identity,
               spec_hostname = session_label identity @ LOCAL_DOMAIN_SUFFIX,
               spec_port = config_port config,
               spec_properties = collect_map properties\<rparr>))"

definition ServiceSpec_fullname :: "ServiceSpec \<Rightarrow> rstr" where
  "ServiceSpec_fullname spec = spec_instance_name spec @ ascii ''.'' @ spec_service_type spec"

section \<open>The session\<close>

record 'b AdvertisementBackend =
  backend_stop :: "'b \<Rightarrow> (DiscoveryAdvertisementError + unit) \<times> 'b"
  backend_best_effort_stop :: "'b \<Rightarrow> 'b"

record 'b AdvertisementSession =
  session_spec :: ServiceSpec
  session_backend :: 'b
  session_active :: bool

definition AdvertisementSession_start ::
  "ServiceSpec \<Rightarrow> (ServiceSpec \<Rightarrow> DiscoveryAdvertisementError + 'b) \<Rightarrow>
     DiscoveryAdvertisementError + 'b AdvertisementSession" where
  "AdvertisementSession_start spec start_backend =
     and_then (start_backend spec) (\<lambda>backend.
       Ok \<lparr>session_spec = spec, session_backend = backend, session_active = True\<rparr>)"

definition AdvertisementSession_stop ::
  "'b AdvertisementBackend \<Rightarrow> 'b AdvertisementSession \<Rightarrow>
     (DiscoveryAdvertisementError + unit) \<times> 'b AdvertisementSession" where
  "AdvertisementSession_stop B self =
     (if \<not> session_active self then (Ok (), self)
      else case backend_stop B (session_backend self) of
          (Err e, backend) \<Rightarrow> (Err e, self\<lparr>session_backend := backend\<rparr>)
        | (Ok _, backend) \<Rightarrow> (Ok (), self\<lparr>session_backend := backend, session_active := False\<rparr>))"

definition AdvertisementSession_drop ::
  "'b AdvertisementBackend \<Rightarrow> 'b AdvertisementSession \<Rightarrow> 'b AdvertisementSession" where
  "AdvertisementSession_drop B self =
     (if session_active self
      then self\<lparr>session_backend := backend_best_effort_stop B (session_backend self)\<rparr> else self)"

section \<open>The mDNS backend\<close>

record 'd MdnsBackend =
  ab_daemon :: 'd
  ab_events :: "DaemonEvent receiver"
  ab_fullname :: rstr

definition build_service_info ::
  "('w, 'd, 'i) mdns \<Rightarrow> ServiceSpec \<Rightarrow> DiscoveryAdvertisementError + 'i" where
  "build_service_info M spec =
     map_err (\<lambda>source. with_source ServiceConstruction (ForeignSource source))
       (map_ok (enable_addr_auto M)
         (service_info_new M (spec_service_type spec) (spec_instance_name spec) (spec_hostname spec)
            (spec_port spec) (spec_properties spec)))"

definition MdnsBackend_start ::
  "('w, 'd, 'i) mdns \<Rightarrow> ServiceSpec \<Rightarrow> 'w \<Rightarrow> (DiscoveryAdvertisementError + 'd MdnsBackend) \<times> 'w" where
  "MdnsBackend_start M spec w =
     (case build_service_info M spec of
        Err e \<Rightarrow> (Err e, w)
      | Ok service \<Rightarrow>
     (case daemon_new M w of
        (Err source, w) \<Rightarrow> (Err (with_source DaemonStartup (ForeignSource source)), w)
      | (Ok daemon, w) \<Rightarrow>
     (case daemon_monitor M daemon w of
        (Err source, w) \<Rightarrow> (Err (with_source DaemonStartup (ForeignSource source)), snd (daemon_shutdown M daemon w))
      | (Ok events, w) \<Rightarrow>
     (case daemon_register M daemon service w of
        (Err source, w) \<Rightarrow> (Err (with_source Registration (ForeignSource source)), snd (daemon_shutdown M daemon w))
      | (Ok _, w) \<Rightarrow>
          (Ok \<lparr>ab_daemon = daemon, ab_events = events, ab_fullname = ServiceSpec_fullname spec\<rparr>, w)))))"

fun poll_daemon_events ::
  "DaemonEvent receiver \<Rightarrow>
     (DiscoveryAdvertisementError + DiscoveryAdvertisementEvent option) \<times> DaemonEvent receiver" where
  "poll_daemon_events [] = (Ok None, [])"
| "poll_daemon_events (r # rs) =
     (case r of
        Ok (DaemonError source) \<Rightarrow> (Err (with_source Daemon (ForeignSource source)), rs)
      | Ok (NameChange original new_name) \<Rightarrow> (Ok (Some (NameChanged original new_name)), rs)
      | Ok _ \<Rightarrow> poll_daemon_events rs
      | Err RecvEmpty \<Rightarrow> (Ok None, rs)
      | Err (RecvFailed source) \<Rightarrow> (Err (with_source Daemon (ForeignSource source)), rs))"

definition MdnsBackend_poll_event ::
  "'d MdnsBackend \<Rightarrow>
     (DiscoveryAdvertisementError + DiscoveryAdvertisementEvent option) \<times> 'd MdnsBackend" where
  "MdnsBackend_poll_event self =
     (case poll_daemon_events (ab_events self) of
        (r, events) \<Rightarrow> (r, self\<lparr>ab_events := events\<rparr>))"

definition MdnsBackend_unregister ::
  "('w, 'd, 'i) mdns \<Rightarrow> 'd MdnsBackend \<Rightarrow> 'w \<Rightarrow> (DiscoveryAdvertisementError + unit) \<times> 'w" where
  "MdnsBackend_unregister M self w =
     (case daemon_unregister M (ab_daemon self) (ab_fullname self) w of
        (Err source, w) \<Rightarrow> (Err (with_source Unregister (ForeignSource source)), w)
      | (Ok receiver, w) \<Rightarrow>
          (case receiver STOP_TIMEOUT of
             Ok UnregisterOK \<Rightarrow> (Ok (), w)
           | Ok UnregisterNotFound \<Rightarrow> (Ok (), w)
           | Err source \<Rightarrow> (Err (with_source Unregister (ForeignSource source)), w)))"

definition MdnsBackend_shutdown ::
  "('w, 'd, 'i) mdns \<Rightarrow> 'd MdnsBackend \<Rightarrow> 'w \<Rightarrow> (DiscoveryAdvertisementError + unit) \<times> 'w" where
  "MdnsBackend_shutdown M self w =
     (case daemon_shutdown M (ab_daemon self) w of
        (Err source, w) \<Rightarrow> (Err (with_source Shutdown (ForeignSource source)), w)
      | (Ok receiver, w) \<Rightarrow>
          (case receiver STOP_TIMEOUT of
             Ok DaemonShutdown \<Rightarrow> (Ok (), w)
           | Ok _ \<Rightarrow> (Err (without_source Shutdown), w)
           | Err source \<Rightarrow> (Err (with_source Shutdown (ForeignSource source)), w)))"

definition MdnsBackend_stop ::
  "('w, 'd, 'i) mdns \<Rightarrow> 'd MdnsBackend \<Rightarrow> 'w \<Rightarrow> (DiscoveryAdvertisementError + unit) \<times> 'w" where
  "MdnsBackend_stop M self w =
     (case MdnsBackend_unregister M self w of
        (unregister_result, w) \<Rightarrow>
          (case MdnsBackend_shutdown M self w of
             (shutdown_result, w) \<Rightarrow> (and_then unregister_result (\<lambda>_. shutdown_result), w)))"

definition MdnsBackend_best_effort_stop ::
  "('w, 'd, 'i) mdns \<Rightarrow> 'd MdnsBackend \<Rightarrow> 'w \<Rightarrow> 'w" where
  "MdnsBackend_best_effort_stop M self w =
     snd (daemon_shutdown M (ab_daemon self)
       (snd (daemon_unregister M (ab_daemon self) (ab_fullname self) w)))"

definition mdns_advertisement_backend ::
  "('w, 'd, 'i) mdns \<Rightarrow> ('d MdnsBackend \<times> 'w) AdvertisementBackend" where
  "mdns_advertisement_backend M =
     \<lparr>backend_stop = (\<lambda>(b, w). case MdnsBackend_stop M b w of (r, w) \<Rightarrow> (r, (b, w))),
      backend_best_effort_stop = (\<lambda>(b, w). (b, MdnsBackend_best_effort_stop M b w))\<rparr>"

type_synonym ('w, 'd) DiscoveryAdvertisement = "('d MdnsBackend \<times> 'w) AdvertisementSession"

definition DiscoveryAdvertisement_start ::
  "('w, 'd, 'i) mdns \<Rightarrow> rstr \<Rightarrow> DiscoveryAdvertisementConfig \<Rightarrow> 'w \<Rightarrow>
     (DiscoveryAdvertisementError + ('w, 'd) DiscoveryAdvertisement) \<times> 'w" where
  "DiscoveryAdvertisement_start M new_v4 config w =
     (case ServiceSpec_new config (SessionIdentity_random new_v4) of
        Err e \<Rightarrow> (Err e, w)
      | Ok spec \<Rightarrow>
          (case MdnsBackend_start M spec w of
             (r, w) \<Rightarrow> (AdvertisementSession_start spec (\<lambda>_. map_ok (\<lambda>b. (b, w)) r), w)))"

definition DiscoveryAdvertisement_instance_name :: "('w, 'd) DiscoveryAdvertisement \<Rightarrow> rstr" where
  "DiscoveryAdvertisement_instance_name self = spec_instance_name (session_spec self)"

definition DiscoveryAdvertisement_hostname :: "('w, 'd) DiscoveryAdvertisement \<Rightarrow> rstr" where
  "DiscoveryAdvertisement_hostname self = spec_hostname (session_spec self)"

definition DiscoveryAdvertisement_poll_event ::
  "('w, 'd) DiscoveryAdvertisement \<Rightarrow>
     (DiscoveryAdvertisementError + DiscoveryAdvertisementEvent option) \<times> ('w, 'd) DiscoveryAdvertisement" where
  "DiscoveryAdvertisement_poll_event self =
     (case session_backend self of
        (b, w) \<Rightarrow> (case MdnsBackend_poll_event b of (r, b) \<Rightarrow> (r, self\<lparr>session_backend := (b, w)\<rparr>)))"

definition DiscoveryAdvertisement_stop ::
  "('w, 'd, 'i) mdns \<Rightarrow> ('w, 'd) DiscoveryAdvertisement \<Rightarrow>
     (DiscoveryAdvertisementError + unit) \<times> ('w, 'd) DiscoveryAdvertisement" where
  "DiscoveryAdvertisement_stop M self = AdvertisementSession_stop (mdns_advertisement_backend M) self"

section \<open>Facts\<close>

interpretation advertisement_session: owned_session session_active
  "AdvertisementSession_stop B" "AdvertisementSession_drop B"
  for B :: "'b AdvertisementBackend"
  by unfold_locales
    (auto simp: AdvertisementSession_stop_def AdvertisementSession_drop_def
      split: prod.splits sum.splits if_splits)

text \<open>What a receiver of the advertised properties reads as TXT entries.\<close>

definition wire_entries :: "(rstr \<times> rstr) list \<Rightarrow> DiscoveryTxtEntry list" where
  "wire_entries kvs = map (\<lambda>(k, v). emitted k (utf8_encode v)) kvs"

lemma foldl_insert_fresh:
  "distinct (map fst (m @ kvs)) \<Longrightarrow> foldl (\<lambda>m (k, v). hm_insert k v m) m kvs = m @ kvs"
proof (induction kvs arbitrary: m)
  case (Cons e kvs)
  have "hm_insert k v m = m @ [(k, v)]" if "k \<notin> fst ` set m" for k v
    using that by (induction m) auto
  then show ?case using Cons.IH [of "m @ [e]"] Cons.prems by (cases e) auto
qed simp

lemma collect_map_distinct: "distinct (map fst kvs) \<Longrightarrow> collect_map kvs = kvs"
  unfolding collect_map_def using foldl_insert_fresh [of "[]" kvs] by simp

lemma key_defs_distinct: "distinct [KEY_DISCOVERY_VERSION, KEY_PROTOCOL_MIN, KEY_PROTOCOL_MAX, KEY_NAME, KEY_PLATFORM]"
  by (simp add: key_defs ascii_def)

lemma to_txt_keys_distinct: "distinct (map txt_key (to_txt_entries md))"
  using key_defs_distinct
  by (cases "md_name md"; cases "md_platform md") (auto simp: to_txt_entries_def emitted_def)

definition text_value :: "u8 list \<Rightarrow> bool" where
  "text_value bs \<longleftrightarrow> (\<exists>v. valid_str v \<and> bs = utf8_encode v)"

lemma text_valueI [intro!]: "valid_str v \<Longrightarrow> text_value (utf8_encode v)"
  by (auto simp: text_value_def)

lemma to_txt_values_utf8:
  assumes "wf_metadata md" "e \<in> set (to_txt_entries md)"
  shows "text_value (txt_value e)"
proof -
  have "valid_str (DiscoveryPlatformHint_as_str p)" for p
    by (cases p) (simp_all add: text_simps valid_str_def)
  moreover have "valid_str (DiscoveryNameHint_as_str h)" if "md_name md = Some h" for h
    using assms(1) that by (simp add: wf_metadata_def)
  ultimately show ?thesis
    using assms(2) by (auto simp: to_txt_entries_def emitted_def split: option.splits)
qed

lemma entry_property_emitted:
  "valid_str v \<Longrightarrow> txt_value e = utf8_encode v \<Longrightarrow> entry_property e = Ok (txt_key e, v)"
  by (simp add: entry_property_def)

text \<open>
  Advertising a well-formed metadata never fails, and the properties handed to the daemon are
  read back as that metadata by the decoder of any peer.
\<close>

lemma ServiceSpec_new_Ok:
  assumes "wf_metadata (config_metadata c)"
  shows "\<exists>spec. ServiceSpec_new c ident = Ok spec \<and>
    spec_port spec = config_port c \<and>
    spec_instance_name spec = session_label ident \<and>
    wire_entries (spec_properties spec) = to_txt_entries (config_metadata c) \<and>
    from_txt_entries (wire_entries (spec_properties spec)) = Ok (config_metadata c)"
proof -
  let ?es = "to_txt_entries (config_metadata c)"
  obtain val where val: "\<And>e. e \<in> set ?es \<Longrightarrow> valid_str (val e) \<and> txt_value e = utf8_encode (val e)"
    using to_txt_values_utf8 [OF assms] unfolding text_value_def by metis
  let ?kvs = "map (\<lambda>e. (txt_key e, val e)) ?es"
  have collect: "collect_results entry_property ?es = Ok ?kvs"
    by (rule collect_results_map_Ok) (use val in \<open>auto intro: entry_property_emitted\<close>)
  have "map fst ?kvs = map txt_key ?es" by simp
  then have props: "collect_map ?kvs = ?kvs"
    using to_txt_keys_distinct by (metis collect_map_distinct)
  have wire: "wire_entries ?kvs = ?es"
    unfolding wire_entries_def map_map by (rule map_idI) (use val in \<open>auto simp: emitted_def\<close>)
  have "\<not> foldl (\<lambda>t e. t + encoded_size e) 0 ?es > MAX_DISCOVERY_TXT_BYTES"
    using to_txt_size [OF assms] by (simp add: total_encoded_size_def discovery_bounds)
  then show ?thesis
    using collect props wire from_txt_to_txt [OF assms]
    by (simp add: ServiceSpec_new_def Let_def)
qed

lemma advertise_failure_shuts_down:
  assumes "MdnsBackend_start M spec w = (Err e, w')" "build_service_info M spec = Ok i"
    "daemon_new M w = (Ok d, w1)"
  shows "\<exists>w2. w' = snd (daemon_shutdown M d w2)"
  using assms by (auto simp: MdnsBackend_start_def split: prod.splits sum.splits)

lemma start_invalid_spec_untouched:
  "build_service_info M spec = Err e \<Longrightarrow> MdnsBackend_start M spec w = (Err e, w)"
  by (simp add: MdnsBackend_start_def)

end
