(* ===== verification/Browser.thy ===== *)
theory Browser
  imports Discovery Mdns "HOL-Library.Option_ord" "HOL-Library.Product_Lexorder"
begin

text \<open>
  Bounded DNS-SD browsing (\<^verbatim>\<open>crates/local-transfer-core/src/browser.rs\<close>): transient
  keys, endpoints, the coalescing state machine that turns raw resolutions into presence
  events, and the session and daemon backend around it.
\<close>

section \<open>Constants\<close>

definition MAX_DISCOVERED_ENDPOINTS :: nat where
  "MAX_DISCOVERED_ENDPOINTS = 16"

definition MAX_TRANSIENT_DISCOVERY_KEY_BYTES :: nat where
  "MAX_TRANSIENT_DISCOVERY_KEY_BYTES = 255"

definition LOCAL_SERVICE_TYPE :: rstr where
  "LOCAL_SERVICE_TYPE = ascii ''_local-transfer._tcp.local.''"

definition TRANSIENT_KEY_SUFFIX :: rstr where
  "TRANSIENT_KEY_SUFFIX = ascii ''._local-transfer._tcp.local.''"

definition STOP_TIMEOUT :: duration where
  "STOP_TIMEOUT = from_secs 2"

section \<open>Keys, endpoints and peers\<close>

datatype TransientDiscoveryKey = TransientDiscoveryKey (key_as_str: rstr)

text \<open>
  The derived \<^verbatim>\<open>Ord\<close> compares the UTF-8 bytes of the text, an order that agrees with
  the lexicographic order of its scalar values.
\<close>

instantiation TransientDiscoveryKey :: linorder
begin

definition less_eq_TransientDiscoveryKey :: "TransientDiscoveryKey \<Rightarrow> TransientDiscoveryKey \<Rightarrow> bool" where
  "less_eq_TransientDiscoveryKey a b \<longleftrightarrow> key_as_str a \<le> key_as_str b"

definition less_TransientDiscoveryKey :: "TransientDiscoveryKey \<Rightarrow> TransientDiscoveryKey \<Rightarrow> bool" where
  "less_TransientDiscoveryKey a b \<longleftrightarrow> key_as_str a < key_as_str b"

instance
  by standard (auto simp: less_eq_TransientDiscoveryKey_def less_TransientDiscoveryKey_def
      TransientDiscoveryKey.expand)

end

datatype IpAddr = V4 u32 | V6 "128 word"

fun ip_rank :: "IpAddr \<Rightarrow> nat \<times> nat" where
  "ip_rank (V4 a) = (0, unat a)"
| "ip_rank (V6 a) = (1, unat a)"

lemma ip_rank_inj: "ip_rank a = ip_rank b \<Longrightarrow> a = b"
  by (cases a; cases b) (simp_all add: word_unat_eq_iff)

datatype DiscoveryEndpoint =
  DiscoveryEndpoint (endpoint_address: IpAddr) (endpoint_scope_id: "u32 option")

definition endpoint_rank :: "DiscoveryEndpoint \<Rightarrow> (nat \<times> nat) \<times> nat option" where
  "endpoint_rank e = (ip_rank (endpoint_address e), map_option unat (endpoint_scope_id e))"

lemma endpoint_rank_inj: "endpoint_rank a = endpoint_rank b \<Longrightarrow> a = b"
  by (cases a; cases b) (auto simp: endpoint_rank_def map_option_case word_unat_eq_iff
      split: option.splits dest: ip_rank_inj)

text \<open>The derived \<^verbatim>\<open>Ord\<close>: the variant of the address, its octets, then the scope.\<close>

instantiation DiscoveryEndpoint :: linorder
begin

definition less_eq_DiscoveryEndpoint :: "DiscoveryEndpoint \<Rightarrow> DiscoveryEndpoint \<Rightarrow> bool" where
  "less_eq_DiscoveryEndpoint a b \<longleftrightarrow> endpoint_rank a \<le> endpoint_rank b"

definition less_DiscoveryEndpoint :: "DiscoveryEndpoint \<Rightarrow> DiscoveryEndpoint \<Rightarrow> bool" where
  "less_DiscoveryEndpoint a b \<longleftrightarrow> endpoint_rank a < endpoint_rank b"

instance
  by standard (auto simp: less_eq_DiscoveryEndpoint_def less_DiscoveryEndpoint_def
      simp del: less_eq_prod_simp less_prod_simp intro: endpoint_rank_inj)

end

definition DiscoveryEndpoint_ipv4 :: "u32 \<Rightarrow> DiscoveryEndpoint" where
  "DiscoveryEndpoint_ipv4 address = DiscoveryEndpoint (V4 address) None"

definition DiscoveryEndpoint_ipv6 :: "128 word \<Rightarrow> u32 \<Rightarrow> DiscoveryEndpoint" where
  "DiscoveryEndpoint_ipv6 address scope_id = DiscoveryEndpoint (V6 address) (Some scope_id)"

record DiscoveredPeer =
  peer_key :: TransientDiscoveryKey
  peer_metadata :: DiscoveryMetadata
  peer_port :: u16
  peer_endpoints :: "DiscoveryEndpoint list"
  peer_protocol_major :: u16

section \<open>Errors and events\<close>

datatype DiscoveryBrowserErrorKind =
    Initialization | Browse | InvalidTransientKey | MalformedResolution | InvalidPort | EndpointLimit
  | Metadata | IncompatibleProtocol | Daemon | StopBrowse | Shutdown

datatype error_source = MetadataSource DiscoveryMetadataError | ForeignSource foreign_error

record DiscoveryBrowserError =
  error_kind :: DiscoveryBrowserErrorKind
  error_key :: "TransientDiscoveryKey option"
  error_cause :: "error_source option"

definition without_source :: "DiscoveryBrowserErrorKind \<Rightarrow> DiscoveryBrowserError" where
  "without_source kind = \<lparr>error_kind = kind, error_key = None, error_cause = None\<rparr>"

definition for_key :: "DiscoveryBrowserErrorKind \<Rightarrow> TransientDiscoveryKey \<Rightarrow> DiscoveryBrowserError" where
  "for_key kind key = \<lparr>error_kind = kind, error_key = Some key, error_cause = None\<rparr>"

definition with_source :: "DiscoveryBrowserErrorKind \<Rightarrow> error_source \<Rightarrow> DiscoveryBrowserError" where
  "with_source kind source = \<lparr>error_kind = kind, error_key = None, error_cause = Some source\<rparr>"

definition for_key_with_source ::
  "DiscoveryBrowserErrorKind \<Rightarrow> TransientDiscoveryKey \<Rightarrow> error_source \<Rightarrow> DiscoveryBrowserError" where
  "for_key_with_source kind key source =
     \<lparr>error_kind = kind, error_key = Some key, error_cause = Some source\<rparr>"

definition display_DiscoveryBrowserError :: "DiscoveryBrowserError \<Rightarrow> rstr" where
  "display_DiscoveryBrowserError e = (case error_kind e of
     Initialization \<Rightarrow> ascii ''failed to initialize mDNS browsing''
   | Browse \<Rightarrow> ascii ''failed to start the DNS-SD browse request''
   | InvalidTransientKey \<Rightarrow> ascii ''invalid transient DNS-SD service key''
   | MalformedResolution \<Rightarrow> ascii ''resolved DNS-SD service has no usable endpoints''
   | InvalidPort \<Rightarrow> ascii ''resolved DNS-SD service advertised port zero''
   | EndpointLimit \<Rightarrow> ascii ''resolved DNS-SD service exceeds the endpoint limit''
   | Metadata \<Rightarrow> ascii ''invalid discovery TXT metadata''
   | IncompatibleProtocol \<Rightarrow> ascii ''discovered service has no compatible protocol major''
   | Daemon \<Rightarrow> ascii ''the mDNS browser daemon reported an error''
   | StopBrowse \<Rightarrow> ascii ''failed to stop the DNS-SD browse request''
   | Shutdown \<Rightarrow> ascii ''failed to shut down the mDNS browser daemon'')"

datatype DiscoveryBrowserEvent =
    Added DiscoveredPeer
  | Updated DiscoveredPeer
  | Refreshed DiscoveredPeer
  | Removed TransientDiscoveryKey
  | Error DiscoveryBrowserError

section \<open>Transient keys\<close>

text \<open>
  The final slice \<^verbatim>\<open>&value[..instance_len]\<close> is taken only when the suffix test
  succeeded, so the split below always exists there.
\<close>

definition TransientDiscoveryKey_new :: "rstr \<Rightarrow> DiscoveryBrowserError + TransientDiscoveryKey" where
  "TransientDiscoveryKey_new v =
     (let instance_len = (if str_len TRANSIENT_KEY_SUFFIX \<le> str_len v
                          then Some (str_len v - str_len TRANSIENT_KEY_SUFFIX) else None);
          has_service_suffix = (case instance_len of
              None \<Rightarrow> False
            | Some offset \<Rightarrow> (case split_at_byte v offset of
                  None \<Rightarrow> False
                | Some (_, suffix) \<Rightarrow> eq_ignore_ascii_case suffix TRANSIENT_KEY_SUFFIX))
      in case instance_len of
           None \<Rightarrow> Err (without_source InvalidTransientKey)
         | Some n \<Rightarrow>
             if str_len v > MAX_TRANSIENT_DISCOVERY_KEY_BYTES \<or> \<not> has_service_suffix
                \<or> n = 0 \<or> has_control v
             then Err (without_source InvalidTransientKey)
             else (case split_at_byte v n of
                 Some (instance_label, _) \<Rightarrow> Ok (TransientDiscoveryKey (instance_label @ TRANSIENT_KEY_SUFFIX))
               | None \<Rightarrow> Err (without_source InvalidTransientKey)))"

section \<open>The coalescing state\<close>

record RawResolvedService =
  raw_fullname :: rstr
  raw_port :: u16
  raw_endpoints :: "DiscoveryEndpoint list"
  raw_txt :: "DiscoveryTxtEntry list"

datatype RawBrowserEvent =
    Resolved RawResolvedService
  | Removed rstr
  | Error DiscoveryBrowserError

record BrowserState =
  peers :: "(TransientDiscoveryKey, DiscoveredPeer) hash_map"

definition BrowserState_default :: BrowserState where
  "BrowserState_default = \<lparr>peers = []\<rparr>"

text \<open>A \<^verbatim>\<open>BTreeSet\<close> collected from an iterator and read back in order.\<close>

definition btree_set :: "'a::linorder list \<Rightarrow> 'a list" where
  "btree_set xs = sort (remdups xs)"

definition BrowserState_resolve ::
  "BrowserState \<Rightarrow> RawResolvedService \<Rightarrow>
     (DiscoveryBrowserError + DiscoveryBrowserEvent option) \<times> BrowserState" where
  "BrowserState_resolve self resolved =
     (case TransientDiscoveryKey_new (raw_fullname resolved) of
        Err e \<Rightarrow> (Err e, self)
      | Ok key \<Rightarrow>
     if raw_port resolved = 0 then (Err (for_key InvalidPort key), self)
     else let endpoints = btree_set (raw_endpoints resolved) in
     if endpoints = [] then (Err (for_key MalformedResolution key), self)
     else if length endpoints > MAX_DISCOVERED_ENDPOINTS then (Err (for_key EndpointLimit key), self)
     else (case from_txt_entries (raw_txt resolved) of
        Err source \<Rightarrow> (Err (for_key_with_source Metadata key (MetadataSource source)), self)
      | Ok metadata \<Rightarrow>
     (case highest_compatible_version DiscoveryProtocolRange_initial (md_protocols metadata) of
        None \<Rightarrow> (Err (for_key IncompatibleProtocol key), self)
      | Some protocol_major \<Rightarrow>
     let peer = \<lparr>peer_key = key, peer_metadata = metadata, peer_port = raw_port resolved,
                 peer_endpoints = endpoints, peer_protocol_major = protocol_major\<rparr>
     in (case hm_get (peers self) key of
           Some previous \<Rightarrow>
             if previous = peer then (Ok (Some (Refreshed peer)), self)
             else (Ok (Some (Updated peer)), self\<lparr>peers := hm_insert key peer (peers self)\<rparr>)
         | None \<Rightarrow> (Ok (Some (Added peer)), self\<lparr>peers := hm_insert key peer (peers self)\<rparr>)))))"

fun BrowserState_translate ::
  "BrowserState \<Rightarrow> RawBrowserEvent \<Rightarrow> DiscoveryBrowserEvent option \<times> BrowserState" where
  "BrowserState_translate self (Resolved resolved) =
     (case BrowserState_resolve self resolved of
        (Ok (Some event), self') \<Rightarrow> (Some event, self')
      | (Ok None, self') \<Rightarrow> (None, self')
      | (Err e, self') \<Rightarrow> (Some (DiscoveryBrowserEvent.Error e), self'))"
| "BrowserState_translate self (RawBrowserEvent.Removed fullname) =
     (case TransientDiscoveryKey_new fullname of
        Err e \<Rightarrow> (Some (DiscoveryBrowserEvent.Error e), self)
      | Ok key \<Rightarrow>
          (map_option (\<lambda>_. DiscoveryBrowserEvent.Removed key) (hm_get (peers self) key),
           self\<lparr>peers := hm_remove key (peers self)\<rparr>))"
| "BrowserState_translate self (RawBrowserEvent.Error e) = (Some (DiscoveryBrowserEvent.Error e), self)"

section \<open>Sessions\<close>

text \<open>
  The trait \<^verbatim>\<open>BrowserBackend\<close>: its three methods over a backend state \<open>'b\<close>, which
  includes whatever the backend acts on.
\<close>

record 'b BrowserBackend =
  backend_poll_event :: "'b \<Rightarrow> RawBrowserEvent option \<times> 'b"
  backend_stop :: "'b \<Rightarrow> (DiscoveryBrowserError + unit) \<times> 'b"
  backend_best_effort_stop :: "'b \<Rightarrow> 'b"

record 'b BrowserSession =
  session_backend :: 'b
  session_state :: BrowserState
  session_active :: bool

definition BrowserSession_start ::
  "(DiscoveryBrowserError + 'b) \<Rightarrow> DiscoveryBrowserError + 'b BrowserSession" where
  "BrowserSession_start start_backend =
     map_ok (\<lambda>backend. \<lparr>session_backend = backend, session_state = BrowserState_default,
                        session_active = True\<rparr>) start_backend"

definition BrowserSession_poll_event ::
  "'b BrowserBackend \<Rightarrow> 'b BrowserSession \<Rightarrow> DiscoveryBrowserEvent option \<times> 'b BrowserSession" where
  "BrowserSession_poll_event B self =
     (if \<not> session_active self then (None, self)
      else case backend_poll_event B (session_backend self) of
          (None, backend) \<Rightarrow> (None, self\<lparr>session_backend := backend\<rparr>)
        | (Some raw, backend) \<Rightarrow>
            (case BrowserState_translate (session_state self) raw of
               (event, state) \<Rightarrow> (event, self\<lparr>session_backend := backend, session_state := state\<rparr>)))"

definition BrowserSession_stop ::
  "'b BrowserBackend \<Rightarrow> 'b BrowserSession \<Rightarrow> (DiscoveryBrowserError + unit) \<times> 'b BrowserSession" where
  "BrowserSession_stop B self =
     (if \<not> session_active self then (Ok (), self)
      else case backend_stop B (session_backend self) of
          (Err e, backend) \<Rightarrow> (Err e, self\<lparr>session_backend := backend\<rparr>)
        | (Ok _, backend) \<Rightarrow> (Ok (), self\<lparr>session_backend := backend, session_active := False\<rparr>))"

definition BrowserSession_drop :: "'b BrowserBackend \<Rightarrow> 'b BrowserSession \<Rightarrow> 'b BrowserSession" where
  "BrowserSession_drop B self =
     (if session_active self
      then self\<lparr>session_backend := backend_best_effort_stop B (session_backend self)\<rparr> else self)"

section \<open>The mDNS backend\<close>

record 'd MdnsBrowserBackend =
  mb_daemon :: 'd
  mb_services :: "ServiceEvent receiver"
  mb_daemon_events :: "DaemonEvent receiver"

text \<open>The assertion that \<^verbatim>\<open>MdnsBrowserBackend::start\<close> makes in debug builds.\<close>

lemma LOCAL_SERVICE_TYPE_suffix: "LOCAL_SERVICE_TYPE = DISCOVERY_SERVICE_TYPE @ ascii ''.local.''"
  by (simp add: LOCAL_SERVICE_TYPE_def DISCOVERY_SERVICE_TYPE_def ascii_def)

definition MdnsBrowserBackend_start ::
  "('w, 'd, 'i) mdns \<Rightarrow> 'w \<Rightarrow> (DiscoveryBrowserError + 'd MdnsBrowserBackend) \<times> 'w" where
  "MdnsBrowserBackend_start M w =
     (case daemon_new M w of
        (Err source, w) \<Rightarrow> (Err (with_source Initialization (ForeignSource source)), w)
      | (Ok daemon, w) \<Rightarrow>
     (case daemon_monitor M daemon w of
        (Err source, w) \<Rightarrow>
          (Err (with_source Initialization (ForeignSource source)), snd (daemon_shutdown M daemon w))
      | (Ok daemon_events, w) \<Rightarrow>
     (case daemon_browse M daemon LOCAL_SERVICE_TYPE w of
        (Err source, w) \<Rightarrow>
          (Err (with_source Browse (ForeignSource source)), snd (daemon_shutdown M daemon w))
      | (Ok services, w) \<Rightarrow>
          (Ok \<lparr>mb_daemon = daemon, mb_services = services, mb_daemon_events = daemon_events\<rparr>, w))))"

fun poll_daemon_error :: "DaemonEvent receiver \<Rightarrow> RawBrowserEvent option \<times> DaemonEvent receiver" where
  "poll_daemon_error [] = (None, [])"
| "poll_daemon_error (r # rs) =
     (case r of
        Ok (DaemonError source) \<Rightarrow>
          (Some (RawBrowserEvent.Error (with_source Daemon (ForeignSource source))), rs)
      | Ok _ \<Rightarrow> poll_daemon_error rs
      | Err RecvEmpty \<Rightarrow> (None, rs)
      | Err (RecvFailed source) \<Rightarrow>
          (Some (RawBrowserEvent.Error (with_source Daemon (ForeignSource source))), rs))"

fun endpoint_of_ip :: "ScopedIp \<Rightarrow> DiscoveryEndpoint option" where
  "endpoint_of_ip (ScopedV4 a) = Some (DiscoveryEndpoint_ipv4 a)"
| "endpoint_of_ip (ScopedV6 a scope) = Some (DiscoveryEndpoint_ipv6 a scope)"
| "endpoint_of_ip OtherIp = None"

definition raw_service :: "ResolvedService \<Rightarrow> DiscoveryBrowserError + RawResolvedService" where
  "raw_service service =
     and_then (TransientDiscoveryKey_new (get_fullname service)) (\<lambda>key.
     and_then (map_err (\<lambda>source. for_key_with_source Metadata key (MetadataSource source))
       (collect_results (\<lambda>p. DiscoveryTxtEntry_new (property_key p)
            (case property_val p of None \<Rightarrow> [] | Some v \<Rightarrow> v)) (get_properties service))) (\<lambda>txt.
     Ok \<lparr>raw_fullname = get_fullname service, raw_port = get_port service,
         raw_endpoints = List.map_filter endpoint_of_ip (get_addresses service), raw_txt = txt\<rparr>))"

fun poll_services :: "ServiceEvent receiver \<Rightarrow> RawBrowserEvent option \<times> ServiceEvent receiver" where
  "poll_services [] = (None, [])"
| "poll_services (r # rs) =
     (case r of
        Ok (ServiceResolved service) \<Rightarrow>
          (Some (case raw_service service of
                   Ok resolved \<Rightarrow> Resolved resolved
                 | Err e \<Rightarrow> RawBrowserEvent.Error e), rs)
      | Ok (ServiceRemoved _ fullname) \<Rightarrow> (Some (RawBrowserEvent.Removed fullname), rs)
      | Ok _ \<Rightarrow> poll_services rs
      | Err RecvEmpty \<Rightarrow> (None, rs)
      | Err (RecvFailed source) \<Rightarrow>
          (Some (RawBrowserEvent.Error (with_source Daemon (ForeignSource source))), rs))"

definition MdnsBrowserBackend_poll_event ::
  "'d MdnsBrowserBackend \<Rightarrow> RawBrowserEvent option \<times> 'd MdnsBrowserBackend" where
  "MdnsBrowserBackend_poll_event self =
     (case poll_daemon_error (mb_daemon_events self) of
        (Some e, daemon_events) \<Rightarrow> (Some e, self\<lparr>mb_daemon_events := daemon_events\<rparr>)
      | (None, daemon_events) \<Rightarrow>
          (case poll_services (mb_services self) of
             (event, services) \<Rightarrow>
               (event, self\<lparr>mb_daemon_events := daemon_events, mb_services := services\<rparr>)))"

definition browser_shutdown ::
  "('w, 'd, 'i) mdns \<Rightarrow> 'd \<Rightarrow> 'w \<Rightarrow> (DiscoveryBrowserError + unit) \<times> 'w" where
  "browser_shutdown M daemon w =
     (case daemon_shutdown M daemon w of
        (Err source, w) \<Rightarrow> (Err (with_source Shutdown (ForeignSource source)), w)
      | (Ok receiver, w) \<Rightarrow>
          (case receiver STOP_TIMEOUT of
             Ok DaemonShutdown \<Rightarrow> (Ok (), w)
           | Ok _ \<Rightarrow> (Err (without_source Shutdown), w)
           | Err source \<Rightarrow> (Err (with_source Shutdown (ForeignSource source)), w)))"

definition MdnsBrowserBackend_stop ::
  "('w, 'd, 'i) mdns \<Rightarrow> 'd MdnsBrowserBackend \<Rightarrow> 'w \<Rightarrow> (DiscoveryBrowserError + unit) \<times> 'w" where
  "MdnsBrowserBackend_stop M self w =
     (case daemon_stop_browse M (mb_daemon self) LOCAL_SERVICE_TYPE w of
        (browse_result, w) \<Rightarrow>
          (case browser_shutdown M (mb_daemon self) w of
             (shutdown_result, w) \<Rightarrow>
               (and_then (map_err (\<lambda>source. with_source StopBrowse (ForeignSource source)) browse_result)
                  (\<lambda>_. shutdown_result), w)))"

definition MdnsBrowserBackend_best_effort_stop ::
  "('w, 'd, 'i) mdns \<Rightarrow> 'd MdnsBrowserBackend \<Rightarrow> 'w \<Rightarrow> 'w" where
  "MdnsBrowserBackend_best_effort_stop M self w =
     snd (daemon_shutdown M (mb_daemon self)
       (snd (daemon_stop_browse M (mb_daemon self) LOCAL_SERVICE_TYPE w)))"

text \<open>The \<^verbatim>\<open>impl BrowserBackend for MdnsBrowserBackend\<close>, with the world beside it.\<close>

definition mdns_browser_backend :: "('w, 'd, 'i) mdns \<Rightarrow> ('d MdnsBrowserBackend \<times> 'w) BrowserBackend" where
  "mdns_browser_backend M =
     \<lparr>backend_poll_event = (\<lambda>(b, w). case MdnsBrowserBackend_poll_event b of (e, b) \<Rightarrow> (e, (b, w))),
      backend_stop = (\<lambda>(b, w). case MdnsBrowserBackend_stop M b w of (r, w) \<Rightarrow> (r, (b, w))),
      backend_best_effort_stop = (\<lambda>(b, w). (b, MdnsBrowserBackend_best_effort_stop M b w))\<rparr>"

type_synonym ('w, 'd) DiscoveryBrowser = "('d MdnsBrowserBackend \<times> 'w) BrowserSession"

definition DiscoveryBrowser_start ::
  "('w, 'd, 'i) mdns \<Rightarrow> 'w \<Rightarrow> (DiscoveryBrowserError + ('w, 'd) DiscoveryBrowser) \<times> 'w" where
  "DiscoveryBrowser_start M w =
     (case MdnsBrowserBackend_start M w of
        (r, w) \<Rightarrow> (BrowserSession_start (map_ok (\<lambda>b. (b, w)) r), w))"

definition DiscoveryBrowser_poll_event ::
  "('w, 'd, 'i) mdns \<Rightarrow> ('w, 'd) DiscoveryBrowser \<Rightarrow>
     DiscoveryBrowserEvent option \<times> ('w, 'd) DiscoveryBrowser" where
  "DiscoveryBrowser_poll_event M self = BrowserSession_poll_event (mdns_browser_backend M) self"

definition DiscoveryBrowser_stop ::
  "('w, 'd, 'i) mdns \<Rightarrow> ('w, 'd) DiscoveryBrowser \<Rightarrow>
     (DiscoveryBrowserError + unit) \<times> ('w, 'd) DiscoveryBrowser" where
  "DiscoveryBrowser_stop M self = BrowserSession_stop (mdns_browser_backend M) self"

section \<open>Facts about keys and endpoint sets\<close>

lemma btree_set: "set (btree_set xs) = set xs" "sorted (btree_set xs)" "distinct (btree_set xs)"
  by (simp_all add: btree_set_def)

lemma btree_set_cong: "set xs = set ys \<Longrightarrow> btree_set xs = btree_set ys"
  by (metis btree_set sorted_distinct_set_unique)

lemma len_utf8_lower: "len_utf8 (to_ascii_lower c) = len_utf8 c"
  by (simp add: len_utf8_def to_ascii_lower_def)

lemma str_len_ignore_case: "eq_ignore_ascii_case a b \<Longrightarrow> str_len a = str_len b"
proof -
  have "str_len (map to_ascii_lower s) = str_len s" for s
    by (induction s) (simp_all add: len_utf8_lower)
  then show "eq_ignore_ascii_case a b \<Longrightarrow> str_len a = str_len b"
    by (metis eq_ignore_ascii_case_def)
qed

lemma key_new_cases:
  "TransientDiscoveryKey_new v = Err (without_source InvalidTransientKey) \<or>
     (\<exists>k. TransientDiscoveryKey_new v = Ok k)"
  by (auto simp: TransientDiscoveryKey_new_def Let_def split: option.splits)

lemma key_new_Ok:
  "TransientDiscoveryKey_new v = Ok k \<longleftrightarrow>
     (\<exists>label suffix. v = label @ suffix \<and> eq_ignore_ascii_case suffix TRANSIENT_KEY_SUFFIX \<and>
        label \<noteq> [] \<and> \<not> has_control v \<and> str_len v \<le> MAX_TRANSIENT_DISCOVERY_KEY_BYTES \<and>
        k = TransientDiscoveryKey (label @ TRANSIENT_KEY_SUFFIX))"
  (is "?l \<longleftrightarrow> ?r")
proof
  assume ?l
  then obtain label suffix where "split_at_byte v (str_len v - str_len TRANSIENT_KEY_SUFFIX) = Some (label, suffix)"
      and "eq_ignore_ascii_case suffix TRANSIENT_KEY_SUFFIX" "str_len v - str_len TRANSIENT_KEY_SUFFIX \<noteq> 0"
      "\<not> has_control v" "str_len v \<le> MAX_TRANSIENT_DISCOVERY_KEY_BYTES"
      "k = TransientDiscoveryKey (label @ TRANSIENT_KEY_SUFFIX)"
    by (auto simp: TransientDiscoveryKey_new_def Let_def not_less split: option.splits if_splits)
  then show ?r unfolding split_at_byte_Some by (metis str_len_simps(1))
next
  assume ?r
  then obtain label suffix where v: "v = label @ suffix"
      "eq_ignore_ascii_case suffix TRANSIENT_KEY_SUFFIX" "label \<noteq> []" "\<not> has_control v"
      "str_len v \<le> MAX_TRANSIENT_DISCOVERY_KEY_BYTES"
      "k = TransientDiscoveryKey (label @ TRANSIENT_KEY_SUFFIX)"
    by blast
  note len = str_len_ignore_case [OF v(2)]
  have "split_at_byte v (str_len v - str_len TRANSIENT_KEY_SUFFIX) = Some (label, suffix)"
    unfolding split_at_byte_Some using v(1) len by simp
  moreover have "str_len label \<noteq> 0" using v(3) by (cases label) auto
  ultimately show ?l
    using v len by (simp add: TransientDiscoveryKey_new_def Let_def)
qed

definition wf_key :: "TransientDiscoveryKey \<Rightarrow> bool" where
  "wf_key k \<longleftrightarrow> TransientDiscoveryKey_new (key_as_str k) = Ok k"

lemma suffix_no_control: "\<not> has_control TRANSIENT_KEY_SUFFIX"
  by (simp add: TRANSIENT_KEY_SUFFIX_def has_control_def text_simps)

lemma key_new_wf: "TransientDiscoveryKey_new v = Ok k \<Longrightarrow> wf_key k"
  unfolding wf_key_def key_new_Ok
  using suffix_no_control str_len_ignore_case
  by (metis TransientDiscoveryKey.sel eq_ignore_ascii_case_def has_control_simps(3) str_len_simps(3))

text \<open>Two spellings of a fullname that differ in the case of the service suffix are one key.\<close>

lemma key_new_suffix_case:
  "eq_ignore_ascii_case suffix TRANSIENT_KEY_SUFFIX \<Longrightarrow> \<not> has_control suffix \<Longrightarrow>
     result_ok (TransientDiscoveryKey_new (label @ suffix)) =
     result_ok (TransientDiscoveryKey_new (label @ TRANSIENT_KEY_SUFFIX))"
proof -
  assume s: "eq_ignore_ascii_case suffix TRANSIENT_KEY_SUFFIX" "\<not> has_control suffix"
  note len = str_len_ignore_case [OF s(1)]
  have split: "split_at_byte (label @ t) (str_len (label @ t) - str_len TRANSIENT_KEY_SUFFIX) = Some (label, t)"
    if "str_len t = str_len TRANSIENT_KEY_SUFFIX" for t
    unfolding split_at_byte_Some using that by simp
  show ?thesis
    using split [OF len] split [OF refl] s len suffix_no_control
    by (simp add: TransientDiscoveryKey_new_def Let_def eq_ignore_ascii_case_def)
qed

section \<open>Facts about the coalescing state\<close>

text \<open>The reference: validate the resolution on its own, then compare with the stored peer.\<close>

definition validate_service :: "RawResolvedService \<Rightarrow> DiscoveryBrowserError + DiscoveredPeer" where
  "validate_service r =
     and_then (TransientDiscoveryKey_new (raw_fullname r)) (\<lambda>key.
     if raw_port r = 0 then Err (for_key InvalidPort key)
     else if raw_endpoints r = [] then Err (for_key MalformedResolution key)
     else if card (set (raw_endpoints r)) > MAX_DISCOVERED_ENDPOINTS then Err (for_key EndpointLimit key)
     else and_then (map_err (\<lambda>s. for_key_with_source Metadata key (MetadataSource s))
            (from_txt_entries (raw_txt r))) (\<lambda>md.
     if in_range INITIAL_PROTOCOL_MAJOR (md_protocols md)
     then Ok \<lparr>peer_key = key, peer_metadata = md, peer_port = raw_port r,
              peer_endpoints = btree_set (raw_endpoints r), peer_protocol_major = INITIAL_PROTOCOL_MAJOR\<rparr>
     else Err (for_key IncompatibleProtocol key)))"

definition presence_event :: "DiscoveredPeer option \<Rightarrow> DiscoveredPeer \<Rightarrow> DiscoveryBrowserEvent" where
  "presence_event old p =
     (case old of None \<Rightarrow> Added p | Some q \<Rightarrow> if q = p then Refreshed p else Updated p)"

lemma compatible_initial:
  assumes "range_min r \<le> range_max r"
  shows "highest_compatible_version DiscoveryProtocolRange_initial r =
    (if in_range INITIAL_PROTOCOL_MAJOR r then Some INITIAL_PROTOCOL_MAJOR else None)"
proof -
  have "highest_compatible_version DiscoveryProtocolRange_initial r = Some v \<longleftrightarrow>
      v = INITIAL_PROTOCOL_MAJOR \<and> in_range INITIAL_PROTOCOL_MAJOR r" for v
    unfolding highest_compatible_Some
    by (auto simp: in_range_def DiscoveryProtocolRange_initial_def)
  then show ?thesis by (metis option.exhaust)
qed

lemma length_btree_set: "length (btree_set xs) = card (set xs)"
  by (metis btree_set(1,3) distinct_card)

lemma btree_set_Nil: "btree_set xs = [] \<longleftrightarrow> xs = []"
  by (metis btree_set(1) set_empty)

lemma resolve_spec:
  "BrowserState_resolve st r = (case validate_service r of
     Err e \<Rightarrow> (Err e, st)
   | Ok p \<Rightarrow> (Ok (Some (presence_event (hm_get (peers st) (peer_key p)) p)),
        if hm_get (peers st) (peer_key p) = Some p then st
        else st\<lparr>peers := hm_insert (peer_key p) p (peers st)\<rparr>))"
proof (cases "TransientDiscoveryKey_new (raw_fullname r)")
  case (Inr key)
  show ?thesis
  proof (cases "from_txt_entries (raw_txt r)")
    case (Inr md)
    then have "range_min (md_protocols md) \<le> range_max (md_protocols md)"
      using from_txt_wf by (auto simp: wf_metadata_def)
    then show ?thesis
      using Inr \<open>TransientDiscoveryKey_new _ = _\<close>
      by (simp add: BrowserState_resolve_def validate_service_def compatible_initial Let_def
          presence_event_def length_btree_set btree_set_Nil split: option.split)
  qed (use \<open>TransientDiscoveryKey_new _ = _\<close> in
      \<open>simp add: BrowserState_resolve_def validate_service_def Let_def length_btree_set btree_set_Nil\<close>)
qed (simp add: BrowserState_resolve_def validate_service_def)

definition wf_peer :: "DiscoveredPeer \<Rightarrow> bool" where
  "wf_peer p \<longleftrightarrow> wf_key (peer_key p) \<and> wf_metadata (peer_metadata p) \<and> peer_port p \<noteq> 0 \<and>
     sorted (peer_endpoints p) \<and> distinct (peer_endpoints p) \<and> peer_endpoints p \<noteq> [] \<and>
     length (peer_endpoints p) \<le> MAX_DISCOVERED_ENDPOINTS \<and>
     peer_protocol_major p = INITIAL_PROTOCOL_MAJOR \<and>
     in_range (peer_protocol_major p) (md_protocols (peer_metadata p))"

lemma validate_service_wf: "validate_service r = Ok p \<Longrightarrow> wf_peer p"
  by (auto simp: validate_service_def wf_peer_def result_simps length_btree_set btree_set btree_set_Nil
      not_less split: if_splits intro: key_new_wf from_txt_wf)

definition browser_inv :: "BrowserState \<Rightarrow> bool" where
  "browser_inv st \<longleftrightarrow> hm_invar (peers st) \<and>
     (\<forall>k p. hm_get (peers st) k = Some p \<longrightarrow> peer_key p = k \<and> wf_peer p)"

lemma browser_inv_default: "browser_inv BrowserState_default"
  by (simp add: browser_inv_def BrowserState_default_def)

lemma translate_resolved:
  assumes "BrowserState_translate st (Resolved r) = (ev, st')"
  obtains (rejected) e where "validate_service r = Err e" "ev = Some (DiscoveryBrowserEvent.Error e)" "st' = st"
  | (same) p where "validate_service r = Ok p" "hm_get (peers st) (peer_key p) = Some p"
      "ev = Some (Refreshed p)" "st' = st"
  | (stored) p where "validate_service r = Ok p" "hm_get (peers st) (peer_key p) \<noteq> Some p"
      "ev = Some (presence_event (hm_get (peers st) (peer_key p)) p)"
      "st' = st\<lparr>peers := hm_insert (peer_key p) p (peers st)\<rparr>"
proof (cases "validate_service r")
  case (Inl e)
  then show thesis using assms by (intro rejected [of e]) (simp_all add: resolve_spec)
next
  case (Inr p)
  show thesis
  proof (cases "hm_get (peers st) (peer_key p) = Some p")
    case True
    then show thesis using assms Inr by (intro same [of p]) (simp_all add: resolve_spec presence_event_def)
  next
    case False
    then show thesis using assms Inr by (intro stored [of p]) (simp_all add: resolve_spec)
  qed
qed

lemma translate_removed:
  assumes "BrowserState_translate st (RawBrowserEvent.Removed fullname) = (ev, st')"
  obtains (rejected) e where "TransientDiscoveryKey_new fullname = Err e"
      "ev = Some (DiscoveryBrowserEvent.Error e)" "st' = st"
  | (removed) k where "TransientDiscoveryKey_new fullname = Ok k"
      "ev = (if hm_get (peers st) k = None then None else Some (DiscoveryBrowserEvent.Removed k))"
      "st' = st\<lparr>peers := hm_remove k (peers st)\<rparr>"
proof (cases "TransientDiscoveryKey_new fullname")
  case (Inl e)
  then show thesis using assms by (intro rejected [of e]) simp_all
next
  case (Inr k)
  then show thesis
    using assms by (intro removed [of k]) (cases "hm_get (peers st) k", simp_all)+
qed

lemma browser_inv_put:
  "browser_inv st \<Longrightarrow> wf_peer p \<Longrightarrow>
     browser_inv (st\<lparr>peers := hm_insert (peer_key p) p (peers st)\<rparr>)"
  by (simp add: browser_inv_def hm.get_put hm.invar_put)

lemma browser_inv_remove: "browser_inv st \<Longrightarrow> browser_inv (st\<lparr>peers := hm_remove k (peers st)\<rparr>)"
  by (simp add: browser_inv_def hm.get_del hm.invar_del)

lemma browser_inv_translate:
  assumes inv: "browser_inv st" and step: "BrowserState_translate st raw = (ev, st')"
  shows "browser_inv st'"
proof (cases raw)
  case (Resolved r)
  with step have "BrowserState_translate st (Resolved r) = (ev, st')" by simp
  then show ?thesis
    by (cases rule: translate_resolved) (use inv validate_service_wf browser_inv_put in auto)
next
  case (Removed fullname)
  with step have "BrowserState_translate st (RawBrowserEvent.Removed fullname) = (ev, st')" by simp
  then show ?thesis
    by (cases rule: translate_removed) (use inv browser_inv_remove in auto)
qed (use inv step in simp)

text \<open>What each event says about the change of the lookup function.\<close>

fun event_effect :: "DiscoveryBrowserEvent option \<Rightarrow>
    (TransientDiscoveryKey \<Rightarrow> DiscoveredPeer option) \<Rightarrow>
    (TransientDiscoveryKey \<Rightarrow> DiscoveredPeer option) \<Rightarrow> bool" where
  "event_effect None f g \<longleftrightarrow> g = f"
| "event_effect (Some (Added p)) f g \<longleftrightarrow> f (peer_key p) = None \<and> g = f(peer_key p \<mapsto> p)"
| "event_effect (Some (Updated p)) f g \<longleftrightarrow>
     (\<exists>q. f (peer_key p) = Some q \<and> q \<noteq> p) \<and> g = f(peer_key p \<mapsto> p)"
| "event_effect (Some (Refreshed p)) f g \<longleftrightarrow> f (peer_key p) = Some p \<and> g = f"
| "event_effect (Some (DiscoveryBrowserEvent.Removed k)) f g \<longleftrightarrow> f k \<noteq> None \<and> g = f(k := None)"
| "event_effect (Some (DiscoveryBrowserEvent.Error e)) f g \<longleftrightarrow> g = f"

lemma presence_effect: "f (peer_key p) \<noteq> Some p \<Longrightarrow> event_effect (Some (presence_event (f (peer_key p)) p)) f (f(peer_key p \<mapsto> p))"
  by (cases "f (peer_key p)") (simp_all add: presence_event_def)

lemma translate_effect:
  assumes inv: "browser_inv st" and step: "BrowserState_translate st raw = (ev, st')"
  shows "event_effect ev (hm_get (peers st)) (hm_get (peers st'))"
proof -
  have m: "hm_invar (peers st)" using inv by (simp add: browser_inv_def)
  show ?thesis
  proof (cases raw)
    case (Resolved r)
    with step have "BrowserState_translate st (Resolved r) = (ev, st')" by simp
    then show ?thesis
      by (cases rule: translate_resolved)
        (simp_all add: presence_effect hm.get_put [OF m])
  next
    case (Removed fullname)
    with step have "BrowserState_translate st (RawBrowserEvent.Removed fullname) = (ev, st')" by simp
    then show ?thesis
      by (cases rule: translate_removed)
        (simp_all add: hm.get_del [OF m] fun_upd_idem)
  qed (use step in auto)
qed

fun event_wf :: "DiscoveryBrowserEvent \<Rightarrow> bool" where
  "event_wf (Added p) \<longleftrightarrow> wf_peer p"
| "event_wf (Updated p) \<longleftrightarrow> wf_peer p"
| "event_wf (Refreshed p) \<longleftrightarrow> wf_peer p"
| "event_wf (DiscoveryBrowserEvent.Removed k) \<longleftrightarrow> wf_key k"
| "event_wf (DiscoveryBrowserEvent.Error e) \<longleftrightarrow> True"

lemma event_wf_presence [simp]: "event_wf (presence_event old p) \<longleftrightarrow> wf_peer p"
  by (simp add: presence_event_def split: option.split)

lemma translate_event_wf:
  assumes step: "BrowserState_translate st raw = (Some ev, st')"
  shows "event_wf ev"
proof (cases raw)
  case (Resolved r)
  with step have "BrowserState_translate st (Resolved r) = (Some ev, st')" by simp
  then show ?thesis
    by (cases rule: translate_resolved) (use validate_service_wf in auto)
next
  case (Removed fullname)
  with step have "BrowserState_translate st (RawBrowserEvent.Removed fullname) = (Some ev, st')" by simp
  then show ?thesis
    by (cases rule: translate_removed) (auto simp: key_new_wf split: if_splits)
qed (use step in auto)

section \<open>Facts about sessions\<close>

interpretation browser_session: owned_session session_active "BrowserSession_stop B" "BrowserSession_drop B"
  for B :: "'b BrowserBackend"
  by unfold_locales
    (auto simp: BrowserSession_stop_def BrowserSession_drop_def split: prod.splits sum.splits if_splits)

lemma poll_keeps_inv:
  assumes "browser_inv (session_state s)" "BrowserSession_poll_event B s = (ev, s')"
  shows "browser_inv (session_state s')" "session_active s' = session_active s"
  using assms browser_inv_translate
  by (auto simp: BrowserSession_poll_event_def split: if_splits prod.splits option.splits)

text \<open>No started daemon is left running by a failed start.\<close>

lemma browse_failure_shuts_down:
  assumes "MdnsBrowserBackend_start M w = (Err e, w')" "daemon_new M w = (Ok d, w1)"
  shows "\<exists>w2. w' = snd (daemon_shutdown M d w2)"
  using assms by (auto simp: MdnsBrowserBackend_start_def split: prod.splits sum.splits)

lemma mdns_stop_shuts_down:
  "MdnsBrowserBackend_stop M b w = (r, w') \<Longrightarrow>
     w' = snd (daemon_shutdown M (mb_daemon b) (snd (daemon_stop_browse M (mb_daemon b) LOCAL_SERVICE_TYPE w)))"
  by (auto simp: MdnsBrowserBackend_stop_def browser_shutdown_def split: prod.splits sum.splits
      DaemonStatus.splits)

lemma poll_services_decreases: "length (snd (poll_services rs)) \<le> length rs"
  by (induction rs rule: poll_services.induct) (auto split: sum.splits ServiceEvent.splits TryRecvError.splits)

end
