(* ===== verification/Discovery_Properties.thy ===== *)
theory Discovery_Properties
  imports Browser Advertisement
begin

text \<open>
  What makes the announcement side of discovery correct: version negotiation, name hints, the
  TXT schema (\<^verbatim>\<open>discovery.rs\<close>), the advertised service
  (\<^verbatim>\<open>advertisement.rs\<close>) and its reading by a browsing peer
  (\<^verbatim>\<open>browser.rs\<close>).
\<close>

definition sample_metadata :: DiscoveryMetadata where
  "sample_metadata = \<lparr>md_protocols = \<lparr>range_min = 1, range_max = 2\<rparr>,
     md_name = Some (DiscoveryNameHint (ascii ''Ana'')), md_platform = Some DiscoveryPlatformHint.Linux\<rparr>"

lemma sample_metadata_wf: "wf_metadata sample_metadata"
  by (simp add: sample_metadata_def wf_metadata_def hint_new_Ok MAX_DISCOVERY_NAME_BYTES_def
      trim_eq_Nil is_whitespace_def text_simps has_control_def valid_str_def)

section \<open>Versions and names\<close>

text \<open>The negotiated version is the highest one both ranges contain; there is none exactly
  when the ranges share no version.\<close>

theorem negotiated_version_is_highest_common:
  "highest_compatible_version a b =
     (if \<exists>v. in_range v a \<and> in_range v b
      then Some (Max {v. in_range v a \<and> in_range v b}) else None)"
proof -
  let ?S = "{v. in_range v a \<and> in_range v b}"
  have max: "highest_compatible_version a b = Some v \<longleftrightarrow> v \<in> ?S \<and> (\<forall>w\<in>?S. w \<le> v)" for v
    by (simp add: highest_compatible_Some)
  show ?thesis
  proof (cases "\<exists>v. in_range v a \<and> in_range v b")
    case True
    then have "highest_compatible_version a b = Some (Max ?S)"
      unfolding max using Max_in [of ?S] Max_ge [of ?S] by auto
    with True show ?thesis by simp
  next
    case False
    then show ?thesis using max by (cases "highest_compatible_version a b") auto
  qed
qed

text \<open>C37. A valid device name always yields a valid name hint: the longest prefix of the name,
  cut between characters, whose UTF-8 text has at most 96 bytes. The slicing never panics.\<close>

theorem name_hint_is_longest_prefix:
  assumes "wf_device_name n"
  shows "\<exists>h rest. from_device_name n = Some h \<and> DeviceName_as_str n = DiscoveryNameHint_as_str h @ rest \<and>
    DiscoveryNameHint_new (DiscoveryNameHint_as_str h) = Ok h \<and>
    str_len (DiscoveryNameHint_as_str h) \<le> 96 \<and>
    (rest \<noteq> [] \<longrightarrow> 96 < str_len (DiscoveryNameHint_as_str h @ [hd rest]))"
proof -
  obtain h where h: "from_device_name n = Some h" using from_device_name_total by blast
  then show ?thesis
    using from_device_name_prefix [OF h] from_device_name_valid(1) [OF assms h]
    by (auto simp: MAX_DISCOVERY_NAME_BYTES_def)
qed

theorem name_hint_is_longest_prefix_witness:
  "\<exists>h rest. from_device_name DeviceName_default = Some h \<and>
    DeviceName_as_str DeviceName_default = DiscoveryNameHint_as_str h @ rest"
  using name_hint_is_longest_prefix [OF wf_device_name_default] by blast

section \<open>The TXT schema\<close>

text \<open>C35. Every well-formed metadata survives the TXT round trip, and the emitted entries stay
  within the documented limits for a single entry and for the whole set.\<close>

theorem txt_roundtrip_within_limits:
  assumes "wf_metadata md"
  shows "from_txt_entries (to_txt_entries md) = Ok md \<and>
    total_encoded_size (to_txt_entries md) \<le> 150 \<and>
    (\<forall>e\<in>set (to_txt_entries md). encoded_size e \<le> MAX_DISCOVERY_TXT_ENTRY_BYTES)"
  using from_txt_to_txt [OF assms] to_txt_size [OF assms] encoded_size_le_total
  by (fastforce simp: discovery_bounds)

theorem txt_roundtrip_within_limits_witness:
  "from_txt_entries (to_txt_entries sample_metadata) = Ok sample_metadata"
  using txt_roundtrip_within_limits [OF sample_metadata_wf] by blast

text \<open>Whatever entries a peer sends, accepted metadata is well formed: an ordered protocol
  range and, where a name is present, a valid bounded hint.\<close>

theorem accepted_metadata_wf:
  assumes "from_txt_entries es = Ok md"
  shows "wf_metadata md"
  by (rule from_txt_wf [OF assms])

theorem accepted_metadata_wf_witness: "wf_metadata sample_metadata"
  by (rule accepted_metadata_wf [OF from_txt_to_txt [OF sample_metadata_wf]])

text \<open>The order in which a responder lists its TXT entries does not matter: reordered
  entries are accepted alike and mean the same metadata.\<close>

theorem txt_order_irrelevant:
  assumes "mset es = mset fs"
  shows "result_ok (from_txt_entries es) = result_ok (from_txt_entries fs)"
  by (rule from_txt_perm [OF assms])

theorem txt_order_irrelevant_witness:
  "result_ok (from_txt_entries (rev (to_txt_entries sample_metadata))) = Some sample_metadata"
  using txt_order_irrelevant [of "rev (to_txt_entries sample_metadata)" "to_txt_entries sample_metadata"]
  by (simp add: from_txt_to_txt [OF sample_metadata_wf])

text \<open>Forward compatibility: within the size limit, entries with unknown keys change
  nothing, neither the metadata read nor the error reported.\<close>

theorem unknown_txt_keys_ignored:
  assumes "total_encoded_size es \<le> MAX_DISCOVERY_TXT_BYTES"
  shows "from_txt_entries (filter is_known es) = from_txt_entries es"
  by (rule from_txt_ignores_unknown [OF assms])

theorem unknown_txt_keys_ignored_witness:
  "from_txt_entries (filter is_known [emitted (ascii ''zz'') []]) = from_txt_entries [emitted (ascii ''zz'') []]"
  by (rule unknown_txt_keys_ignored)
    (simp add: emitted_def encoded_size_def discovery_bounds text_simps)

section \<open>Advertising and being discovered\<close>



text \<open>Stopping is final and idempotent: a successful stop of an advertisement leaves it
  inactive, after which further stops succeed without touching the daemon and dropping does
  nothing; a failed stop leaves it active, so it can be retried.\<close>

theorem advertisement_stop_life_cycle:
  assumes "AdvertisementSession_stop B s = (r, s')"
  shows "(Advertisement.session_active s' \<longleftrightarrow> \<not> is_ok r) \<and>
    (is_ok r \<longrightarrow> AdvertisementSession_stop B s' = (Ok (), s') \<and> AdvertisementSession_drop B s' = s')"
  using advertisement_session.stop_keeps_trying [OF assms] advertisement_session.stop_again assms
  by (cases r) auto

theorem advertisement_stop_life_cycle_witness:
  "\<not> Advertisement.session_active (snd (AdvertisementSession_stop
     \<lparr>AdvertisementBackend.backend_stop = \<lambda>b. (Ok (), b), AdvertisementBackend.backend_best_effort_stop = id\<rparr>
     \<lparr>session_spec = undefined, session_backend = (0 :: nat), session_active = True\<rparr>))"
  using advertisement_stop_life_cycle
    [of "\<lparr>AdvertisementBackend.backend_stop = \<lambda>b. (Ok (), b), AdvertisementBackend.backend_best_effort_stop = id\<rparr>"
        "\<lparr>session_spec = undefined, session_backend = (0 :: nat), session_active = True\<rparr>"]
  by (simp add: AdvertisementSession_stop_def is_ok_def)

end
