(* ===== verification/Discovered_Peers.thy ===== *)
theory Discovered_Peers
  imports Browser
begin

text \<open>
  The advisory state of currently visible peers
  (\<^verbatim>\<open>crates/local-transfer-core/src/discovered_peers.rs\<close>): observation, removal, expiry
  and the bounded tombstones that keep late input from undoing a newer transition. Operations
  return \<open>None\<close> where the source would panic: on the underflow of the visible count and on
  \<^verbatim>\<open>expect\<close>.
\<close>

section \<open>State and transitions\<close>

definition MAX_RETAINED_TOMBSTONES :: nat where
  "MAX_RETAINED_TOMBSTONES = 256"

definition TOMBSTONE_RETENTION :: duration where
  "TOMBSTONE_RETENTION = from_secs 300"

record VisibleDiscoveredPeer =
  visible_peer :: DiscoveredPeer
  last_observed_at :: duration

datatype DiscoveredPeerRemovalReason = Explicit | Expired

datatype DiscoveredPeerNoopReason = AlreadyAbsent | Stale

datatype DiscoveredPeerTransition =
    Appeared TransientDiscoveryKey
  | Refreshed TransientDiscoveryKey
  | Updated TransientDiscoveryKey
  | Removed TransientDiscoveryKey DiscoveredPeerRemovalReason
  | Noop TransientDiscoveryKey DiscoveredPeerNoopReason
  | Rejected DiscoveryBrowserError

record PeerRecord =
  visible :: "VisibleDiscoveredPeer option"
  last_transition_at :: duration

record DiscoveredPeerState =
  records :: "(TransientDiscoveryKey, PeerRecord) hash_map"
  visible_count :: nat

definition DiscoveredPeerState_new :: DiscoveredPeerState where
  "DiscoveredPeerState_new = \<lparr>records = [], visible_count = 0\<rparr>"

definition DiscoveredPeerState_len :: "DiscoveredPeerState \<Rightarrow> nat" where
  "DiscoveredPeerState_len self = visible_count self"

definition DiscoveredPeerState_is_empty :: "DiscoveredPeerState \<Rightarrow> bool" where
  "DiscoveredPeerState_is_empty self \<longleftrightarrow> visible_count self = 0"

definition DiscoveredPeerState_get ::
  "DiscoveredPeerState \<Rightarrow> TransientDiscoveryKey \<Rightarrow> DiscoveredPeer option" where
  "DiscoveredPeerState_get self key =
     Option.bind (hm_get (records self) key) (\<lambda>r. map_option visible_peer (visible r))"

definition DiscoveredPeerState_iter :: "DiscoveredPeerState \<Rightarrow> DiscoveredPeer list" where
  "DiscoveredPeerState_iter self =
     List.map_filter (\<lambda>(_, r). map_option visible_peer (visible r)) (records self)"

section \<open>Operations\<close>

definition prune_tombstones :: "DiscoveredPeerState \<Rightarrow> duration \<Rightarrow> DiscoveredPeerState" where
  "prune_tombstones self now =
     (let retained = hm_retain (\<lambda>r. visible r \<noteq> None \<or> now < last_transition_at r
                       \<or> now - last_transition_at r \<le> TOMBSTONE_RETENTION) (records self);
          tombstones = map (\<lambda>(key, r). (last_transition_at r, key))
                       (filter (\<lambda>(_, r). visible r = None) retained)
      in if length tombstones \<le> MAX_RETAINED_TOMBSTONES then self\<lparr>records := retained\<rparr>
         else let excess = length tombstones - MAX_RETAINED_TOMBSTONES
              in self\<lparr>records := foldl (\<lambda>m (_, key). hm_remove key m) retained
                                   (take excess (sort tombstones))\<rparr>)"

definition observe ::
  "DiscoveredPeerState \<Rightarrow> DiscoveredPeer \<Rightarrow> duration \<Rightarrow> DiscoveredPeerTransition \<times> DiscoveredPeerState" where
  "observe self peer observed_at =
     (let key = peer_key peer;
          rec = \<lparr>visible = Some \<lparr>visible_peer = peer, last_observed_at = observed_at\<rparr>,
                 last_transition_at = observed_at\<rparr>
      in case hm_get (records self) key of
           Some r \<Rightarrow>
             if observed_at < last_transition_at r then (Noop key Stale, self)
             else if visible r = None \<and> observed_at = last_transition_at r then (Noop key Stale, self)
             else (case visible r of
                 Some v \<Rightarrow>
                   (if visible_peer v = peer then Refreshed key else Updated key,
                    self\<lparr>records := hm_insert key rec (records self)\<rparr>)
               | None \<Rightarrow>
                   (Appeared key,
                    self\<lparr>records := hm_insert key rec (records self),
                         visible_count := visible_count self + 1\<rparr>))
         | None \<Rightarrow>
             (Appeared key,
              self\<lparr>records := hm_insert key rec (records self),
                   visible_count := visible_count self + 1\<rparr>))"

definition remove ::
  "DiscoveredPeerState \<Rightarrow> TransientDiscoveryKey \<Rightarrow> duration \<Rightarrow>
     (DiscoveredPeerTransition \<times> DiscoveredPeerState) option" where
  "remove self key removed_at =
     (case hm_get (records self) key of
        Some r \<Rightarrow>
          if removed_at < last_transition_at r then Some (Noop key Stale, self)
          else if visible r \<noteq> None then
            (if visible_count self = 0 then None
             else Some (Removed key Explicit,
               self\<lparr>records := hm_insert key \<lparr>visible = None, last_transition_at = removed_at\<rparr> (records self),
                    visible_count := visible_count self - 1\<rparr>))
          else Some (Noop key AlreadyAbsent,
               self\<lparr>records := hm_insert key
                 (r\<lparr>last_transition_at := max (last_transition_at r) removed_at\<rparr>) (records self)\<rparr>)
      | None \<Rightarrow>
          Some (Noop key AlreadyAbsent,
            self\<lparr>records := hm_insert key \<lparr>visible = None, last_transition_at = removed_at\<rparr> (records self)\<rparr>))"

fun DiscoveredPeerState_apply ::
  "DiscoveredPeerState \<Rightarrow> DiscoveryBrowserEvent \<Rightarrow> duration \<Rightarrow>
     (DiscoveredPeerTransition \<times> DiscoveredPeerState) option" where
  "DiscoveredPeerState_apply self (DiscoveryBrowserEvent.Added peer) observed_at =
     Some (observe (prune_tombstones self observed_at) peer observed_at)"
| "DiscoveredPeerState_apply self (DiscoveryBrowserEvent.Updated peer) observed_at =
     Some (observe (prune_tombstones self observed_at) peer observed_at)"
| "DiscoveredPeerState_apply self (DiscoveryBrowserEvent.Refreshed peer) observed_at =
     Some (observe (prune_tombstones self observed_at) peer observed_at)"
| "DiscoveredPeerState_apply self (DiscoveryBrowserEvent.Removed key) observed_at =
     map_option (\<lambda>(transition, state). (transition, prune_tombstones state observed_at))
       (remove (prune_tombstones self observed_at) key observed_at)"
| "DiscoveredPeerState_apply self (DiscoveryBrowserEvent.Error e) observed_at = Some (Rejected e, self)"

definition is_expired :: "duration \<Rightarrow> duration \<Rightarrow> PeerRecord \<Rightarrow> bool" where
  "is_expired now stale_after r =
     (case visible r of
        None \<Rightarrow> False
      | Some v \<Rightarrow> now \<ge> last_observed_at v \<and> now - last_observed_at v \<ge> stale_after)"

text \<open>One step of the loop over the expired keys.\<close>

definition expire_one :: "duration \<Rightarrow> TransientDiscoveryKey \<Rightarrow> DiscoveredPeerState \<Rightarrow> DiscoveredPeerState option" where
  "expire_one now key self =
     (case hm_get (records self) key of
        None \<Rightarrow> None
      | Some r \<Rightarrow>
          if visible_count self = 0 then None
          else Some (self\<lparr>records := hm_insert key \<lparr>visible = None, last_transition_at = now\<rparr> (records self),
                          visible_count := visible_count self - 1\<rparr>))"

fun expire_all :: "duration \<Rightarrow> TransientDiscoveryKey list \<Rightarrow> DiscoveredPeerState \<Rightarrow> DiscoveredPeerState option" where
  "expire_all now [] self = Some self"
| "expire_all now (key # keys) self = Option.bind (expire_one now key self) (expire_all now keys)"

definition DiscoveredPeerState_expire ::
  "DiscoveredPeerState \<Rightarrow> duration \<Rightarrow> duration \<Rightarrow>
     (DiscoveredPeerTransition list \<times> DiscoveredPeerState) option" where
  "DiscoveredPeerState_expire self now stale_after =
     (let self = prune_tombstones self now;
          expired = sort (map fst (filter (\<lambda>(_, r). is_expired now stale_after r) (records self)))
      in map_option (\<lambda>state. (map (\<lambda>key. Removed key Expired) expired, prune_tombstones state now))
           (expire_all now expired self))"

section \<open>The invariant\<close>

definition is_visible :: "PeerRecord \<Rightarrow> bool" where
  "is_visible r \<longleftrightarrow> visible r \<noteq> None"

definition visible_keys :: "DiscoveredPeerState \<Rightarrow> TransientDiscoveryKey set" where
  "visible_keys st = hits is_visible (hm_get (records st))"

definition tombstone_count :: "DiscoveredPeerState \<Rightarrow> nat" where
  "tombstone_count st = card (hits (\<lambda>r. visible r = None) (hm_get (records st)))"

definition record_ok :: "TransientDiscoveryKey \<Rightarrow> PeerRecord \<Rightarrow> bool" where
  "record_ok k r \<longleftrightarrow> (\<forall>v. visible r = Some v \<longrightarrow> peer_key (visible_peer v) = k \<and>
     last_observed_at v = last_transition_at r)"

definition peers_inv :: "DiscoveredPeerState \<Rightarrow> bool" where
  "peers_inv st \<longleftrightarrow> hm_invar (records st) \<and> visible_count st = card (visible_keys st) \<and>
     (\<forall>k r. hm_get (records st) k = Some r \<longrightarrow> record_ok k r)"

lemma peers_inv_new: "peers_inv DiscoveredPeerState_new" "tombstone_count DiscoveredPeerState_new = 0"
  by (simp_all add: peers_inv_def DiscoveredPeerState_new_def visible_keys_def tombstone_count_def hits_def)

lemma get_dom: "DiscoveredPeerState_get st k \<noteq> None \<longleftrightarrow> k \<in> visible_keys st"
  by (auto simp: DiscoveredPeerState_get_def visible_keys_def hits_def bind_eq_Some_conv is_visible_def)

lemma peers_invD:
  assumes "peers_inv st"
  shows "hm_invar (records st)" "visible_count st = card (visible_keys st)"
    "hm_get (records st) k = Some r \<Longrightarrow> record_ok k r" "finite (visible_keys st)"
  using assms hm.finite_hits by (auto simp: peers_inv_def visible_keys_def)

text \<open>Storing a record and adjusting the count keeps the invariant.\<close>

lemma peers_inv_insert:
  assumes "peers_inv st" "record_ok k r"
    "n + (if k \<in> visible_keys st then 1 else 0) = visible_count st + (if is_visible r then 1 else 0)"
  shows "peers_inv (st\<lparr>records := hm_insert k r (records st), visible_count := n\<rparr>)"
proof -
  note D = peers_invD [OF assms(1)]
  have upd: "hits is_visible ((hm_get (records st))(k \<mapsto> r)) =
      (if is_visible r then insert k (visible_keys st) else visible_keys st - {k})"
    by (simp add: hits_update visible_keys_def)
  have pos: "k \<in> visible_keys st \<Longrightarrow> 0 < card (visible_keys st)"
    using D(4) by (auto simp: card_gt_0_iff)
  have "card (hits is_visible ((hm_get (records st))(k \<mapsto> r))) = n"
    unfolding upd using assms(3) D(2,4) pos
    by (cases "k \<in> visible_keys st"; cases "is_visible r") (simp_all add: insert_absorb)
  then show ?thesis
    using D(1,3) assms(2) by (auto simp: peers_inv_def visible_keys_def hm.get_put hm.invar_put)
qed

section \<open>Pruning\<close>

definition remove_all ::
  "(TransientDiscoveryKey, PeerRecord) hash_map \<Rightarrow> (duration \<times> TransientDiscoveryKey) list \<Rightarrow>
     (TransientDiscoveryKey, PeerRecord) hash_map" where
  "remove_all m ks = foldl (\<lambda>m (_, key). hm_remove key m) m ks"

lemma remove_all_get:
  "hm_invar m \<Longrightarrow>
     hm_get (remove_all m ks) = (hm_get m) |` (- (snd ` set ks)) \<and> hm_invar (remove_all m ks)"
  unfolding remove_all_def
proof (induction ks arbitrary: m)
  case (Cons e ks)
  then show ?case
    by (cases e) (auto simp: hm.invar_del hm.get_del fun_eq_iff restrict_map_def)
qed (simp add: restrict_map_def)

definition tombs :: "(TransientDiscoveryKey, PeerRecord) hash_map \<Rightarrow> (duration \<times> TransientDiscoveryKey) list" where
  "tombs m = map (\<lambda>(key, r). (last_transition_at r, key)) (filter (\<lambda>(_, r). visible r = None) m)"

definition not_outdated :: "duration \<Rightarrow> PeerRecord \<Rightarrow> bool" where
  "not_outdated now r \<longleftrightarrow> visible r \<noteq> None \<or> now < last_transition_at r
     \<or> now - last_transition_at r \<le> TOMBSTONE_RETENTION"

definition evicted :: "DiscoveredPeerState \<Rightarrow> duration \<Rightarrow> (duration \<times> TransientDiscoveryKey) list" where
  "evicted st now = (let ts = tombs (hm_retain (not_outdated now) (records st))
     in take (length ts - MAX_RETAINED_TOMBSTONES) (sort ts))"

lemma prune_alt:
  "prune_tombstones st now =
     st\<lparr>records := remove_all (hm_retain (not_outdated now) (records st)) (evicted st now)\<rparr>"
  by (simp add: prune_tombstones_def tombs_def evicted_def remove_all_def Let_def not_outdated_def [abs_def])

lemma tombs_set:
  assumes "hm_invar m"
  shows "(t, k) \<in> set (tombs m) \<longleftrightarrow> (\<exists>r. hm_get m k = Some r \<and> visible r = None \<and> last_transition_at r = t)"
  by (force simp: tombs_def hm_get_Some [OF assms])

lemma tombs_distinct: "hm_invar m \<Longrightarrow> distinct (map snd (tombs m))"
  unfolding tombs_def hm_invar_def by (induction m) (force split: prod.splits)+

lemma length_tombs: "hm_invar m \<Longrightarrow> length (tombs m) = card (hits (\<lambda>r. visible r = None) (hm_get m))"
  by (simp add: card_hits_hm_get tombs_def split_def)

lemma prune_get:
  assumes "peers_inv st"
  shows "hm_get (records (prune_tombstones st now)) k =
    (case hm_get (records st) k of
       None \<Rightarrow> None
     | Some r \<Rightarrow> if not_outdated now r \<and> k \<notin> snd ` set (evicted st now) then Some r else None)"
proof -
  have m: "hm_invar (records st)" using peers_invD(1) [OF assms] .
  show ?thesis
    using remove_all_get [OF hm.invar_keep [OF m]]
    by (auto simp: prune_alt hm.get_keep [OF m] restrict_map_def split: option.splits)
qed

lemma evicted_tombstones:
  assumes "peers_inv st" "k \<in> snd ` set (evicted st now)"
  shows "\<exists>r. hm_get (records st) k = Some r \<and> visible r = None"
proof -
  have m: "hm_invar (records st)" using peers_invD(1) [OF assms(1)] .
  obtain t where "(t, k) \<in> set (tombs (hm_retain (not_outdated now) (records st)))"
    using assms(2) by (auto simp: evicted_def Let_def dest: in_set_takeD)
  then show ?thesis
    unfolding tombs_set [OF hm.invar_keep [OF m]] hm.get_keep [OF m]
    by (auto split: option.splits if_splits)
qed

lemma prune_visible:
  assumes "peers_inv st" "hm_get (records st) k = Some r" "visible r \<noteq> None"
  shows "hm_get (records (prune_tombstones st now)) k = Some r"
proof -
  have "k \<notin> snd ` set (evicted st now)" using evicted_tombstones [OF assms(1)] assms(2,3) by fastforce
  with assms show ?thesis by (simp add: prune_get not_outdated_def)
qed

lemma prune_get_subset:
  "peers_inv st \<Longrightarrow> hm_get (records (prune_tombstones st now)) k = Some r \<Longrightarrow> hm_get (records st) k = Some r"
  by (auto simp: prune_get split: option.splits if_splits)

lemma prune_visible_keys: "peers_inv st \<Longrightarrow> visible_keys (prune_tombstones st now) = visible_keys st"
  unfolding visible_keys_def hits_def is_visible_def
  using prune_visible prune_get_subset by blast

lemma prune_peers: "peers_inv st \<Longrightarrow> DiscoveredPeerState_get (prune_tombstones st now) k = DiscoveredPeerState_get st k"
proof (cases "hm_get (records st) k")
  case (Some r)
  assume inv: "peers_inv st"
  show ?thesis
  proof (cases "visible r")
    case None
    with Some inv show ?thesis by (simp add: DiscoveredPeerState_get_def prune_get)
  next
    case (Some v)
    with \<open>hm_get _ _ = _\<close> prune_visible [OF inv, of k r now] show ?thesis
      by (simp add: DiscoveredPeerState_get_def)
  qed
qed (simp add: DiscoveredPeerState_get_def prune_get)

lemma prune_inv:
  assumes "peers_inv st"
  shows "peers_inv (prune_tombstones st now)"
proof -
  have m: "hm_invar (records st)" using peers_invD(1) [OF assms] .
  have "hm_invar (records (prune_tombstones st now))"
    using remove_all_get [OF hm.invar_keep [OF m]] by (simp add: prune_alt)
  moreover have "visible_count (prune_tombstones st now) = visible_count st" by (simp add: prune_alt)
  ultimately show ?thesis
    unfolding peers_inv_def [of "prune_tombstones st now"] prune_visible_keys [OF assms]
    using peers_invD(2,3) [OF assms] prune_get_subset [OF assms] by auto
qed

lemma prune_bound:
  assumes "peers_inv st"
  shows "tombstone_count (prune_tombstones st now) \<le> MAX_RETAINED_TOMBSTONES"
proof -
  have m: "hm_invar (records st)" using peers_invD(1) [OF assms] .
  define ret where "ret = hm_retain (not_outdated now) (records st)"
  define T where "T = snd ` set (tombs ret)"
  have ret: "hm_invar ret" using hm.invar_keep [OF m] by (simp add: ret_def)
  have T: "T = hits (\<lambda>r. visible r = None) (hm_get ret)"
    by (auto simp: T_def hits_def image_iff Bex_def tombs_set [OF ret])
  have ev: "evicted st now = take (length (tombs ret) - MAX_RETAINED_TOMBSTONES) (sort (tombs ret))"
    by (simp add: evicted_def ret_def Let_def)
  have E: "snd ` set (evicted st now) \<subseteq> T"
    by (auto simp: ev T_def dest!: in_set_takeD)
  have "distinct (map snd (sort (tombs ret)))"
    using tombs_distinct [OF ret] by (metis mset_map mset_sort mset_eq_imp_distinct_iff)
  then have "distinct (map snd (evicted st now))"
    unfolding ev take_map [symmetric] by (rule distinct_take)
  then have cE: "card (snd ` set (evicted st now)) = length (tombs ret) - MAX_RETAINED_TOMBSTONES"
    using distinct_card [of "map snd (evicted st now)"] by (simp add: ev)
  have "hits (\<lambda>r. visible r = None) (hm_get (records (prune_tombstones st now))) = T - snd ` set (evicted st now)"
    using remove_all_get [OF ret, of "evicted st now"]
    by (auto simp: prune_alt T ret_def [symmetric] hits_def restrict_map_def split: if_splits)
  moreover have "card (T - snd ` set (evicted st now)) = card T - card (snd ` set (evicted st now))"
    by (rule card_Diff_subset [OF _ E]) simp
  ultimately show ?thesis
    using cE length_tombs [OF ret] by (simp add: tombstone_count_def T)
qed

section \<open>Effects of the operations\<close>

fun transition_effect :: "DiscoveredPeerTransition \<Rightarrow>
    (TransientDiscoveryKey \<Rightarrow> DiscoveredPeer option) \<Rightarrow>
    (TransientDiscoveryKey \<Rightarrow> DiscoveredPeer option) \<Rightarrow> bool" where
  "transition_effect (Appeared k) f g \<longleftrightarrow> f k = None \<and> (\<exists>p. peer_key p = k \<and> g = f(k \<mapsto> p))"
| "transition_effect (Refreshed k) f g \<longleftrightarrow> f k \<noteq> None \<and> g = f"
| "transition_effect (Updated k) f g \<longleftrightarrow>
     (\<exists>p q. f k = Some q \<and> q \<noteq> p \<and> peer_key p = k \<and> g = f(k \<mapsto> p))"
| "transition_effect (Removed k _) f g \<longleftrightarrow> f k \<noteq> None \<and> g = f(k := None)"
| "transition_effect (Noop k AlreadyAbsent) f g \<longleftrightarrow> f k = None \<and> g = f"
| "transition_effect (Noop k Stale) f g \<longleftrightarrow> g = f"
| "transition_effect (Rejected e) f g \<longleftrightarrow> g = f"

lemma get_insert:
  assumes "hm_invar (records st)"
  shows "DiscoveredPeerState_get (st\<lparr>records := hm_insert k r (records st), visible_count := n\<rparr>) =
    (DiscoveredPeerState_get st)(k := map_option visible_peer (visible r))"
  using hm.get_put [OF assms] by (simp add: DiscoveredPeerState_get_def fun_eq_iff)

lemma tombs_insert:
  assumes "hm_invar (records st)"
  shows "hits (\<lambda>r. visible r = None) (hm_get (hm_insert k r (records st))) \<subseteq>
    (if visible r = None then {k} else {}) \<union> hits (\<lambda>r. visible r = None) (hm_get (records st))"
  using hm.get_put [OF assms] by (auto simp: hits_update)

text \<open>The outcomes of an observation, by the record it meets.\<close>

lemma observe_cases:
  assumes "observe st p t = (tr, st')"
  defines "rec \<equiv> \<lparr>visible = Some \<lparr>visible_peer = p, last_observed_at = t\<rparr>, last_transition_at = t\<rparr>"
  obtains (stale) r where "hm_get (records st) (peer_key p) = Some r"
      "t < last_transition_at r \<or> visible r = None \<and> t = last_transition_at r"
      "tr = Noop (peer_key p) Stale" "st' = st"
  | (again) r v where "hm_get (records st) (peer_key p) = Some r" "visible r = Some v"
      "last_transition_at r \<le> t"
      "tr = (if visible_peer v = p then Refreshed (peer_key p) else Updated (peer_key p))"
      "st' = st\<lparr>records := hm_insert (peer_key p) rec (records st)\<rparr>"
  | (fresh) "DiscoveredPeerState_get st (peer_key p) = None" "tr = Appeared (peer_key p)"
      "\<And>r. hm_get (records st) (peer_key p) = Some r \<Longrightarrow> last_transition_at r < t"
      "st' = st\<lparr>records := hm_insert (peer_key p) rec (records st), visible_count := visible_count st + 1\<rparr>"
proof (cases "hm_get (records st) (peer_key p)")
  case None
  then show thesis
    using assms by (intro fresh) (auto simp: observe_def Let_def DiscoveredPeerState_get_def)
next
  case (Some r)
  show thesis
  proof (cases "t < last_transition_at r \<or> visible r = None \<and> t = last_transition_at r")
    case True
    then show thesis using assms(1) Some by (intro stale [of r]) (auto simp: observe_def Let_def)
  next
    case False
    show thesis
    proof (cases "visible r")
      case None
      then show thesis
        using assms Some False
        by (intro fresh) (auto simp: observe_def Let_def DiscoveredPeerState_get_def)
    next
      case (Some v)
      then show thesis
        using assms \<open>hm_get _ _ = _\<close> False
        by (intro again [of r v]) (auto simp: observe_def Let_def)
    qed
  qed
qed

lemma observe_effect:
  assumes inv: "peers_inv st" and step: "observe st p t = (tr, st')"
  shows "peers_inv st'" "tombstone_count st' \<le> tombstone_count st"
    "transition_effect tr (DiscoveredPeerState_get st) (DiscoveredPeerState_get st')"
    "tr \<noteq> Noop (peer_key p) Stale \<Longrightarrow> DiscoveredPeerState_get st' = (DiscoveredPeerState_get st)(peer_key p \<mapsto> p)"
proof -
  let ?rec = "\<lparr>visible = Some \<lparr>visible_peer = p, last_observed_at = t\<rparr>, last_transition_at = t\<rparr>"
  note m = peers_invD(1) [OF inv]
  have ok: "record_ok (peer_key p) ?rec" "is_visible ?rec"
    by (simp_all add: record_ok_def is_visible_def)
  have tombs: "tombstone_count (st\<lparr>records := hm_insert (peer_key p) ?rec (records st), visible_count := n\<rparr>)
      \<le> tombstone_count st" for n
    unfolding tombstone_count_def
    using tombs_insert [OF m, where k = "peer_key p" and r = ?rec] by (simp add: card_mono hm.finite_hits [OF m])
  have same: "st\<lparr>records := x\<rparr> = st\<lparr>records := x, visible_count := visible_count st\<rparr>" for x by simp
  note put = peers_inv_insert [OF inv ok(1)] get_insert [OF m, where k = "peer_key p" and r = ?rec]
  from step have "peers_inv st' \<and> tombstone_count st' \<le> tombstone_count st \<and>
      transition_effect tr (DiscoveredPeerState_get st) (DiscoveredPeerState_get st') \<and>
      (tr \<noteq> Noop (peer_key p) Stale \<longrightarrow>
        DiscoveredPeerState_get st' = (DiscoveredPeerState_get st)(peer_key p \<mapsto> p))"
  proof (cases rule: observe_cases)
    case (stale r)
    with inv show ?thesis by simp
  next
    case (again r v)
    have get: "DiscoveredPeerState_get st (peer_key p) = Some (visible_peer v)"
      using again(1,2) by (simp add: DiscoveredPeerState_get_def)
    then have "peer_key p \<in> visible_keys st" using get_dom by blast
    then have "peers_inv st'"
      unfolding again(5) by (subst same) (rule put(1), simp add: ok(2))
    moreover have "DiscoveredPeerState_get st' = (DiscoveredPeerState_get st)(peer_key p \<mapsto> p)"
      unfolding again(5) by (subst same, subst put(2)) simp
    moreover have "tombstone_count st' \<le> tombstone_count st"
      unfolding again(5) by (subst same) (rule tombs)
    ultimately show ?thesis
      unfolding again(4) using get by (auto simp: fun_upd_idem)
  next
    case fresh
    then have "peer_key p \<notin> visible_keys st" using get_dom by blast
    then have "peers_inv st'" unfolding fresh(4) by (intro put(1)) (simp add: ok(2))
    moreover have "DiscoveredPeerState_get st' = (DiscoveredPeerState_get st)(peer_key p \<mapsto> p)"
      unfolding fresh(4) by (simp add: put(2))
    moreover have "tombstone_count st' \<le> tombstone_count st"
      unfolding fresh(4) by (rule tombs)
    ultimately show ?thesis unfolding fresh(2) using fresh(1) by auto
  qed
  then show "peers_inv st'" "tombstone_count st' \<le> tombstone_count st"
    "transition_effect tr (DiscoveredPeerState_get st) (DiscoveredPeerState_get st')"
    "tr \<noteq> Noop (peer_key p) Stale \<Longrightarrow> DiscoveredPeerState_get st' = (DiscoveredPeerState_get st)(peer_key p \<mapsto> p)"
    by auto
qed

lemma remove_cases:
  assumes "remove st k t = out"
  obtains (stale) r where "hm_get (records st) k = Some r" "t < last_transition_at r"
      "out = Some (Noop k Stale, st)"
  | (panic) "k \<in> visible_keys st" "visible_count st = 0" "out = None"
  | (gone) r where "hm_get (records st) k = Some r" "last_transition_at r \<le> t" "k \<in> visible_keys st"
      "visible_count st \<noteq> 0"
      "out = Some (Removed k Explicit,
         st\<lparr>records := hm_insert k \<lparr>visible = None, last_transition_at = t\<rparr> (records st),
            visible_count := visible_count st - 1\<rparr>)"
  | (absent) r where "k \<notin> visible_keys st" "visible r = None" "last_transition_at r = t"
      "\<And>r'. hm_get (records st) k = Some r' \<Longrightarrow> last_transition_at r' \<le> t"
      "out = Some (Noop k AlreadyAbsent, st\<lparr>records := hm_insert k r (records st), visible_count := visible_count st\<rparr>)"
proof (cases "hm_get (records st) k")
  case None
  then show thesis
    using assms by (intro absent) (auto simp: remove_def visible_keys_def hits_def)
next
  case (Some r)
  have vis: "k \<in> visible_keys st \<longleftrightarrow> visible r \<noteq> None"
    using Some by (simp add: visible_keys_def hits_def is_visible_def)
  consider "t < last_transition_at r" | "last_transition_at r \<le> t" "visible r \<noteq> None" "visible_count st = 0"
    | "last_transition_at r \<le> t" "visible r \<noteq> None" "visible_count st \<noteq> 0"
    | "last_transition_at r \<le> t" "visible r = None"
    by fastforce
  then show thesis
  proof cases
    case 1
    then show thesis using assms Some by (intro stale [of r]) (simp_all add: remove_def)
  next
    case 2
    then show thesis using assms Some vis by (intro panic) (simp_all add: remove_def)
  next
    case 3
    then show thesis using assms Some vis by (intro gone [of r]) (simp_all add: remove_def)
  next
    case 4
    then show thesis
      using assms Some vis
      by (intro absent [of "r\<lparr>last_transition_at := max (last_transition_at r) t\<rparr>"])
        (simp_all add: remove_def)
  qed
qed

lemma remove_effect:
  assumes inv: "peers_inv st"
  shows "\<exists>tr st'. remove st k t = Some (tr, st') \<and> peers_inv st' \<and>
    transition_effect tr (DiscoveredPeerState_get st) (DiscoveredPeerState_get st') \<and>
    (tr \<noteq> Noop k Stale \<longrightarrow> DiscoveredPeerState_get st' = (DiscoveredPeerState_get st)(k := None))"
proof -
  note m = peers_invD(1) [OF inv] and fin = peers_invD(2,4) [OF inv]
  have absent_ok: "record_ok k r" if "visible r = None" for r using that by (simp add: record_ok_def)
  obtain out where out: "remove st k t = out" by simp
  then show ?thesis
  proof (cases rule: remove_cases)
    case (stale r)
    with inv out show ?thesis by simp
  next
    case panic
    then have False using fin by (auto simp: card_eq_0_iff)
    then show ?thesis ..
  next
    case (gone r)
    let ?r = "\<lparr>visible = None, last_transition_at = t\<rparr>"
    let ?st = "st\<lparr>records := hm_insert k ?r (records st), visible_count := visible_count st - 1\<rparr>"
    have "peers_inv ?st"
      by (rule peers_inv_insert [OF inv absent_ok]) (use gone in \<open>simp_all add: is_visible_def\<close>)
    moreover have "DiscoveredPeerState_get ?st = (DiscoveredPeerState_get st)(k := None)"
      by (simp add: get_insert [OF m])
    moreover have "DiscoveredPeerState_get st k \<noteq> None" using gone(3) get_dom by blast
    ultimately show ?thesis using gone(5) out by simp
  next
    case (absent r)
    let ?st = "st\<lparr>records := hm_insert k r (records st), visible_count := visible_count st\<rparr>"
    have "peers_inv ?st"
      by (rule peers_inv_insert [OF inv absent_ok]) (use absent in \<open>simp_all add: is_visible_def\<close>)
    moreover have none: "DiscoveredPeerState_get st k = None" using absent(1) get_dom by blast
    moreover have "DiscoveredPeerState_get ?st = (DiscoveredPeerState_get st)(k := None)"
      unfolding get_insert [OF m] by (simp add: absent(2))
    ultimately show ?thesis
      using absent(5) out fun_upd_idem [of "DiscoveredPeerState_get st" k None] by simp
  qed
qed

lemma prune_peers_fun [simp]:
  "peers_inv st \<Longrightarrow> DiscoveredPeerState_get (prune_tombstones st now) = DiscoveredPeerState_get st"
  by (simp add: fun_eq_iff prune_peers)

definition peers_ok :: "DiscoveredPeerState \<Rightarrow> bool" where
  "peers_ok st \<longleftrightarrow> peers_inv st \<and> tombstone_count st \<le> MAX_RETAINED_TOMBSTONES"

lemma peers_ok_new: "peers_ok DiscoveredPeerState_new"
  by (simp add: peers_ok_def peers_inv_new)

lemma peers_ok_prune: "peers_inv st \<Longrightarrow> peers_ok (prune_tombstones st now)"
  by (simp add: peers_ok_def prune_inv prune_bound)

lemma observe_pruned:
  assumes "peers_inv st"
  shows "\<exists>tr st'. observe (prune_tombstones st t) p t = (tr, st') \<and> peers_ok st' \<and>
    transition_effect tr (DiscoveredPeerState_get st) (DiscoveredPeerState_get st') \<and>
    (tr \<noteq> Noop (peer_key p) Stale \<longrightarrow>
      DiscoveredPeerState_get st' = (DiscoveredPeerState_get st)(peer_key p \<mapsto> p))"
proof -
  obtain tr st' where step: "observe (prune_tombstones st t) p t = (tr, st')" by fastforce
  show ?thesis
    using observe_effect [OF prune_inv [OF assms] step] prune_bound [OF assms, of t] assms step
    by (auto simp: peers_ok_def intro: order_trans)
qed

text \<open>Every event is applied without a panic, keeps the invariant and reports its effect.\<close>

lemma apply_effect:
  assumes "peers_ok st"
  shows "\<exists>tr st'. DiscoveredPeerState_apply st ev t = Some (tr, st') \<and> peers_ok st' \<and>
    transition_effect tr (DiscoveredPeerState_get st) (DiscoveredPeerState_get st')"
proof -
  have inv: "peers_inv st" using assms by (simp add: peers_ok_def)
  show ?thesis
  proof (cases ev)
    case (Removed k)
    obtain tr st' where "remove (prune_tombstones st t) k t = Some (tr, st')" "peers_inv st'"
        "transition_effect tr (DiscoveredPeerState_get st) (DiscoveredPeerState_get st')"
      using remove_effect [OF prune_inv [OF inv], of t k t] inv by auto
    then show ?thesis using Removed peers_ok_prune by simp
  qed (use observe_pruned [OF inv, of t] assms in fastforce)+
qed

section \<open>Expiry\<close>

lemma expire_all_effect:
  "peers_inv st \<Longrightarrow> distinct ks \<Longrightarrow> set ks \<subseteq> visible_keys st \<Longrightarrow>
     \<exists>st'. expire_all now ks st = Some st' \<and> peers_inv st' \<and>
       DiscoveredPeerState_get st' = DiscoveredPeerState_get st |` (- set ks)"
proof (induction ks arbitrary: st)
  case (Cons k ks)
  note inv = Cons.prems(1)
  note m = peers_invD(1) [OF inv]
  let ?r = "\<lparr>visible = None, last_transition_at = now\<rparr>"
  let ?st = "st\<lparr>records := hm_insert k ?r (records st), visible_count := visible_count st - 1\<rparr>"
  have k: "k \<in> visible_keys st" using Cons.prems(3) by simp
  then have count: "visible_count st \<noteq> 0"
    using peers_invD(2,4) [OF inv] by (auto simp: card_eq_0_iff)
  obtain r where "hm_get (records st) k = Some r" using k by (auto simp: visible_keys_def hits_def)
  with count have step: "expire_one now k st = Some ?st" by (simp add: expire_one_def)
  have inv': "peers_inv ?st"
    by (rule peers_inv_insert [OF inv]) (use k count in \<open>simp_all add: is_visible_def record_ok_def\<close>)
  have get: "DiscoveredPeerState_get ?st = (DiscoveredPeerState_get st)(k := None)"
    by (simp add: get_insert [OF m])
  have "set ks \<subseteq> visible_keys ?st"
  proof
    fix k' assume "k' \<in> set ks"
    then have "k' \<noteq> k" "k' \<in> visible_keys st" using Cons.prems(2,3) by auto
    then have "DiscoveredPeerState_get ?st k' \<noteq> None" unfolding get using get_dom by simp
    then show "k' \<in> visible_keys ?st" using get_dom by blast
  qed
  with Cons.IH [OF inv'] Cons.prems(2) obtain st' where
    "expire_all now ks ?st = Some st'" "peers_inv st'"
    "DiscoveredPeerState_get st' = DiscoveredPeerState_get ?st |` (- set ks)"
    by auto
  then show ?case using step get by (auto simp: restrict_map_def fun_eq_iff)
qed (simp add: restrict_map_def)

definition expired_keys :: "DiscoveredPeerState \<Rightarrow> duration \<Rightarrow> duration \<Rightarrow> TransientDiscoveryKey set" where
  "expired_keys st now stale_after = hits (is_expired now stale_after) (hm_get (records st))"

lemma is_expired_visible: "is_expired now a r \<Longrightarrow> visible r \<noteq> None"
  by (auto simp: is_expired_def split: option.splits)

lemma expired_keys_prune: "peers_inv st \<Longrightarrow> expired_keys (prune_tombstones st t) now a = expired_keys st now a"
  unfolding expired_keys_def hits_def
  using prune_visible prune_get_subset is_expired_visible by blast

lemma expire_effect:
  assumes inv: "peers_inv st"
  shows "\<exists>ks st'. DiscoveredPeerState_expire st now a = Some (map (\<lambda>k. Removed k Expired) ks, st') \<and>
    peers_ok st' \<and> sorted ks \<and> distinct ks \<and> set ks = expired_keys st now a \<and>
    DiscoveredPeerState_get st' = DiscoveredPeerState_get st |` (- expired_keys st now a)"
proof -
  let ?p = "prune_tombstones st now"
  let ?fs = "map fst (filter (\<lambda>(_, r). is_expired now a r) (records ?p))"
  note m = peers_invD(1) [OF prune_inv [OF inv, of now]]
  have set: "set (sort ?fs) = expired_keys st now a"
    using expired_keys_prune [OF inv, of now now a]
    by (force simp: expired_keys_def hits_hm_get [OF m] split_def)
  have dist: "distinct (sort ?fs)"
    using m by (simp add: hm_invar_def distinct_filter_keys)
  have "set (sort ?fs) \<subseteq> visible_keys ?p"
    unfolding set prune_visible_keys [OF inv]
    using is_expired_visible by (fastforce simp: expired_keys_def visible_keys_def hits_def is_visible_def)
  from expire_all_effect [OF prune_inv [OF inv] dist this, of now] obtain st' where
    "expire_all now (sort ?fs) ?p = Some st'" "peers_inv st'"
    "DiscoveredPeerState_get st' = DiscoveredPeerState_get st |` (- expired_keys st now a)"
    using set inv by auto
  then show ?thesis
    using set dist peers_ok_prune
    by (intro exI [of _ "sort ?fs"] exI [of _ "prune_tombstones st' now"])
      (simp add: DiscoveredPeerState_expire_def Let_def)
qed

section \<open>Iteration order of the table\<close>

text \<open>
  Two tables with the same entries in different order are the same state: nothing an operation
  returns or leaves behind can depend on the iteration order of the \<^verbatim>\<open>HashMap\<close>.
\<close>

definition same_state :: "DiscoveredPeerState \<Rightarrow> DiscoveredPeerState \<Rightarrow> bool" where
  "same_state a b \<longleftrightarrow> hm_invar (records a) \<and> hm_invar (records b) \<and>
     hm_get (records a) = hm_get (records b) \<and> visible_count a = visible_count b"

lemma sort_tombs_same:
  assumes "hm_invar m" "hm_invar n" "hm_get m = hm_get n"
  shows "sort (tombs m) = sort (tombs n)"
proof -
  have "set (tombs m) = set (tombs n)"
    unfolding set_eq_iff split_paired_All using assms by (simp add: tombs_set)
  moreover have "distinct (tombs m)" "distinct (tombs n)"
    using assms tombs_distinct distinct_map by blast+
  ultimately show ?thesis by (metis set_eq_iff_mset_eq_distinct properties_for_sort mset_sort sorted_sort)
qed

lemma same_prune:
  assumes "same_state a b"
  shows "same_state (prune_tombstones a t) (prune_tombstones b t)"
proof -
  have inv: "hm_invar (records a)" "hm_invar (records b)" and eq: "hm_get (records a) = hm_get (records b)"
      "visible_count a = visible_count b"
    using assms by (simp_all add: same_state_def)
  note kept = hm.invar_keep [OF inv(1), of "not_outdated t"] hm.invar_keep [OF inv(2), of "not_outdated t"]
  have get: "hm_get (hm_retain (not_outdated t) (records a)) = hm_get (hm_retain (not_outdated t) (records b))"
    by (simp add: hm.get_keep inv eq)
  have "evicted a t = evicted b t"
    using sort_tombs_same [OF kept get] length_sort [where f = id]
    by (metis (no_types, lifting) evicted_def length_sort)
  then show ?thesis
    using remove_all_get [OF kept(1)] remove_all_get [OF kept(2)] get eq(2)
    by (simp add: same_state_def prune_alt)
qed

lemma same_put:
  "same_state a b \<Longrightarrow> same_state (a\<lparr>records := hm_insert k r (records a), visible_count := n\<rparr>)
     (b\<lparr>records := hm_insert k r (records b), visible_count := n\<rparr>)"
  by (simp add: same_state_def hm.get_put hm.invar_put)

lemma same_put_records:
  "same_state a b \<Longrightarrow> same_state (a\<lparr>records := hm_insert k r (records a)\<rparr>)
     (b\<lparr>records := hm_insert k r (records b)\<rparr>)"
  by (simp add: same_state_def hm.get_put hm.invar_put)

lemma same_observe:
  assumes "same_state a b"
  shows "rel_prod (=) same_state (observe a p t) (observe b p t)"
proof -
  have "hm_get (records a) = hm_get (records b)" "visible_count a = visible_count b"
    using assms by (simp_all add: same_state_def)
  then show ?thesis
    using same_put [OF assms] same_put_records [OF assms] assms
    by (simp add: observe_def Let_def split: option.split)
qed

lemma same_remove:
  assumes "same_state a b"
  shows "rel_option (rel_prod (=) same_state) (remove a k t) (remove b k t)"
proof -
  have "hm_get (records a) = hm_get (records b)" "visible_count a = visible_count b"
    using assms by (simp_all add: same_state_def)
  then show ?thesis
    using same_put [OF assms] same_put_records [OF assms] assms
    by (simp add: remove_def split: option.split)
qed

lemma same_apply:
  assumes "same_state a b"
  shows "rel_option (rel_prod (=) same_state) (DiscoveredPeerState_apply a ev t) (DiscoveredPeerState_apply b ev t)"
proof (cases ev)
  case (Removed k)
  have "rel_option (rel_prod (=) same_state)
      (remove (prune_tombstones a t) k t) (remove (prune_tombstones b t) k t)"
    by (rule same_remove [OF same_prune [OF assms]])
  then show ?thesis
    using Removed same_prune
    by (cases "remove (prune_tombstones a t) k t"; cases "remove (prune_tombstones b t) k t") auto
qed (use same_observe [OF same_prune [OF assms]] assms in simp_all)

end
