(* ===== verification/Presence.thy ===== *)
theory Presence
  imports Discovered_Peers
begin

text \<open>
  The browser and the discovered-peer state together: the client feeds every event of
  \<^verbatim>\<open>BrowserState::translate\<close> to \<^verbatim>\<open>DiscoveredPeerState::apply\<close> at a time of its own
  clock. As long as that clock strictly advances, both sides show the same peers.
\<close>

fun feed ::
  "BrowserState \<Rightarrow> DiscoveredPeerState \<Rightarrow> (RawBrowserEvent \<times> duration) list \<Rightarrow>
     (BrowserState \<times> DiscoveredPeerState) option" where
  "feed b d [] = Some (b, d)"
| "feed b d ((raw, t) # inputs) =
     (case BrowserState_translate b raw of
        (None, b') \<Rightarrow> feed b' d inputs
      | (Some event, b') \<Rightarrow>
          Option.bind (DiscoveredPeerState_apply d event t) (\<lambda>(_, d'). feed b' d' inputs))"

definition settled_before :: "DiscoveredPeerState \<Rightarrow> duration \<Rightarrow> bool" where
  "settled_before d t \<longleftrightarrow> (\<forall>k r. hm_get (records d) k = Some r \<longrightarrow> last_transition_at r < t)"

lemma settled_before_mono: "settled_before d t \<Longrightarrow> t \<le> t' \<Longrightarrow> settled_before d t'"
  unfolding settled_before_def by (meson order_less_le_trans)

lemma settled_before_prune: "peers_inv d \<Longrightarrow> settled_before d t \<Longrightarrow> settled_before (prune_tombstones d now) t"
  unfolding settled_before_def using prune_get_subset by blast

lemma settled_insert:
  assumes "hm_invar (records d)" "settled_before d t" "last_transition_at r = t"
  shows "settled_before (d\<lparr>records := hm_insert k r (records d), visible_count := n\<rparr>) (Suc t)"
  using assms by (auto simp: settled_before_def hm.get_put less_Suc_eq)

lemma settled_insert_records:
  assumes "hm_invar (records d)" "settled_before d t" "last_transition_at r = t"
  shows "settled_before (d\<lparr>records := hm_insert k r (records d)\<rparr>) (Suc t)"
  using assms by (auto simp: settled_before_def hm.get_put less_Suc_eq)

lemma observe_settled:
  assumes inv: "peers_inv d" and settled: "settled_before d t" and step: "observe d p t = (tr, d')"
  shows "tr \<noteq> Noop (peer_key p) Stale" "settled_before d' (Suc t)"
proof -
  note m = peers_invD(1) [OF inv]
  have "tr \<noteq> Noop (peer_key p) Stale \<and> settled_before d' (Suc t)"
    using step
  proof (cases rule: observe_cases)
    case (stale r)
    moreover from stale(1) have "last_transition_at r < t" using settled by (simp add: settled_before_def)
    ultimately show ?thesis by auto
  next
    case (again r v)
    show ?thesis using again(4) by (simp add: again(5) settled_insert_records [OF m settled])
  next
    case fresh
    then show ?thesis by (simp add: settled_insert [OF m settled])
  qed
  then show "tr \<noteq> Noop (peer_key p) Stale" "settled_before d' (Suc t)" by auto
qed

lemma remove_settled:
  assumes inv: "peers_inv d" and settled: "settled_before d t" and step: "remove d k t = Some (tr, d')"
  shows "tr \<noteq> Noop k Stale" "settled_before d' (Suc t)"
proof -
  note m = peers_invD(1) [OF inv]
  have "tr \<noteq> Noop k Stale \<and> settled_before d' (Suc t)"
    using step
  proof (cases rule: remove_cases)
    case (stale r)
    moreover from stale(1) have "last_transition_at r < t" using settled by (simp add: settled_before_def)
    ultimately show ?thesis by auto
  next
    case (gone r)
    then show ?thesis by (simp add: settled_insert [OF m settled])
  next
    case (absent r)
    then show ?thesis using settled_insert_records [OF m settled absent(3)] by simp
  qed simp
  then show "tr \<noteq> Noop k Stale" "settled_before d' (Suc t)" by auto
qed

text \<open>One event, applied later than everything recorded so far.\<close>

lemma apply_settled:
  assumes inv: "peers_ok d" and settled: "settled_before d t"
    and effect: "event_effect (Some ev) (DiscoveredPeerState_get d) g"
  shows "\<exists>tr d'. DiscoveredPeerState_apply d ev t = Some (tr, d') \<and> peers_ok d' \<and>
    settled_before d' (Suc t) \<and> DiscoveredPeerState_get d' = g"
proof -
  have pinv: "peers_inv d" using inv by (simp add: peers_ok_def)
  note prune = prune_inv [OF pinv, of t] settled_before_prune [OF pinv settled, of t]
  have seen: "\<exists>tr d'. observe (prune_tombstones d t) p t = (tr, d') \<and> peers_ok d' \<and>
      settled_before d' (Suc t) \<and> DiscoveredPeerState_get d' = (DiscoveredPeerState_get d)(peer_key p \<mapsto> p)" for p
    using observe_pruned [OF pinv, of t p] observe_settled [OF prune, of p] by blast
  show ?thesis
  proof (cases ev)
    case (Added p)
    then show ?thesis using seen [of p] effect by auto
  next
    case (Updated p)
    then show ?thesis using seen [of p] effect by auto
  next
    case (Refreshed p)
    then show ?thesis using seen [of p] effect by (auto simp: fun_upd_idem)
  next
    case (Removed k)
    obtain tr d' where step: "remove (prune_tombstones d t) k t = Some (tr, d')" "peers_inv d'"
        "tr \<noteq> Noop k Stale \<longrightarrow> DiscoveredPeerState_get d' = (DiscoveredPeerState_get d)(k := None)"
      using remove_effect [OF prune(1), of k t] pinv by auto
    have "DiscoveredPeerState_get d' = (DiscoveredPeerState_get d)(k := None)" "settled_before d' (Suc t)"
      using remove_settled [OF prune step(1)] step(3) by auto
    then show ?thesis
      using Removed effect step peers_ok_prune settled_before_prune [OF step(2)] by simp
  next
    case (Error e)
    then show ?thesis
      using effect inv settled_before_mono [OF settled, of "Suc t"] by simp
  qed
qed

definition in_step :: "BrowserState \<Rightarrow> DiscoveredPeerState \<Rightarrow> bool" where
  "in_step b d \<longleftrightarrow> browser_inv b \<and> peers_ok d \<and> DiscoveredPeerState_get d = hm_get (peers b)"

lemma in_step_start: "in_step BrowserState_default DiscoveredPeerState_new"
proof -
  have "DiscoveredPeerState_get DiscoveredPeerState_new = hm_get (peers BrowserState_default)"
    by (simp add: fun_eq_iff DiscoveredPeerState_get_def DiscoveredPeerState_new_def BrowserState_default_def)
  then show ?thesis by (simp add: in_step_def browser_inv_default peers_ok_new)
qed

lemma feed_in_step:
  "in_step b d \<Longrightarrow> sorted_wrt (<) (map snd inputs) \<Longrightarrow>
     (\<forall>(raw, t)\<in>set inputs. settled_before d t) \<Longrightarrow>
     \<exists>b' d'. feed b d inputs = Some (b', d') \<and> in_step b' d'"
proof (induction inputs arbitrary: b d)
  case (Cons input inputs)
  obtain raw t where input: "input = (raw, t)" by fastforce
  obtain ev b' where tr: "BrowserState_translate b raw = (ev, b')" by fastforce
  have step: "browser_inv b" "peers_ok d" "DiscoveredPeerState_get d = hm_get (peers b)"
    using Cons.prems(1) by (simp_all add: in_step_def)
  have eff: "event_effect ev (DiscoveredPeerState_get d) (hm_get (peers b'))"
    using translate_effect [OF step(1) tr] step(3) by simp
  have inv': "browser_inv b'" by (rule browser_inv_translate [OF step(1) tr])
  have later: "\<forall>(raw, u)\<in>set inputs. Suc t \<le> u" and sorted: "sorted_wrt (<) (map snd inputs)"
    using Cons.prems(2) input by auto
  show ?case
  proof (cases ev)
    case None
    then have "in_step b' d" using eff inv' step by (simp add: in_step_def)
    from Cons.IH [OF this sorted] Cons.prems(3) show ?thesis
      using None tr input by simp
  next
    case (Some event)
    have "settled_before d t" using Cons.prems(3) input by simp
    from apply_settled [OF step(2) this, of event "hm_get (peers b')"] eff Some
    obtain trans d' where app: "DiscoveredPeerState_apply d event t = Some (trans, d')"
        "peers_ok d'" "settled_before d' (Suc t)" "DiscoveredPeerState_get d' = hm_get (peers b')"
      by auto
    then have "in_step b' d'" using inv' by (simp add: in_step_def)
    moreover have "\<forall>(raw, u)\<in>set inputs. settled_before d' u"
      using later settled_before_mono [OF app(3)] by blast
    ultimately show ?thesis
      using Cons.IH [of b' d'] sorted Some tr input app(1) by simp
  qed
qed simp

lemma feed_from_start:
  "sorted_wrt (<) (map snd inputs) \<Longrightarrow>
     \<exists>b d. feed BrowserState_default DiscoveredPeerState_new inputs = Some (b, d) \<and> in_step b d"
  by (rule feed_in_step [OF in_step_start])
    (auto simp: settled_before_def DiscoveredPeerState_new_def)

end
