(* ===== verification/Presence_Properties.thy ===== *)
theory Presence_Properties
  imports Presence
begin

text \<open>
  What makes the browsing side of discovery correct: keys and peers of
  \<^verbatim>\<open>browser.rs\<close>, the transitions of \<^verbatim>\<open>discovered_peers.rs\<close>, and the
  two driven together.
\<close>

section \<open>The browser\<close>


text \<open>C25. Browser input is untrusted, and whatever arrives in whatever order, every stored peer is
  filed under its own canonical key and is well formed: a nonzero port, one to sixteen distinct
  endpoints, valid metadata whose range contains the negotiated version.\<close>

theorem browser_state_wf:
  "browser_inv (fold (\<lambda>raw st. snd (BrowserState_translate st raw)) raws BrowserState_default)"
proof (induction raws rule: rev_induct)
  case Nil
  then show ?case by (simp add: browser_inv_default)
next
  case (snoc raw raws)
  then show ?case by (auto intro: browser_inv_translate [OF _ prod.collapse [symmetric]])
qed

text \<open>C21. Every browser event is truthful: it carries only well-formed peers and canonical keys,
  and it describes exactly the change of the lookup table (an error or refresh changes nothing, an
  addition was absent before, an update replaces a different peer, a removal was present).\<close>

theorem browser_events_truthful:
  assumes "browser_inv st" "BrowserState_translate st raw = (ev, st')"
  shows "event_effect ev (hm_get (peers st)) (hm_get (peers st')) \<and>
    (case ev of None \<Rightarrow> True | Some event \<Rightarrow> event_wf event)"
  using translate_effect [OF assms] translate_event_wf assms(2) by (auto split: option.split)

theorem browser_events_truthful_witness:
  "event_effect None (hm_get (peers BrowserState_default)) (hm_get (peers BrowserState_default))"
  using browser_events_truthful [OF browser_inv_default,
      of "RawBrowserEvent.Removed (ascii ''peer'' @ TRANSIENT_KEY_SUFFIX)"]
  by simp

text \<open>No daemon is leaked: once the mDNS daemon has been created, a failing browser start ends
  with its shutdown request, and a stop issues the shutdown whatever stopping the browse
  answered.\<close>

theorem browser_daemon_not_leaked:
  assumes "daemon_new M w = (Ok d, w1)" "MdnsBrowserBackend_start M w = (r, w')"
  shows "(\<not> is_ok r \<longrightarrow> (\<exists>w2. w' = snd (daemon_shutdown M d w2))) \<and>
    (\<forall>b. r = Ok b \<longrightarrow> (\<forall>u. \<exists>u2. snd (MdnsBrowserBackend_stop M b u) = snd (daemon_shutdown M (mb_daemon b) u2)))"
  using browse_failure_shuts_down [OF _ assms(1)] assms(2) mdns_stop_shuts_down [of M]
  by (cases r) (auto simp: prod_eq_iff)

text \<open>A daemon that counts shutdown requests and refuses to be monitored.\<close>

definition refusing_daemon :: "(nat, unit, unit) mdns" where
  "refusing_daemon = \<lparr>daemon_new = \<lambda>w. (Ok (), w), daemon_monitor = \<lambda>_ w. (Err [], w),
     daemon_browse = \<lambda>_ _ w. (Err [], w), daemon_stop_browse = \<lambda>_ _ w. (Err [], w),
     daemon_register = \<lambda>_ _ w. (Err [], w), daemon_unregister = \<lambda>_ _ w. (Err [], w),
     daemon_shutdown = \<lambda>_ w. (Err [], Suc w), service_info_new = \<lambda>_ _ _ _ _. Err [],
     enable_addr_auto = id\<rparr>"

theorem browser_daemon_not_leaked_witness:
  "\<exists>w2. snd (MdnsBrowserBackend_start refusing_daemon 0) = Suc w2"
proof -
  have "daemon_new refusing_daemon 0 = (Ok (), 0)" by (simp add: refusing_daemon_def)
  moreover have "\<not> is_ok (fst (MdnsBrowserBackend_start refusing_daemon 0))"
    by (simp add: MdnsBrowserBackend_start_def refusing_daemon_def is_ok_def)
  ultimately obtain w2 where "snd (MdnsBrowserBackend_start refusing_daemon 0) =
      snd (daemon_shutdown refusing_daemon () w2)"
    using browser_daemon_not_leaked [of refusing_daemon 0 "()" 0] by (metis prod.collapse)
  then show ?thesis by (simp add: refusing_daemon_def)
qed

section \<open>The discovered peers\<close>

text \<open>Any sequence of the two mutating operations, at any times.\<close>

datatype peers_call = Apply DiscoveryBrowserEvent duration | Expire duration duration

fun peers_calls :: "peers_call list \<Rightarrow> DiscoveredPeerState \<Rightarrow> DiscoveredPeerState option" where
  "peers_calls [] st = Some st"
| "peers_calls (Apply event at # calls) st =
     Option.bind (DiscoveredPeerState_apply st event at) (\<lambda>(_, st). peers_calls calls st)"
| "peers_calls (Expire now stale_after # calls) st =
     Option.bind (DiscoveredPeerState_expire st now stale_after) (\<lambda>(_, st). peers_calls calls st)"

lemma peers_calls_ok: "peers_ok st \<Longrightarrow> \<exists>st'. peers_calls calls st = Some st' \<and> peers_ok st'"
proof (induction calls st rule: peers_calls.induct)
  case (2 event at calls st)
  then show ?case using apply_effect [of st event at] by auto
next
  case (3 now stale_after calls st)
  then show ?case using expire_effect [of st now stale_after] by (fastforce simp: peers_ok_def)
qed simp


text \<open>C26. The returned transition is truthful: applying an event changes the visible peers exactly
  as the transition says (a stale or absent no-op and a rejection change nothing), and keeps the
  invariant and the tombstone bound.\<close>

theorem peer_transitions_truthful:
  assumes "peers_ok st"
  shows "\<exists>tr st'. DiscoveredPeerState_apply st ev t = Some (tr, st') \<and> peers_ok st' \<and>
    transition_effect tr (DiscoveredPeerState_get st) (DiscoveredPeerState_get st')"
  by (rule apply_effect [OF assms])

theorem peer_transitions_truthful_witness:
  "\<exists>tr st'. DiscoveredPeerState_apply DiscoveredPeerState_new
      (DiscoveryBrowserEvent.Removed (TransientDiscoveryKey (ascii ''x''))) 3 = Some (tr, st') \<and> peers_ok st'"
  using peer_transitions_truthful [OF peers_ok_new] by blast



text \<open>C30. The iteration order of the hash table is unobservable: two tables with the same entries
  give the same transition and again the same entries, also when tombstones have to be evicted.\<close>

theorem hash_order_unobservable:
  assumes "same_state a b"
  shows "rel_option (rel_prod (=) same_state) (DiscoveredPeerState_apply a ev t) (DiscoveredPeerState_apply b ev t)"
  by (rule same_apply [OF assms])

theorem hash_order_unobservable_witness:
  "rel_option (rel_prod (=) same_state)
     (DiscoveredPeerState_apply \<lparr>records = [(TransientDiscoveryKey [1], \<lparr>visible = None, last_transition_at = 1\<rparr>),
        (TransientDiscoveryKey [2], \<lparr>visible = None, last_transition_at = 2\<rparr>)], visible_count = 0\<rparr>
        (DiscoveryBrowserEvent.Removed (TransientDiscoveryKey [3])) 7)
     (DiscoveredPeerState_apply \<lparr>records = [(TransientDiscoveryKey [2], \<lparr>visible = None, last_transition_at = 2\<rparr>),
        (TransientDiscoveryKey [1], \<lparr>visible = None, last_transition_at = 1\<rparr>)], visible_count = 0\<rparr>
        (DiscoveryBrowserEvent.Removed (TransientDiscoveryKey [3])) 7)"
  by (rule hash_order_unobservable) (auto simp: same_state_def hm_invar_def hm_get_def)

section \<open>Browser and peers together\<close>

text \<open>C3. A client that feeds every browser event to the peer table at strictly increasing times
  keeps the two in step: nothing panics, and both show the same peers throughout.\<close>

theorem browser_and_peers_in_step:
  assumes "sorted_wrt (<) (map snd inputs)"
  shows "\<exists>b d. feed BrowserState_default DiscoveredPeerState_new inputs = Some (b, d) \<and>
    browser_inv b \<and> peers_ok d \<and> DiscoveredPeerState_get d = hm_get (peers b)"
  using feed_from_start [OF assms] by (auto simp: in_step_def)

theorem browser_and_peers_in_step_witness:
  "\<exists>b d. feed BrowserState_default DiscoveredPeerState_new
      [(RawBrowserEvent.Removed (ascii ''x''), 1), (RawBrowserEvent.Removed (ascii ''y''), 2)] = Some (b, d) \<and>
    DiscoveredPeerState_get d = hm_get (peers b)"
  using browser_and_peers_in_step
    [of "[(RawBrowserEvent.Removed (ascii ''x''), 1), (RawBrowserEvent.Removed (ascii ''y''), 2)]"]
  by auto

end
