(* ===== verification/Filesystem.thy ===== *)
theory Filesystem
  imports Rust_Text
begin

text \<open>
  The part of \<^verbatim>\<open>std::fs\<close> the stores use, over an explicit world. A path is the list of
  components of an absolute path, and the file system maps the paths the program spells to
  nodes. Every system call first consumes one event of the world's script: what other processes
  did to the file system since the previous call, and the error the call fails with, if any.
  After the script ends nobody interferes and nothing fails. The crate \<^verbatim>\<open>tempfile\<close> is
  the parameter record \<open>tempfile\<close>; what its documentation promises is \<open>tempfile_laws\<close>.

  Reasoning is by rely and guarantee: \<open>rg K P m Q\<close> says that \<open>m\<close>, run among processes whose
  steps all respect \<open>K\<close>, respects \<open>K\<close> itself and ends in \<open>Q\<close>.
\<close>

section \<open>Paths, errors and nodes\<close>

type_synonym path = "rstr list"

definition parent_of :: "path \<Rightarrow> path option" where
  "parent_of p = (if p = [] then None else Some (butlast p))"

definition path_join :: "path \<Rightarrow> rstr \<Rightarrow> path" where
  "path_join p name = p @ [name]"

definition file_name :: "path \<Rightarrow> rstr option" where
  "file_name p = (if p = [] then None else Some (last p))"

definition with_file_name :: "path \<Rightarrow> rstr \<Rightarrow> path" where
  "with_file_name p name = butlast p @ [name]"

definition display_path :: "path \<Rightarrow> rstr" where
  "display_path p = (if p = [] then ascii ''/'' else concat (map (\<lambda>c. ascii ''/'' @ c) p))"

datatype ErrorKind = NotFound | AlreadyExists | InvalidData | OtherKind

datatype io_error = IoError (io_kind: ErrorKind) (io_text: rstr)

datatype node = File nat "u8 list" | Dir nat | Symlink path | Special

type_synonym nodes = "path \<Rightarrow> node option"

datatype file_type = IsFile | IsDir | IsSymlink | IsSpecial

fun type_of_node :: "node \<Rightarrow> file_type" where
  "type_of_node (File _ _) = IsFile"
| "type_of_node (Dir _) = IsDir"
| "type_of_node (Symlink _) = IsSymlink"
| "type_of_node Special = IsSpecial"

definition os_error :: "ErrorKind \<Rightarrow> string \<Rightarrow> io_error" where
  "os_error kind message = IoError kind (ascii message)"

section \<open>Worlds and programs\<close>

record fs_event =
  env_step :: "nodes \<Rightarrow> nodes"
  fault :: "io_error option"
  lock_busy :: bool
  appended :: "u8 list"

definition quiet :: fs_event where
  "quiet = \<lparr>env_step = (\<lambda>n. n), fault = None, lock_busy = False, appended = []\<rparr>"

record world =
  nodes :: nodes
  script :: "fs_event list"
  held_locks :: "path list"
  unix_target :: bool

type_synonym ('e, 'a) io = "world \<Rightarrow> ('e + 'a) \<times> world"

definition io_return :: "'e + 'a \<Rightarrow> ('e, 'a) io" where
  "io_return r = (\<lambda>w. (r, w))"

definition io_match :: "('e, 'a) io \<Rightarrow> ('e + 'a \<Rightarrow> ('f, 'b) io) \<Rightarrow> ('f, 'b) io" where
  "io_match m k = (\<lambda>w. case m w of (r, w') \<Rightarrow> k r w')"

text \<open>\<open>io_bind m f\<close> is \<^verbatim>\<open>f(m?)\<close>.\<close>

definition io_bind :: "('e, 'a) io \<Rightarrow> ('a \<Rightarrow> ('e, 'b) io) \<Rightarrow> ('e, 'b) io" where
  "io_bind m f = io_match m (\<lambda>r. case r of Err e \<Rightarrow> io_return (Err e) | Ok a \<Rightarrow> f a)"

definition io_map_err :: "('e \<Rightarrow> 'f) \<Rightarrow> ('e, 'a) io \<Rightarrow> ('f, 'a) io" where
  "io_map_err g m = io_match m (\<lambda>r. io_return (map_err g r))"

definition next_event :: "world \<Rightarrow> fs_event \<times> world" where
  "next_event w = (case script w of
     [] \<Rightarrow> (quiet, w)
   | e # es \<Rightarrow> (e, w\<lparr>nodes := env_step e (nodes w), script := es\<rparr>))"

definition syscall :: "(nodes \<Rightarrow> io_error + 'a \<times> nodes) \<Rightarrow> (io_error, 'a) io" where
  "syscall op = (\<lambda>w. case next_event w of (e, w') \<Rightarrow>
     (case fault e of
        Some err \<Rightarrow> (Err err, w')
      | None \<Rightarrow> (case op (nodes w') of
            Err err \<Rightarrow> (Err err, w')
          | Ok (a, n) \<Rightarrow> (Ok a, w'\<lparr>nodes := n\<rparr>))))"

section \<open>System calls\<close>

text \<open>Symbolic links are followed at most 40 times, the limit of the kernel.\<close>

fun follow :: "nat \<Rightarrow> nodes \<Rightarrow> path \<Rightarrow> path option" where
  "follow 0 n p = None"
| "follow (Suc fuel) n p = (case n p of Some (Symlink q) \<Rightarrow> follow fuel n q | _ \<Rightarrow> Some p)"

definition target :: "nodes \<Rightarrow> path \<Rightarrow> path option" where
  "target n p = follow 40 n p"

definition target_node :: "nodes \<Rightarrow> path \<Rightarrow> io_error + path \<times> node" where
  "target_node n p = (case target n p of
     None \<Rightarrow> Err (os_error OtherKind ''Too many levels of symbolic links'')
   | Some q \<Rightarrow> (case n q of
        None \<Rightarrow> Err (os_error NotFound ''No such file or directory'')
      | Some x \<Rightarrow> Ok (q, x)))"

definition is_dir :: "nodes \<Rightarrow> path \<Rightarrow> bool" where
  "is_dir n p \<longleftrightarrow> p = [] \<or> (case target_node n p of Ok (_, Dir _) \<Rightarrow> True | _ \<Rightarrow> False)"

definition fs_symlink_metadata :: "path \<Rightarrow> (io_error, file_type) io" where
  "fs_symlink_metadata p = syscall (\<lambda>n. case n p of
     None \<Rightarrow> Err (os_error NotFound ''No such file or directory'')
   | Some x \<Rightarrow> Ok (type_of_node x, n))"

definition chmod :: "nat \<Rightarrow> node \<Rightarrow> node" where
  "chmod m x = (case x of File _ bs \<Rightarrow> File m bs | Dir _ \<Rightarrow> Dir m | _ \<Rightarrow> x)"

definition fs_set_permissions :: "path \<Rightarrow> nat \<Rightarrow> (io_error, unit) io" where
  "fs_set_permissions p m = syscall (\<lambda>n.
     and_then (target_node n p) (\<lambda>(q, x). Ok ((), n(q \<mapsto> chmod m x))))"

definition read_file :: "path \<Rightarrow> nodes \<Rightarrow> io_error + u8 list \<times> nodes" where
  "read_file p n = and_then (target_node n p) (\<lambda>(_, x).
     case x of
       File _ bs \<Rightarrow> Ok (bs, n)
     | Dir _ \<Rightarrow> Err (os_error OtherKind ''Is a directory'')
     | _ \<Rightarrow> Err (os_error OtherKind ''Invalid argument''))"

lemma read_file_Ok: "read_file p n = Ok (bs, n') \<longleftrightarrow> n' = n \<and> (\<exists>q m. target_node n p = Ok (q, File m bs))"
proof (cases "target_node n p")
  case (Inr qx)
  then show ?thesis
    by (cases qx; cases "snd qx") (auto simp: read_file_def)
qed (simp add: read_file_def)

definition fs_read :: "path \<Rightarrow> (io_error, u8 list) io" where
  "fs_read p = syscall (read_file p)"

definition fs_read_to_string :: "path \<Rightarrow> (io_error, rstr) io" where
  "fs_read_to_string p = io_bind (fs_read p) (\<lambda>bs.
     io_return (ok_or (os_error InvalidData ''stream did not contain valid UTF-8'') (from_utf8 bs)))"

definition mkdir :: "path \<Rightarrow> nodes \<Rightarrow> io_error + nodes" where
  "mkdir p n =
     (if n p \<noteq> None \<or> p = [] then Err (os_error AlreadyExists ''File exists'')
      else if \<not> is_dir n (butlast p) then Err (os_error NotFound ''No such file or directory'')
      else Ok (n(p \<mapsto> Dir 493)))"

text \<open>
  \<^verbatim>\<open>create_dir_all\<close>: try the path itself, go up when its parent is missing, and accept
  a directory that is already there.
\<close>

function create_dirs :: "path \<Rightarrow> nodes \<Rightarrow> io_error + nodes" where
  "create_dirs p n =
     (if p = [] then Ok n
      else case mkdir p n of
          Ok n' \<Rightarrow> Ok n'
        | Err e \<Rightarrow>
            if io_kind e = NotFound
            then and_then (create_dirs (butlast p) n) (mkdir p)
            else if is_dir n p then Ok n else Err e)"
  by pat_completeness auto
termination by (relation "measure (\<lambda>(p, _). length p)") auto

declare create_dirs.simps [simp del]

definition fs_create_dir_all :: "path \<Rightarrow> (io_error, unit) io" where
  "fs_create_dir_all p = syscall (\<lambda>n. map_ok (\<lambda>n'. ((), n')) (create_dirs p n))"

text \<open>An open file is the node it was opened on, which a later rename does not change.\<close>

definition fs_open :: "path \<Rightarrow> (io_error, node) io" where
  "fs_open p = syscall (\<lambda>n. and_then (target_node n p) (\<lambda>(_, x). Ok (x, n)))"

definition fs_file_metadata :: "node \<Rightarrow> (io_error, file_type \<times> nat) io" where
  "fs_file_metadata x = syscall (\<lambda>n.
     Ok ((type_of_node x, case x of File _ bs \<Rightarrow> length bs | _ \<Rightarrow> 0), n))"

text \<open>
  \<^verbatim>\<open>file.take(limit).read_to_end\<close>: the bytes of the open file and what another process
  appended to it meanwhile, up to the limit.
\<close>

definition fs_take_read :: "nat \<Rightarrow> node \<Rightarrow> (io_error, u8 list) io" where
  "fs_take_read limit x = (\<lambda>w. case next_event w of (e, w') \<Rightarrow>
     (case fault e of
        Some err \<Rightarrow> (Err err, w')
      | None \<Rightarrow> (case x of
            File _ bs \<Rightarrow> (Ok (take limit (bs @ appended e)), w')
          | _ \<Rightarrow> (Err (os_error OtherKind ''Is a directory''), w'))))"

definition fs_sync :: "(io_error, unit) io" where
  "fs_sync = syscall (\<lambda>n. Ok ((), n))"

text \<open>
  \<^verbatim>\<open>OpenOptions::new().create(true).read(true).write(true).truncate(false)\<close>. The
  handle is the name the links lead to, and the node found there.
\<close>

definition fs_open_create :: "path \<Rightarrow> nat \<Rightarrow> (io_error, path \<times> node) io" where
  "fs_open_create p mode = syscall (\<lambda>n. case target n p of
     None \<Rightarrow> Err (os_error OtherKind ''Too many levels of symbolic links'')
   | Some q \<Rightarrow> (case n q of
        None \<Rightarrow>
          if q \<noteq> [] \<and> is_dir n (butlast q) then Ok ((q, File mode []), n(q \<mapsto> File mode []))
          else Err (os_error NotFound ''No such file or directory'')
      | Some (Dir _) \<Rightarrow> Err (os_error OtherKind ''Is a directory'')
      | Some x \<Rightarrow> Ok ((q, x), n)))"

datatype TryLockError = WouldBlock | LockError io_error

definition fs_try_lock :: "path \<Rightarrow> (TryLockError, unit) io" where
  "fs_try_lock q = (\<lambda>w. case next_event w of (e, w') \<Rightarrow>
     (case fault e of
        Some err \<Rightarrow> (Err (LockError err), w')
      | None \<Rightarrow>
          if lock_busy e \<or> q \<in> set (held_locks w') then (Err WouldBlock, w')
          else (Ok (), w'\<lparr>held_locks := q # held_locks w'\<rparr>)))"

definition fs_unlock :: "path \<Rightarrow> world \<Rightarrow> world" where
  "fs_unlock q w = w\<lparr>held_locks := remove1 q (held_locks w)\<rparr>"

section \<open>Temporary files\<close>

record tempfile =
  new_in :: "path \<Rightarrow> nodes \<Rightarrow> io_error + path \<times> nodes"
  persist :: "path \<Rightarrow> path \<Rightarrow> nodes \<Rightarrow> io_error + nodes"
  persist_noclobber :: "path \<Rightarrow> path \<Rightarrow> nodes \<Rightarrow> io_error + nodes"
  drop_temporary :: "path \<Rightarrow> nodes \<Rightarrow> nodes"

definition renamed :: "path \<Rightarrow> path \<Rightarrow> nodes \<Rightarrow> nodes" where
  "renamed t p n = (n(t := None))(p := n t)"

text \<open>
  The documented behaviour: a new temporary is a fresh empty file in the directory, named with
  the default prefix; persisting renames it onto the destination in one step, and
  \<^verbatim>\<open>persist_noclobber\<close> only onto a destination that does not exist; dropping a handle
  removes its file or fails silently.
\<close>

definition temporary_in :: "path \<Rightarrow> path \<Rightarrow> bool" where
  "temporary_in d t \<longleftrightarrow> (\<exists>name. t = d @ [ascii ''.tmp'' @ name])"

definition tempfile_laws :: "tempfile \<Rightarrow> bool" where
  "tempfile_laws T \<longleftrightarrow>
     (\<forall>d n t n'. new_in T d n = Ok (t, n') \<longrightarrow>
        temporary_in d t \<and> n t = None \<and> (\<exists>m. n' = n(t \<mapsto> File m []))) \<and>
     (\<forall>t p n n'. persist T t p n = Ok n' \<longrightarrow> n t \<noteq> None \<and> n' = renamed t p n) \<and>
     (\<forall>t p n n'. persist_noclobber T t p n = Ok n' \<longrightarrow> n t \<noteq> None \<and> n p = None \<and> n' = renamed t p n) \<and>
     (\<forall>t n. drop_temporary T t n = n(t := None) \<or> drop_temporary T t n = n)"

lemma tempfile_new_in:
  "tempfile_laws T \<Longrightarrow> new_in T d n = Ok (t, n') \<Longrightarrow>
     temporary_in d t \<and> n t = None \<and> (\<exists>m. n' = n(t \<mapsto> File m []))"
  by (simp add: tempfile_laws_def)

lemma tempfile_persist:
  "tempfile_laws T \<Longrightarrow> persist T t p n = Ok n' \<Longrightarrow> n t \<noteq> None \<and> n' = renamed t p n"
  by (simp add: tempfile_laws_def)

lemma tempfile_persist_noclobber:
  "tempfile_laws T \<Longrightarrow> persist_noclobber T t p n = Ok n' \<Longrightarrow>
     n t \<noteq> None \<and> n p = None \<and> n' = renamed t p n"
  by (simp add: tempfile_laws_def)

definition temp_new_in :: "tempfile \<Rightarrow> path \<Rightarrow> (io_error, path) io" where
  "temp_new_in T d = syscall (new_in T d)"

definition temp_set_permissions :: "path \<Rightarrow> nat \<Rightarrow> (io_error, unit) io" where
  "temp_set_permissions t m = syscall (\<lambda>n. case n t of
     Some x \<Rightarrow> Ok ((), n(t \<mapsto> chmod m x))
   | None \<Rightarrow> Ok ((), n))"

definition temp_write_all :: "path \<Rightarrow> u8 list \<Rightarrow> (io_error, unit) io" where
  "temp_write_all t contents = syscall (\<lambda>n. case n t of
     Some (File m bs) \<Rightarrow> Ok ((), n(t \<mapsto> File m (bs @ contents)))
   | _ \<Rightarrow> Ok ((), n))"

definition temp_drop :: "tempfile \<Rightarrow> path \<Rightarrow> ('e, 'a) io \<Rightarrow> ('e, 'a) io" where
  "temp_drop T t m = io_match (syscall (\<lambda>n. Ok ((), drop_temporary T t n))) (\<lambda>_. m)"

text \<open>A failed \<^verbatim>\<open>persist\<close> returns the handle inside its error. It is dropped where the error is
  converted, or at the end of the \<^verbatim>\<open>match\<close> arm that binds it.\<close>

definition temp_rename ::
  "(path \<Rightarrow> path \<Rightarrow> nodes \<Rightarrow> io_error + nodes) \<Rightarrow> path \<Rightarrow> path \<Rightarrow> (io_error, unit) io" where
  "temp_rename op t p = syscall (\<lambda>n. map_ok (\<lambda>n'. ((), n')) (op t p n))"

definition then_drop :: "tempfile \<Rightarrow> path \<Rightarrow> ('e, 'a) io \<Rightarrow> ('e, 'a) io" where
  "then_drop T t m = io_match m (\<lambda>r. temp_drop T t (io_return r))"

definition temp_persist_with ::
  "tempfile \<Rightarrow> (path \<Rightarrow> path \<Rightarrow> nodes \<Rightarrow> io_error + nodes) \<Rightarrow> path \<Rightarrow> path \<Rightarrow> (io_error, unit) io" where
  "temp_persist_with T op t p =
     io_match (temp_rename op t p)
       (\<lambda>r. case r of Ok u \<Rightarrow> io_return (Ok u) | Err e \<Rightarrow> temp_drop T t (io_return (Err e)))"

section \<open>Rely and guarantee\<close>

text \<open>
  \<open>R\<close> is what the program relies on of every single step of its environment, \<open>K\<close> what holds
  between the state before and the state after the whole run. Every environment is assumed to
  replace files rather than to append to one the program has open, and an injected failure is
  never the report that a file does not exist, which the file system itself decides.
\<close>

definition event_ok :: "(nodes \<Rightarrow> nodes \<Rightarrow> bool) \<Rightarrow> fs_event \<Rightarrow> bool" where
  "event_ok R e \<longleftrightarrow> (\<forall>n. R n (env_step e n)) \<and> appended e = [] \<and>
     (\<forall>err. fault e = Some err \<longrightarrow> io_kind err \<noteq> NotFound)"

definition env_ok :: "(nodes \<Rightarrow> nodes \<Rightarrow> bool) \<Rightarrow> world \<Rightarrow> bool" where
  "env_ok R w \<longleftrightarrow> (\<forall>e\<in>set (script w). event_ok R e)"

definition rg ::
  "(nodes \<Rightarrow> nodes \<Rightarrow> bool) \<Rightarrow> (nodes \<Rightarrow> nodes \<Rightarrow> bool) \<Rightarrow> (nodes \<Rightarrow> bool) \<Rightarrow> ('e, 'a) io \<Rightarrow>
     ('e + 'a \<Rightarrow> nodes \<Rightarrow> bool) \<Rightarrow> bool" where
  "rg R K P m Q \<longleftrightarrow> (\<forall>w r w'. env_ok R w \<and> P (nodes w) \<and> m w = (r, w') \<longrightarrow>
     K (nodes w) (nodes w') \<and> env_ok R w' \<and> Q r (nodes w'))"

definition stable :: "(nodes \<Rightarrow> nodes \<Rightarrow> bool) \<Rightarrow> (nodes \<Rightarrow> bool) \<Rightarrow> bool" where
  "stable R P \<longleftrightarrow> (\<forall>n n'. P n \<and> R n n' \<longrightarrow> P n')"

lemma stableI: "(\<And>n n'. P n \<Longrightarrow> R n n' \<Longrightarrow> P n') \<Longrightarrow> stable R P"
  by (auto simp: stable_def)

lemma stableD: "stable R P \<Longrightarrow> P n \<Longrightarrow> R n n' \<Longrightarrow> P n'"
  by (auto simp: stable_def)

lemma stable_const [simp]: "stable R (\<lambda>_. b)"
  by (simp add: stable_def)

lemma rgD:
  assumes "rg R K P m Q" "env_ok R w" "P (nodes w)" "m w = (r, w')"
  shows "K (nodes w) (nodes w')" "env_ok R w'" "Q r (nodes w')"
  using assms unfolding rg_def by blast+

lemma syscall_cases:
  assumes "syscall op w = (r, w')" "next_event w = (e, w1)"
  obtains (failed) err where "r = Err err" "w' = w1" "fault e = Some err \<or> op (nodes w1) = Err err"
    | (finished) x n where "op (nodes w1) = Ok (x, n)" "r = Ok x" "w' = w1\<lparr>nodes := n\<rparr>"
proof (cases "fault e")
  case (Some err)
  show thesis by (rule failed [of err]) (use assms Some in \<open>simp_all add: syscall_def\<close>)
next
  case None
  show thesis
  proof (cases "op (nodes w1)")
    case (Inl err)
    show thesis by (rule failed [of err]) (use assms None Inl in \<open>simp_all add: syscall_def\<close>)
  next
    case (Inr out)
    obtain x n where "out = (x, n)" by fastforce
    then show thesis
      by (intro finished [of x n]) (use assms None Inr in \<open>simp_all add: syscall_def\<close>)
  qed
qed

lemma rg_conseq:
  assumes "rg R K P' m Q'" "\<And>n. P n \<Longrightarrow> P' n" "\<And>r n. Q' r n \<Longrightarrow> Q r n"
  shows "rg R K P m Q"
  using assms unfolding rg_def by blast

lemma rg_pre_False: "rg R K (\<lambda>_. False) m Q"
  by (simp add: rg_def)

lemma rg_assume: "(b \<Longrightarrow> rg R K P m Q) \<Longrightarrow> rg R K (\<lambda>n. b \<and> P n) m Q"
  by (auto simp: rg_def)

definition always :: "'r \<Rightarrow> nodes \<Rightarrow> bool" where
  "always r n \<longleftrightarrow> True"

lemma always [simp]: "always r n"
  by (simp add: always_def)

locale rely =
  fixes R :: "nodes \<Rightarrow> nodes \<Rightarrow> bool" and K :: "nodes \<Rightarrow> nodes \<Rightarrow> bool"
  assumes R_K: "R n n' \<Longrightarrow> K n n'"
    and K_refl: "K n n"
    and K_trans: "K a b \<Longrightarrow> K b c \<Longrightarrow> K a c"
begin

lemma rg_return: "(\<And>n. P n \<Longrightarrow> Q r n) \<Longrightarrow> rg R K P (io_return r) Q"
  by (auto simp: rg_def io_return_def K_refl)

lemma rg_match:
  assumes "rg R K P m S" "\<And>r. rg R K (S r) (k r) Q"
  shows "rg R K P (io_match m k) Q"
proof (unfold rg_def, intro allI impI)
  fix w r w'
  assume a: "env_ok R w \<and> P (nodes w) \<and> io_match m k w = (r, w')"
  obtain r1 w1 where m: "m w = (r1, w1)" by fastforce
  then have k: "k r1 w1 = (r, w')" using a by (simp add: io_match_def)
  note 1 = rgD [OF assms(1) _ _ m]
  note 2 = rgD [OF assms(2) _ _ k]
  show "K (nodes w) (nodes w') \<and> env_ok R w' \<and> Q r (nodes w')"
    using a 1 2 K_trans by blast
qed

lemma rg_bind:
  assumes "rg R K P m S" "\<And>a. rg R K (S (Ok a)) (f a) Q" "\<And>e n. S (Err e) n \<Longrightarrow> Q (Err e) n"
  shows "rg R K P (io_bind m f) Q"
  unfolding io_bind_def
proof (rule rg_match [OF assms(1)])
  fix r
  show "rg R K (S r) (case r of Err e \<Rightarrow> io_return (Err e) | Ok a \<Rightarrow> f a) Q"
    using assms(2,3) by (cases r) (auto intro: rg_return)
qed

lemma rg_map_err: "rg R K P m (\<lambda>r. Q (map_err g r)) \<Longrightarrow> rg R K P (io_map_err g m) Q"
  unfolding io_map_err_def by (erule rg_match) (rule rg_return)

lemma next_event_R:
  assumes "env_ok R w" "next_event w = (e, w')"
  shows "nodes w' = nodes w \<or> R (nodes w) (nodes w')" "env_ok R w'"
    "appended e = []" "fault e = Some err \<Longrightarrow> io_kind err \<noteq> NotFound"
  using assms by (auto simp: next_event_def env_ok_def event_ok_def quiet_def split: list.splits)

lemma rg_next_event:
  assumes "env_ok R w" "next_event w = (e, w1)" "stable R P" "P (nodes w)"
  shows "P (nodes w1)" "K (nodes w) (nodes w1)" "env_ok R w1"
proof -
  note step = next_event_R [OF assms(1,2)]
  show "env_ok R w1" by (rule step(2))
  show "P (nodes w1)"
    using step(1) assms(4) stableD [OF assms(3), of "nodes w" "nodes w1"] by (elim disjE) simp_all
  show "K (nodes w) (nodes w1)"
    using step(1) R_K [of "nodes w" "nodes w1"] K_refl [of "nodes w"] by (elim disjE) simp_all
qed

lemma rg_syscall_kind:
  assumes "stable R P"
    and "\<And>n a n'. P n \<Longrightarrow> op n = Ok (a, n') \<Longrightarrow> K n n' \<and> Q (Ok a) n'"
    and "\<And>n e. P n \<Longrightarrow> io_kind e \<noteq> NotFound \<or> op n = Err e \<Longrightarrow> Q (Err e) n"
  shows "rg R K P (syscall op) Q"
proof (unfold rg_def, intro allI impI)
  fix w r w'
  assume a: "env_ok R w \<and> P (nodes w) \<and> syscall op w = (r, w')"
  obtain e w1 where ev: "next_event w = (e, w1)" by fastforce
  have env: "env_ok R w" and P: "P (nodes w)" using a by simp_all
  note next1 = rg_next_event [OF env ev assms(1) P]
  show "K (nodes w) (nodes w') \<and> env_ok R w' \<and> Q r (nodes w')"
    using conjunct2 [OF conjunct2 [OF a]] ev
  proof (cases rule: syscall_cases)
    case (failed err)
    then have "io_kind err \<noteq> NotFound \<or> op (nodes w1) = Err err"
      using next_event_R(4) [OF env ev] by blast
    then show ?thesis using failed(1,2) next1 assms(3) [OF next1(1)] by simp
  next
    case (finished x n)
    then show ?thesis
      using assms(2) [OF next1(1) finished(1)] K_trans [OF next1(2), of n] next1(3) by (simp add: env_ok_def)
  qed
qed

lemma rg_syscall:
  assumes "stable R P"
    and "\<And>n a n'. P n \<Longrightarrow> op n = Ok (a, n') \<Longrightarrow> K n n' \<and> Q (Ok a) n'"
    and "\<And>n e. P n \<Longrightarrow> Q (Err e) n"
  shows "rg R K P (syscall op) Q"
  by (rule rg_syscall_kind) (use assms in blast)+

lemma rg_take_read:
  assumes "stable R P" "\<And>n m bs. P n \<Longrightarrow> x = File m bs \<Longrightarrow> Q (Ok (take limit bs)) n"
    "\<And>n e. P n \<Longrightarrow> Q (Err e) n"
  shows "rg R K P (fs_take_read limit x) Q"
proof (unfold rg_def, intro allI impI)
  fix w r w'
  assume a: "env_ok R w \<and> P (nodes w) \<and> fs_take_read limit x w = (r, w')"
  obtain e w1 where ev: "next_event w = (e, w1)" by fastforce
  have env: "env_ok R w" and P: "P (nodes w)" using a by simp_all
  note next1 = rg_next_event [OF env ev assms(1) P]
  have "appended e = []" by (rule next_event_R(3) [OF env ev])
  then have "w' = w1 \<and> ((\<exists>err. r = Err err) \<or> (\<exists>m bs. x = File m bs \<and> r = Ok (take limit bs)))"
    using a ev by (auto simp: fs_take_read_def split: option.splits node.splits)
  then show "K (nodes w) (nodes w') \<and> env_ok R w' \<and> Q r (nodes w')"
    using next1 assms(2,3) by auto
qed

lemma rg_try_lock: "stable R P \<Longrightarrow> rg R K P (fs_try_lock q) (\<lambda>_. P)"
  unfolding rg_def
proof (intro allI impI)
  fix w r w'
  assume s: "stable R P" and a: "env_ok R w \<and> P (nodes w) \<and> fs_try_lock q w = (r, w')"
  obtain e w1 where ev: "next_event w = (e, w1)" by fastforce
  have env: "env_ok R w" and P: "P (nodes w)" using a by simp_all
  note next1 = rg_next_event [OF env ev s P]
  have "nodes w' = nodes w1 \<and> script w' = script w1"
    using a ev by (auto simp: fs_try_lock_def split: option.splits if_splits)
  then show "K (nodes w) (nodes w') \<and> env_ok R w' \<and> P (nodes w')"
    using next1 by (simp add: env_ok_def)
qed

lemma rg_unlock:
  assumes "rg R K P m Q"
  shows "rg R K P (\<lambda>w. case m w of (r, w') \<Rightarrow> (r, fs_unlock q w')) Q"
proof (unfold rg_def, intro allI impI)
  fix w r w'
  assume a: "env_ok R w \<and> P (nodes w) \<and> (case m w of (r, w') \<Rightarrow> (r, fs_unlock q w')) = (r, w')"
  obtain r1 w1 where m: "m w = (r1, w1)" by fastforce
  then have "r = r1" "nodes w' = nodes w1" "script w' = script w1" using a by (auto simp: fs_unlock_def)
  then show "K (nodes w) (nodes w') \<and> env_ok R w' \<and> Q r (nodes w')"
    using rgD [OF assms _ _ m] a by (simp add: env_ok_def)
qed

text \<open>A call that reads but never writes.\<close>

lemma rg_query:
  assumes "stable R P" "\<And>n a n'. P n \<Longrightarrow> op n = Ok (a, n') \<Longrightarrow> n' = n \<and> Q (Ok a) n"
    "\<And>n e. P n \<Longrightarrow> Q (Err e) n"
  shows "rg R K P (syscall op) Q"
  by (rule rg_syscall) (use assms K_refl in blast)+

end

text \<open>
  A relation that tolerates what preparing a replacement does: new nodes at the paths \<open>C\<close> allows
  where there was none, changed permission bits, and anything at the names of temporaries, which no
  other process touches.
\<close>

definition is_temporary :: "path \<Rightarrow> bool" where
  "is_temporary t \<longleftrightarrow> (\<exists>d. temporary_in d t)"

definition grows :: "(path \<Rightarrow> bool) \<Rightarrow> path \<Rightarrow> bool" where
  "grows C d \<longleftrightarrow> (\<forall>k. C (take k d))"

lemma growsD: "grows C d \<Longrightarrow> C d" "grows C d \<Longrightarrow> grows C (butlast d)"
  by (metis grows_def take_all order_refl) (simp add: grows_def butlast_conv_take)

text \<open>A node, or none, that is not a symbolic link: putting it anywhere redirects no other path.\<close>

definition plain :: "node option \<Rightarrow> bool" where
  "plain y \<longleftrightarrow> (\<forall>q. y \<noteq> Some (Symlink q))"

lemma plainI [simp, intro]: "plain None" "plain (Some (File m bs))" "plain (Some (Dir m))"
  by (simp_all add: plain_def)

lemma grows_True [simp]: "grows (\<lambda>_. True) d"
  by (simp add: grows_def)

locale staging = rely +
  fixes C :: "path \<Rightarrow> bool"
  assumes R_temporary: "R n n' \<Longrightarrow> is_temporary t \<Longrightarrow> n' t = n t"
    and K_temporary: "is_temporary t \<Longrightarrow> plain y \<Longrightarrow> K n (n(t := y))"
    and K_fresh: "C q \<Longrightarrow> n q = None \<Longrightarrow> plain y \<Longrightarrow> K n (n(q := y))"
    and K_chmod: "n q = Some x \<Longrightarrow> K n (n(q \<mapsto> chmod m x))"
begin

lemma stable_temporary: "stable R (\<lambda>n. is_temporary t \<and> Q (n t))"
  by (rule stableI) (metis R_temporary)

lemma target_node_Ok: "target_node n p = Ok (q, x) \<Longrightarrow> n q = Some x"
  by (auto simp: target_node_def split: option.splits)

lemma rg_set_permissions: "rg R K (\<lambda>_. True) (fs_set_permissions p m) always"
  unfolding fs_set_permissions_def
  by (rule rg_syscall) (auto simp: result_simps dest!: target_node_Ok intro: K_chmod)

lemma mkdir_K: "C p \<Longrightarrow> mkdir p n = Ok n' \<Longrightarrow> K n n'"
  by (auto simp: mkdir_def K_fresh split: if_splits)

lemma create_dirs_K: "grows C p \<Longrightarrow> create_dirs p n = Ok n' \<Longrightarrow> K n n'"
proof (induction p n arbitrary: n' rule: create_dirs.induct)
  case (1 p n)
  show ?case
  proof (cases "p = []")
    case True
    then show ?thesis using "1.prems" K_refl by (simp add: create_dirs.simps)
  next
    case False
    show ?thesis
    proof (cases "mkdir p n")
      case (Inl e)
      show ?thesis
      proof (cases "io_kind e = NotFound")
        case True
        then obtain n1 where "create_dirs (butlast p) n = Ok n1" "mkdir p n1 = Ok n'"
          using "1.prems"(2) False Inl by (auto simp: create_dirs.simps [of p] result_simps)
        then show ?thesis
          using "1.IH" [OF False Inl True growsD(2) [OF "1.prems"(1)]] mkdir_K [OF growsD(1) [OF "1.prems"(1)]]
            K_trans by blast
      qed (use "1.prems" False Inl K_refl in \<open>auto simp: create_dirs.simps [of p] split: if_splits\<close>)
    qed (use "1.prems"(2) False mkdir_K [OF growsD(1) [OF "1.prems"(1)]] in \<open>auto simp: create_dirs.simps [of p]\<close>)
  qed
qed

lemma rg_create_dir_all: "grows C p \<Longrightarrow> rg R K (\<lambda>_. True) (fs_create_dir_all p) always"
  unfolding fs_create_dir_all_def
  by (rule rg_syscall) (auto simp: result_simps dest: create_dirs_K)

lemma rg_symlink_metadata: "rg R K (\<lambda>_. True) (fs_symlink_metadata p) always"
  unfolding fs_symlink_metadata_def by (rule rg_query) (auto split: option.splits)

lemma rg_temp_drop:
  assumes "tempfile_laws T" "is_temporary t" "rg R K (\<lambda>_. True) m Q"
  shows "rg R K (\<lambda>_. True) (temp_drop T t m) Q"
  unfolding temp_drop_def
proof (rule rg_match [where S = always])
  have "drop_temporary T t n = n(t := None) \<or> drop_temporary T t n = n" for n
    using assms(1) by (simp add: tempfile_laws_def)
  then have "K n (drop_temporary T t n)" for n
    using K_temporary [OF assms(2), of None] K_refl by (metis plainI(1))
  then show "rg R K (\<lambda>_. True) (syscall (\<lambda>n. Ok ((), drop_temporary T t n))) always"
    by (intro rg_syscall) auto
  show "rg R K (always r) m Q" for r
    by (rule rg_conseq [OF assms(3)]) simp_all
qed

lemma rg_then_drop:
  assumes "tempfile_laws T" "is_temporary t" "rg R K P m Q"
    and "\<And>r. stable R (Q r)" "\<And>r n. Q r n \<Longrightarrow> Q r (n(t := None))"
  shows "rg R K P (then_drop T t m) Q"
  unfolding then_drop_def temp_drop_def
proof (rule rg_match [OF assms(3)], rule rg_match [where S = "\<lambda>_. Q r" for r])
  have drop: "drop_temporary T t n = n(t := None) \<or> drop_temporary T t n = n" for n
    using assms(1) by (simp add: tempfile_laws_def)
  then have "K n (drop_temporary T t n)" for n
    using K_temporary [OF assms(2), of None] K_refl by (metis plainI(1))
  moreover have "Q r n \<Longrightarrow> Q r (drop_temporary T t n)" for r n
    using drop [of n] assms(5) by metis
  ultimately show "rg R K (Q r) (syscall (\<lambda>n. Ok ((), drop_temporary T t n))) (\<lambda>_. Q r)" for r
    by (intro rg_syscall [OF assms(4)]) auto
  show "rg R K (Q r) (io_return r) Q" for r
    by (rule rg_return)
qed

end

end
