(* ===== verification/Persistence.thy ===== *)
theory Persistence
  imports Filesystem
begin

text \<open>
  The shared persistence helpers
  (\<^verbatim>\<open>crates/local-transfer-core/src/persistence.rs\<close>): hardening of permissions and
  the synced temporary that every store renames into place.
\<close>

section \<open>Errors\<close>

datatype PersistenceOperation =
    InspectDirectory | CreateDirectory | HardenDirectory | HardenFile | CreateTemporary
  | WriteTemporary | SyncTemporary

datatype PersistenceError = InvalidPath path | Io PersistenceOperation path io_error

section \<open>Permissions\<close>

text \<open>On targets other than Unix the three setters do nothing.\<close>

definition on_unix :: "(io_error, unit) io \<Rightarrow> (io_error, unit) io" where
  "on_unix m = (\<lambda>w. if unix_target w then m w else (Ok (), w))"

definition set_directory_permissions :: "path \<Rightarrow> (io_error, unit) io" where
  "set_directory_permissions p = on_unix (fs_set_permissions p 448)"

definition set_file_permissions :: "path \<Rightarrow> (io_error, unit) io" where
  "set_file_permissions p = on_unix (fs_set_permissions p 384)"

definition set_open_file_permissions :: "path \<Rightarrow> (io_error, unit) io" where
  "set_open_file_permissions t = on_unix (temp_set_permissions t 384)"

definition harden_existing_file :: "path \<Rightarrow> (PersistenceError, unit) io" where
  "harden_existing_file p =
     io_match (fs_symlink_metadata p) (\<lambda>r. case r of
       Ok metadata \<Rightarrow>
         if metadata = IsFile then io_map_err (Io HardenFile p) (set_file_permissions p)
         else io_return (Ok ())
     | Err e \<Rightarrow>
         if io_kind e = NotFound then io_return (Ok ())
         else io_return (Err (Io HardenFile p e)))"

definition harden_existing_parent :: "path \<Rightarrow> (PersistenceError, unit) io" where
  "harden_existing_parent destination = (case parent_of destination of
     None \<Rightarrow> io_return (Err (InvalidPath destination))
   | Some parent \<Rightarrow>
       io_match (fs_symlink_metadata parent) (\<lambda>r. case r of
         Ok metadata \<Rightarrow>
           if metadata = IsDir then io_map_err (Io HardenDirectory parent) (set_directory_permissions parent)
           else io_return (Ok ())
       | Err e \<Rightarrow>
           if io_kind e = NotFound then io_return (Ok ())
           else io_return (Err (Io InspectDirectory parent e))))"

section \<open>Staging a replacement\<close>

definition existing_directory :: "path \<Rightarrow> (PersistenceError, bool option) io" where
  "existing_directory parent =
     io_match (fs_symlink_metadata parent) (\<lambda>r. case r of
       Ok metadata \<Rightarrow> io_return (Ok (Some (metadata = IsDir)))
     | Err e \<Rightarrow>
         if io_kind e = NotFound then io_return (Ok None)
         else io_return (Err (Io InspectDirectory parent e)))"

definition prepare_parent :: "path \<Rightarrow> bool \<Rightarrow> (PersistenceError, path) io" where
  "prepare_parent destination harden = (case parent_of destination of
     None \<Rightarrow> io_return (Err (InvalidPath destination))
   | Some parent \<Rightarrow>
       io_bind (existing_directory parent) (\<lambda>existing.
       io_bind (io_map_err (Io CreateDirectory parent) (fs_create_dir_all parent)) (\<lambda>_.
       if existing = None \<or> (harden \<and> existing = Some True)
       then io_bind (io_map_err (Io HardenDirectory parent) (set_directory_permissions parent))
              (\<lambda>_. io_return (Ok parent))
       else io_return (Ok parent))))"

text \<open>The steps on the open temporary; a failure drops the handle.\<close>

definition fill_temporary :: "path \<Rightarrow> u8 list \<Rightarrow> (PersistenceError, unit) io" where
  "fill_temporary t contents =
     io_bind (io_map_err (Io HardenFile t) (set_open_file_permissions t)) (\<lambda>_.
     io_bind (io_map_err (Io WriteTemporary t) (temp_write_all t contents)) (\<lambda>_.
       io_map_err (Io SyncTemporary t) fs_sync))"

definition create_synced_temporary ::
  "tempfile \<Rightarrow> path \<Rightarrow> u8 list \<Rightarrow> bool \<Rightarrow> (PersistenceError, path) io" where
  "create_synced_temporary T destination contents harden =
     io_bind (prepare_parent destination harden) (\<lambda>parent.
     io_bind (io_map_err (Io CreateTemporary parent) (temp_new_in T parent)) (\<lambda>t.
     io_match (fill_temporary t contents) (\<lambda>r. case r of
         Ok _ \<Rightarrow> io_return (Ok t)
       | Err e \<Rightarrow> temp_drop T t (io_return (Err e)))))"

definition ensure_hardened_parent :: "path \<Rightarrow> bool \<Rightarrow> (PersistenceError, unit) io" where
  "ensure_hardened_parent destination harden =
     io_bind (prepare_parent destination harden) (\<lambda>_. io_return (Ok ()))"

definition sync_parent_directory :: "path \<Rightarrow> (io_error, unit) io" where
  "sync_parent_directory p = on_unix (case parent_of p of
     None \<Rightarrow> io_return (Ok ())
   | Some parent \<Rightarrow> io_bind (fs_open parent) (\<lambda>_. fs_sync))"

section \<open>Effects\<close>

context staging
begin

lemma rg_on_unix:
  "rg R K P m Q \<Longrightarrow> (\<And>n. P n \<Longrightarrow> Q (Ok ()) n) \<Longrightarrow> rg R K P (on_unix m) Q"
  unfolding rg_def on_unix_def by (auto simp: K_refl)

lemma rg_any: "rg R K (\<lambda>_. True) m Q \<Longrightarrow> rg R K P m Q"
  by (erule rg_conseq) simp_all

lemma rg_set_directory_permissions: "rg R K (\<lambda>_. True) (set_directory_permissions p) always"
  unfolding set_directory_permissions_def by (rule rg_on_unix [OF rg_set_permissions]) simp

lemma rg_set_file_permissions: "rg R K (\<lambda>_. True) (set_file_permissions p) always"
  unfolding set_file_permissions_def by (rule rg_on_unix [OF rg_set_permissions]) simp

lemma rg_map_err_always: "rg R K (\<lambda>_. True) m always \<Longrightarrow> rg R K (\<lambda>_. True) (io_map_err g m) always"
  by (rule rg_map_err, erule rg_conseq) simp_all

lemma rg_match_always:
  "rg R K (\<lambda>_. True) m always \<Longrightarrow> (\<And>r. rg R K (\<lambda>_. True) (k r) Q) \<Longrightarrow> rg R K (\<lambda>_. True) (io_match m k) Q"
  by (erule rg_match) (rule rg_any)

lemma rg_bind_always:
  "rg R K (\<lambda>_. True) m always \<Longrightarrow> (\<And>a. rg R K (\<lambda>_. True) (f a) Q) \<Longrightarrow> (\<And>e n. Q (Err e) n) \<Longrightarrow>
     rg R K (\<lambda>_. True) (io_bind m f) Q"
  by (erule rg_bind) (auto intro: rg_any)

lemma rg_return_always: "rg R K P (io_return r) always"
  by (rule rg_return) simp

lemma rg_harden_existing_file: "rg R K (\<lambda>_. True) (harden_existing_file p) always"
  unfolding harden_existing_file_def
  by (rule rg_match_always [OF rg_symlink_metadata])
    (auto intro: rg_return_always rg_map_err_always rg_set_file_permissions split: sum.split)

lemma rg_harden_existing_parent: "rg R K (\<lambda>_. True) (harden_existing_parent p) always"
proof (cases "parent_of p")
  case (Some parent)
  show ?thesis
    unfolding harden_existing_parent_def Some option.case
    by (rule rg_match_always [OF rg_symlink_metadata])
      (auto intro: rg_return_always rg_map_err_always rg_set_directory_permissions split: sum.split)
qed (simp add: harden_existing_parent_def rg_return_always)

lemma rg_existing_directory: "rg R K (\<lambda>_. True) (existing_directory p) always"
  unfolding existing_directory_def
  by (rule rg_match_always [OF rg_symlink_metadata]) (auto intro: rg_return_always split: sum.split)

lemma rg_prepare_parent:
  assumes "grows C (butlast p)"
  shows "rg R K (\<lambda>_. True) (prepare_parent p h) always"
proof (cases "parent_of p")
  case (Some parent)
  have parent: "grows C parent" using assms Some by (auto simp: parent_of_def split: if_splits)
  have harden: "rg R K (\<lambda>_. True) (io_bind (io_map_err (Io HardenDirectory parent)
      (set_directory_permissions parent)) (\<lambda>_. io_return (Ok parent))) always"
    by (rule rg_bind_always [OF rg_map_err_always [OF rg_set_directory_permissions]])
      (simp_all add: rg_return_always)
  show ?thesis
    unfolding prepare_parent_def Some option.case
    by (rule rg_bind_always [OF rg_existing_directory],
        rule rg_bind_always [OF rg_map_err_always [OF rg_create_dir_all [OF parent]]])
      (simp_all add: rg_return_always harden)
qed (simp add: prepare_parent_def rg_return_always)

lemma rg_ensure_hardened_parent:
  "grows C (butlast p) \<Longrightarrow> rg R K (\<lambda>_. True) (ensure_hardened_parent p h) always"
  unfolding ensure_hardened_parent_def
  by (rule rg_bind_always [OF rg_prepare_parent]) (auto intro: rg_return_always)

text \<open>The staged file belongs to the program alone, so its contents are known.\<close>

definition staged :: "path \<Rightarrow> u8 list \<Rightarrow> nodes \<Rightarrow> bool" where
  "staged t bs n \<longleftrightarrow> is_temporary t \<and> (\<exists>m. n t = Some (File m bs))"

lemma stable_staged: "stable R (staged t bs)"
  unfolding staged_def by (rule stableI) (simp add: R_temporary)

lemma rg_temp_new_in:
  assumes "tempfile_laws T"
  shows "rg R K (\<lambda>_. True) (temp_new_in T d) (\<lambda>r n. \<forall>t. r = Ok t \<longrightarrow> staged t [] n)"
  unfolding temp_new_in_def
proof (rule rg_syscall)
  fix n t n'
  assume "new_in T d n = Ok (t, n')"
  then have "is_temporary t" "n t = None" "\<exists>m. n' = n(t \<mapsto> File m [])"
    using tempfile_new_in [OF assms] unfolding is_temporary_def by blast+
  then show "K n n' \<and> (\<forall>t'. (Ok t :: io_error + path) = Ok t' \<longrightarrow> staged t' [] n')"
    using K_temporary by (auto simp: staged_def)
qed simp_all

lemma rg_temp_chmod:
  "rg R K (staged t bs) (set_open_file_permissions t) (\<lambda>_. staged t bs)"
  unfolding set_open_file_permissions_def temp_set_permissions_def
  by (rule rg_on_unix, rule rg_syscall [OF stable_staged])
    (auto simp: staged_def chmod_def intro!: K_temporary)

lemma rg_temp_write:
  "rg R K (staged t []) (temp_write_all t bs) (\<lambda>r n. is_ok r \<longrightarrow> staged t bs n)"
  unfolding temp_write_all_def
  by (rule rg_syscall [OF stable_staged]) (auto simp: staged_def intro!: K_temporary)

lemma rg_sync: "stable R P \<Longrightarrow> rg R K P fs_sync (\<lambda>_. P)"
  unfolding fs_sync_def by (rule rg_query) auto

lemma rg_fill_temporary:
  "rg R K (staged t []) (fill_temporary t bs) (\<lambda>r n. is_ok r \<longrightarrow> staged t bs n)"
  unfolding fill_temporary_def
proof (rule rg_bind [where S = "\<lambda>_. staged t []"])
  show "rg R K (staged t []) (io_map_err (Io HardenFile t) (set_open_file_permissions t)) (\<lambda>_. staged t [])"
    by (rule rg_map_err [OF rg_temp_chmod])
  show "rg R K (staged t []) (io_bind (io_map_err (Io WriteTemporary t) (temp_write_all t bs))
      (\<lambda>_. io_map_err (Io SyncTemporary t) fs_sync)) (\<lambda>r n. is_ok r \<longrightarrow> staged t bs n)" for a
  proof (rule rg_bind [where S = "\<lambda>r n. is_ok r \<longrightarrow> staged t bs n"])
    show "rg R K (staged t []) (io_map_err (Io WriteTemporary t) (temp_write_all t bs))
        (\<lambda>r n. is_ok r \<longrightarrow> staged t bs n)"
      by (rule rg_map_err, rule rg_conseq [OF rg_temp_write]) (auto simp: result_simps)
    show "rg R K (\<lambda>n. is_ok (Ok u :: PersistenceError + unit) \<longrightarrow> staged t bs n)
        (io_map_err (Io SyncTemporary t) fs_sync) (\<lambda>r n. is_ok r \<longrightarrow> staged t bs n)" for u
      by (rule rg_map_err, rule rg_conseq [OF rg_sync [OF stable_staged]]) auto
  qed simp
qed simp

lemma rg_create_synced_temporary:
  assumes T: "tempfile_laws T" and room: "grows C (butlast p)"
  shows "rg R K (\<lambda>_. True) (create_synced_temporary T p bs h) (\<lambda>r n. \<forall>t. r = Ok t \<longrightarrow> staged t bs n)"
  unfolding create_synced_temporary_def
proof (rule rg_bind_always [OF rg_prepare_parent [OF room]])
  fix parent
  show "rg R K (\<lambda>_. True) (io_bind (io_map_err (Io CreateTemporary parent) (temp_new_in T parent))
      (\<lambda>t. io_match (fill_temporary t bs) (\<lambda>r. case r of Ok _ \<Rightarrow> io_return (Ok t)
         | Err e \<Rightarrow> temp_drop T t (io_return (Err e))))) (\<lambda>r n. \<forall>t. r = Ok t \<longrightarrow> staged t bs n)"
  proof (rule rg_bind [where S = "\<lambda>r n. \<forall>t. r = Ok t \<longrightarrow> staged t [] n"])
    show "rg R K (\<lambda>_. True) (io_map_err (Io CreateTemporary parent) (temp_new_in T parent))
        (\<lambda>r n. \<forall>t. r = Ok t \<longrightarrow> staged t [] n)"
      by (rule rg_map_err, rule rg_conseq [OF rg_temp_new_in [OF T]]) (auto simp: result_simps)
    fix t
    have fill: "rg R K (staged t []) (io_match (fill_temporary t bs) (\<lambda>r. case r of
        Ok _ \<Rightarrow> io_return (Ok t) | Err e \<Rightarrow> temp_drop T t (io_return (Err e))))
        (\<lambda>r n. \<forall>t. r = Ok t \<longrightarrow> staged t bs n)"
    proof (rule rg_match [where S = "\<lambda>r n. is_temporary t \<and> (is_ok r \<longrightarrow> staged t bs n)"])
      show "rg R K (staged t []) (fill_temporary t bs) (\<lambda>r n. is_temporary t \<and> (is_ok r \<longrightarrow> staged t bs n))"
      proof (rule rg_conseq)
        show "rg R K (\<lambda>n. is_temporary t \<and> staged t [] n) (fill_temporary t bs)
            (\<lambda>r n. is_temporary t \<and> (is_ok r \<longrightarrow> staged t bs n))"
          by (rule rg_assume) (rule rg_conseq [OF rg_fill_temporary], simp_all)
      qed (simp_all add: staged_def)
      show "rg R K (\<lambda>n. is_temporary t \<and> (is_ok r \<longrightarrow> staged t bs n)) (case r of
          Ok _ \<Rightarrow> io_return (Ok t) | Err e \<Rightarrow> temp_drop T t (io_return (Err e)))
          (\<lambda>r n. \<forall>t. r = Ok t \<longrightarrow> staged t bs n)" for r :: "PersistenceError + unit"
      proof (rule rg_assume)
        assume t: "is_temporary t"
        have drop: "rg R K P (temp_drop T t (io_return (Err e))) (\<lambda>r n. \<forall>t. r = Ok t \<longrightarrow> staged t bs n)"
          for P and e :: PersistenceError
          by (rule rg_any, rule rg_temp_drop [OF T t], rule rg_return) simp
        have keep: "rg R K (staged t bs) (io_return (Ok t :: PersistenceError + path))
            (\<lambda>r n. \<forall>t. r = Ok t \<longrightarrow> staged t bs n)"
          by (rule rg_return) simp
        show "rg R K (\<lambda>n. is_ok r \<longrightarrow> staged t bs n) (case r of
          Ok _ \<Rightarrow> io_return (Ok t) | Err e \<Rightarrow> temp_drop T t (io_return (Err e)))
          (\<lambda>r n. \<forall>t. r = Ok t \<longrightarrow> staged t bs n)"
        proof (cases r)
          case (Inl e)
          show ?thesis unfolding Inl sum.case by (rule drop)
        next
          case (Inr u)
          show ?thesis unfolding Inr sum.case by (rule rg_conseq [OF keep]) simp_all
        qed
      qed
    qed
    show "rg R K (\<lambda>n. \<forall>t'. (Ok t :: PersistenceError + path) = Ok t' \<longrightarrow> staged t' [] n)
        (io_match (fill_temporary t bs) (\<lambda>r. case r of
           Ok _ \<Rightarrow> io_return (Ok t) | Err e \<Rightarrow> temp_drop T t (io_return (Err e))))
        (\<lambda>r n. \<forall>t. r = Ok t \<longrightarrow> staged t bs n)"
      by (rule rg_conseq [OF fill]) simp_all
  qed simp
qed simp

end

end
