(* ===== verification/Value_Store.thy ===== *)
theory Value_Store
  imports Persistence
begin

text \<open>
  The protocol both value stores follow - the device id and the device name - stated once over
  an arbitrary parser: read the file, or create it from a synced temporary without overwriting,
  or read what another process created meanwhile. The two stores are shown to be instances in
  their own theories. The relation \<open>keeps p\<close> is the contract of the file at \<open>p\<close>: once there, it is
  never replaced, removed or rewritten; only its permission bits may change.
\<close>

section \<open>What is kept\<close>

definition keeps :: "path \<Rightarrow> nodes \<Rightarrow> nodes \<Rightarrow> bool" where
  "keeps p n n' \<longleftrightarrow> is_temporary p \<or> (\<forall>x. n p = Some x \<longrightarrow> (\<exists>m. n' p = Some (chmod m x)))"

definition calm :: "path \<Rightarrow> nodes \<Rightarrow> nodes \<Rightarrow> bool" where
  "calm p n n' \<longleftrightarrow> keeps p n n' \<and> (\<forall>t. is_temporary t \<longrightarrow> n' t = n t)"

lemma chmod_chmod [simp]: "chmod m (chmod m' x) = chmod m x"
  by (simp add: chmod_def split: node.split)

lemma chmod_same: "\<exists>m. chmod m x = x"
  by (cases x) (auto simp: chmod_def)

lemma keeps_refl: "keeps p n n"
  unfolding keeps_def by (metis chmod_same)

lemma keeps_trans: "keeps p a b \<Longrightarrow> keeps p b c \<Longrightarrow> keeps p a c"
  unfolding keeps_def by (metis chmod_chmod)

lemma keeps_other: "q \<noteq> p \<Longrightarrow> keeps p n (n(q := y))"
  using keeps_refl [of p n] by (auto simp: keeps_def)

lemma keeps_file:
  "keeps p n n' \<Longrightarrow> \<not> is_temporary p \<Longrightarrow> n p = Some (File m bs) \<Longrightarrow> \<exists>m'. n' p = Some (File m' bs)"
  by (fastforce simp: keeps_def chmod_def)

interpretation keep: staging "calm p" "keeps p" "\<lambda>_. True" for p
proof unfold_locales
  fix n n' a b c t q x y m
  show "calm p n n' \<Longrightarrow> keeps p n n'" by (simp add: calm_def)
  show "keeps p n n" by (rule keeps_refl)
  show "keeps p a b \<Longrightarrow> keeps p b c \<Longrightarrow> keeps p a c" by (rule keeps_trans)
  show "calm p n n' \<Longrightarrow> is_temporary t \<Longrightarrow> n' t = n t" by (simp add: calm_def)
  show "is_temporary t \<Longrightarrow> plain y \<Longrightarrow> keeps p n (n(t := y))"
    using keeps_other [of t p n y] by (cases "t = p") (auto simp: keeps_def)
  show "True \<Longrightarrow> n q = None \<Longrightarrow> plain y \<Longrightarrow> keeps p n (n(q := y))"
    using keeps_other [of q p n y] by (cases "q = p") (auto simp: keeps_def)
  show "n q = Some x \<Longrightarrow> keeps p n (n(q \<mapsto> chmod m x))"
    using keeps_other [of q p n] by (cases "q = p") (auto simp: keeps_def)
qed

section \<open>Reading and creating\<close>

context staging
begin

text \<open>A failed rename drops the temporary and changes nothing else.\<close>

lemma rg_persist_with:
  assumes T: "tempfile_laws T"
    and sys: "rg R K (staged t bs) (temp_rename op t p)
      (\<lambda>r n. is_temporary t \<and> (r = Ok () \<longrightarrow> (\<exists>m. n p = Some (File m bs))))"
  shows "rg R K (staged t bs) (temp_persist_with T op t p)
    (\<lambda>r n. r = Ok () \<longrightarrow> (\<exists>m. n p = Some (File m bs)))"
  unfolding temp_persist_with_def
proof (rule rg_match [OF sys], rule rg_assume)
  fix r :: "io_error + unit"
  assume t: "is_temporary t"
  show "rg R K (\<lambda>n. r = Ok () \<longrightarrow> (\<exists>m. n p = Some (File m bs)))
    (case r of Ok u \<Rightarrow> io_return (Ok u) | Err e \<Rightarrow> temp_drop T t (io_return (Err e)))
    (\<lambda>r n. r = Ok () \<longrightarrow> (\<exists>m. n p = Some (File m bs)))"
  proof (cases r)
    case (Inl e)
    show ?thesis
      unfolding Inl sum.case by (rule rg_any, rule rg_temp_drop [OF T t], rule rg_return) simp
  next
    case (Inr u)
    show ?thesis unfolding Inr sum.case by (rule rg_return) simp
  qed
qed

lemma rg_rename_noclobber:
  assumes T: "tempfile_laws T" and room: "grows C p"
  shows "rg R K (staged t bs) (temp_rename (persist_noclobber T) t p)
    (\<lambda>r n. is_temporary t \<and> (r = Ok () \<longrightarrow> (\<exists>m. n p = Some (File m bs))))"
  unfolding temp_rename_def
proof (rule rg_syscall [OF stable_staged])
  let ?op = "\<lambda>n. map_ok (\<lambda>n'. ((), n')) (persist_noclobber T t p n)"
  fix n u n'
  assume st: "staged t bs n" and op: "?op n = Ok (u, n')"
  then have "persist_noclobber T t p n = Ok n'" by (simp add: result_simps)
  from tempfile_persist_noclobber [OF T this]
  have p: "n p = None" and n': "n' = renamed t p n" by auto
  from st obtain m where m: "n t = Some (File m bs)" and t: "is_temporary t" by (auto simp: staged_def)
  from p m have "(n(t := None)) p = None" by auto
  then have "K (n(t := None)) n'"
    unfolding n' renamed_def m by (rule K_fresh [OF growsD(1) [OF room]]) (rule plainI)
  then have "K n n'" using K_temporary [OF t plainI(1)] K_trans by blast
  then show "K n n' \<and> is_temporary t \<and> (Ok u = Ok () \<longrightarrow> (\<exists>m. n' p = Some (File m bs)))"
    using n' m t by (auto simp: renamed_def)
qed (auto simp: staged_def)

end

definition load_existing ::
  "path \<Rightarrow> (PersistenceError \<Rightarrow> 'e) \<Rightarrow> (io_error \<Rightarrow> 'e) \<Rightarrow> (rstr \<Rightarrow> 'e + 'v) \<Rightarrow> ('e, 'v) io" where
  "load_existing p pe re parse =
     io_bind (io_map_err pe (harden_existing_file p)) (\<lambda>_.
     io_bind (io_map_err re (fs_read_to_string p)) (\<lambda>contents. io_return (parse contents)))"

definition create_value ::
  "tempfile \<Rightarrow> path \<Rightarrow> bool \<Rightarrow> (PersistenceError \<Rightarrow> 'e) \<Rightarrow> (io_error \<Rightarrow> 'e) \<Rightarrow> (io_error \<Rightarrow> 'e) \<Rightarrow>
     ('e, 'v) io \<Rightarrow> 'v \<Rightarrow> u8 list \<Rightarrow> ('e, 'v) io" where
  "create_value T p h pe se ce again v contents =
     io_bind (io_map_err pe (create_synced_temporary T p contents h)) (\<lambda>t.
     io_match (temp_rename (persist_noclobber T) t p) (\<lambda>r. case r of
         Ok _ \<Rightarrow> io_bind (io_map_err se fs_sync) (\<lambda>_. io_return (Ok v))
       | Err e \<Rightarrow> then_drop T t (if io_kind e = AlreadyExists then again else io_return (Err (ce e)))))"

definition load_value ::
  "path \<Rightarrow> bool \<Rightarrow> (PersistenceError \<Rightarrow> 'e) \<Rightarrow> (io_error \<Rightarrow> 'e) \<Rightarrow> (rstr \<Rightarrow> 'e + 'v) \<Rightarrow>
     ('e, 'v) io \<Rightarrow> ('e, 'v) io" where
  "load_value p h pe re parse create =
     io_bind (if h then io_map_err pe (harden_existing_parent p) else io_return (Ok ())) (\<lambda>_.
     io_bind (io_map_err pe (harden_existing_file p)) (\<lambda>_.
     io_match (fs_read_to_string p) (\<lambda>r. case r of
         Ok contents \<Rightarrow> io_return (parse contents)
       | Err e \<Rightarrow> if io_kind e = NotFound then create else io_return (Err (re e)))))"

text \<open>The file at \<open>p\<close> carries the value - unless \<open>p\<close> is a link, whose target is not tracked.\<close>

definition carries :: "path \<Rightarrow> (rstr \<Rightarrow> 'e + 'v) \<Rightarrow> 'v \<Rightarrow> nodes \<Rightarrow> bool" where
  "carries p parse v n \<longleftrightarrow>
     (case n p of
        Some (File m bs) \<Rightarrow> (\<exists>s. from_utf8 bs = Some s \<and> parse s = Ok v)
      | Some (Symlink q) \<Rightarrow> True
      | _ \<Rightarrow> False)"

lemma carries_keeps:
  "keeps p n n' \<Longrightarrow> \<not> is_temporary p \<Longrightarrow> carries p parse v n \<Longrightarrow> carries p parse v n'"
  by (fastforce simp: keeps_def carries_def chmod_def split: option.splits node.splits)

lemma stable_carries: "\<not> is_temporary p \<Longrightarrow> stable (calm p) (carries p parse v)"
  by (rule stableI) (auto simp: calm_def dest: carries_keeps)

lemma rg_read_to_string:
  "rg (calm p) (keeps p) (\<lambda>_. True) (fs_read_to_string p)
     (\<lambda>r n. \<forall>s v. r = Ok s \<longrightarrow> parse s = Ok v \<longrightarrow> carries p parse v n)"
  unfolding fs_read_to_string_def fs_read_def
proof (rule keep.rg_bind [where S = "\<lambda>r n. \<forall>bs s v. r = Ok bs \<longrightarrow> from_utf8 bs = Some s \<longrightarrow>
      parse s = Ok v \<longrightarrow> carries p parse v n"])
  have target: "carries p parse v n"
    if "target_node n p = Ok (q, File m bs)" "from_utf8 bs = Some s" "parse s = Ok v" for n q m bs s v
  proof (cases "n p")
    case (Some x)
    then show ?thesis
      using that
      by (cases x) (auto simp: target_node_def target_def carries_def numeral_eq_Suc split: option.splits)
  qed (use that in \<open>auto simp: target_node_def target_def numeral_eq_Suc split: option.splits\<close>)
  show "rg (calm p) (keeps p) (\<lambda>_. True) (syscall (read_file p))
     (\<lambda>r n. \<forall>bs s v. r = Ok bs \<longrightarrow> from_utf8 bs = Some s \<longrightarrow> parse s = Ok v \<longrightarrow> carries p parse v n)"
    by (rule keep.rg_query) (auto simp: read_file_Ok intro: target)
qed (auto intro!: keep.rg_return simp: result_simps)

lemma rg_load_existing:
  assumes p: "\<not> is_temporary p"
  shows "rg (calm p) (keeps p) (\<lambda>_. True) (load_existing p pe re parse)
    (\<lambda>r n. \<forall>v. r = Ok v \<longrightarrow> carries p parse v n)"
  unfolding load_existing_def
proof (rule keep.rg_bind_always)
  show "rg (calm p) (keeps p) (\<lambda>_. True) (io_map_err pe (harden_existing_file p)) always"
    by (rule keep.rg_map_err_always [OF keep.rg_harden_existing_file])
  show "rg (calm p) (keeps p) (\<lambda>_. True)
      (io_bind (io_map_err re (fs_read_to_string p)) (\<lambda>contents. io_return (parse contents)))
      (\<lambda>r n. \<forall>v. r = Ok v \<longrightarrow> carries p parse v n)" for u :: unit
  proof (rule keep.rg_bind [where S = "\<lambda>r n. \<forall>s v. r = Ok s \<longrightarrow> parse s = Ok v \<longrightarrow> carries p parse v n"])
    show "rg (calm p) (keeps p) (\<lambda>_. True) (io_map_err re (fs_read_to_string p))
        (\<lambda>r n. \<forall>s v. r = Ok s \<longrightarrow> parse s = Ok v \<longrightarrow> carries p parse v n)"
      by (rule keep.rg_map_err, rule rg_conseq [OF rg_read_to_string [of p parse]]) (auto simp: result_simps)
  qed (auto intro!: keep.rg_return)
qed simp

lemma rg_create_value:
  fixes parse :: "rstr \<Rightarrow> 'e + 'v" and again :: "('x, 'v) io"
  assumes p: "\<not> is_temporary p" and T: "tempfile_laws T"
    and again: "rg (calm p) (keeps p) (\<lambda>_. True) again (\<lambda>r n. \<forall>v. r = Ok v \<longrightarrow> carries p parse v n)"
    and parses: "from_utf8 bs = Some s" "parse s = Ok v"
  shows "rg (calm p) (keeps p) (\<lambda>_. True) (create_value T p h pe se ce again v bs)
    (\<lambda>r n. \<forall>v. r = Ok v \<longrightarrow> carries p parse v n)"
  unfolding create_value_def
proof (rule keep.rg_bind [where S = "\<lambda>r n. \<forall>t. r = Ok t \<longrightarrow> keep.staged t bs n"])
  show "rg (calm p) (keeps p) (\<lambda>_. True) (io_map_err pe (create_synced_temporary T p bs h))
      (\<lambda>r n. \<forall>t. r = Ok t \<longrightarrow> keep.staged t bs n)"
    by (rule keep.rg_map_err, rule rg_conseq [OF keep.rg_create_synced_temporary [OF T grows_True]])
      (auto simp: result_simps)
next
  fix t
  have stable: "stable (calm p) (\<lambda>n. \<forall>v. r = Ok v \<longrightarrow> carries p parse v n)" for r :: "'x + 'v"
    by (rule stableI, intro allI impI, rule stableD [OF stable_carries [OF p]]) simp_all
  have kept: "t \<noteq> p \<Longrightarrow> \<forall>v. r = Ok v \<longrightarrow> carries p parse v n \<Longrightarrow> \<forall>v. r = Ok v \<longrightarrow> carries p parse v (n(t := None))"
    for r :: "'x + 'v" and n t
    by (simp add: carries_def)
  have sync: "rg (calm p) (keeps p) (carries p parse v) (io_bind (io_map_err se fs_sync) (\<lambda>_. io_return (Ok v)))
      (\<lambda>r n. \<forall>v. r = Ok v \<longrightarrow> carries p parse v n)"
    by (rule keep.rg_bind [OF keep.rg_map_err [OF keep.rg_sync [OF stable_carries [OF p]]]])
      (auto intro!: keep.rg_return)
  have "rg (calm p) (keeps p) (keep.staged t bs)
      (io_match (temp_rename (persist_noclobber T) t p) (\<lambda>r. case r of
         Ok _ \<Rightarrow> io_bind (io_map_err se fs_sync) (\<lambda>_. io_return (Ok v))
       | Err e \<Rightarrow> then_drop T t (if io_kind e = AlreadyExists then again else io_return (Err (ce e)))))
      (\<lambda>r n. \<forall>v. r = Ok v \<longrightarrow> carries p parse v n)"
  proof (rule keep.rg_match [OF keep.rg_rename_noclobber [OF T grows_True]], rule rg_assume)
    fix r :: "io_error + unit"
    assume t: "is_temporary t"
    then have "t \<noteq> p" using p by auto
    show "rg (calm p) (keeps p) (\<lambda>n. r = Ok () \<longrightarrow> (\<exists>m. n p = Some (File m bs)))
        (case r of Ok _ \<Rightarrow> io_bind (io_map_err se fs_sync) (\<lambda>_. io_return (Ok v))
         | Err e \<Rightarrow> then_drop T t (if io_kind e = AlreadyExists then again else io_return (Err (ce e))))
        (\<lambda>r n. \<forall>v. r = Ok v \<longrightarrow> carries p parse v n)"
    proof (cases r)
      case (Inl e)
      have ended: "rg (calm p) (keeps p) (\<lambda>_. True) (if io_kind e = AlreadyExists then again else io_return (Err (ce e)))
          (\<lambda>r n. \<forall>v. r = Ok v \<longrightarrow> carries p parse v n)"
        by (auto intro: again keep.rg_return)
      show ?thesis
        unfolding Inl sum.case
        by (rule keep.rg_any, rule keep.rg_then_drop [OF T t ended]) (rule stable, rule kept [OF \<open>t \<noteq> p\<close>])
    next
      case (Inr u)
      show ?thesis
        unfolding Inr sum.case by (rule rg_conseq [OF sync]) (use parses in \<open>auto simp: carries_def\<close>)
    qed
  qed
  then show "rg (calm p) (keeps p) (\<lambda>n. \<forall>t'. Ok t = Ok t' \<longrightarrow> keep.staged t' bs n)
      (io_match (temp_rename (persist_noclobber T) t p) (\<lambda>r. case r of
         Ok _ \<Rightarrow> io_bind (io_map_err se fs_sync) (\<lambda>_. io_return (Ok v))
       | Err e \<Rightarrow> then_drop T t (if io_kind e = AlreadyExists then again else io_return (Err (ce e)))))
      (\<lambda>r n. \<forall>v. r = Ok v \<longrightarrow> carries p parse v n)"
    by (rule rg_conseq) simp_all
qed simp

lemma rg_load_value:
  assumes p: "\<not> is_temporary p"
    and create: "rg (calm p) (keeps p) (\<lambda>_. True) create (\<lambda>r n. \<forall>v. r = Ok v \<longrightarrow> carries p parse v n)"
  shows "rg (calm p) (keeps p) (\<lambda>_. True) (load_value p h pe re parse create)
    (\<lambda>r n. \<forall>v. r = Ok v \<longrightarrow> carries p parse v n)"
  unfolding load_value_def
proof (rule keep.rg_bind_always)
  show "rg (calm p) (keeps p) (\<lambda>_. True)
      (if h then io_map_err pe (harden_existing_parent p) else io_return (Ok ())) always"
    by (auto intro: keep.rg_map_err_always keep.rg_harden_existing_parent keep.rg_return_always)
  show "rg (calm p) (keeps p) (\<lambda>_. True) (io_bind (io_map_err pe (harden_existing_file p)) (\<lambda>_.
      io_match (fs_read_to_string p) (\<lambda>r. case r of
         Ok contents \<Rightarrow> io_return (parse contents)
       | Err e \<Rightarrow> if io_kind e = NotFound then create else io_return (Err (re e)))))
      (\<lambda>r n. \<forall>v. r = Ok v \<longrightarrow> carries p parse v n)" for u :: unit
  proof (rule keep.rg_bind_always [OF keep.rg_map_err_always [OF keep.rg_harden_existing_file]])
    show "rg (calm p) (keeps p) (\<lambda>_. True) (io_match (fs_read_to_string p) (\<lambda>r. case r of
         Ok contents \<Rightarrow> io_return (parse contents)
       | Err e \<Rightarrow> if io_kind e = NotFound then create else io_return (Err (re e))))
      (\<lambda>r n. \<forall>v. r = Ok v \<longrightarrow> carries p parse v n)" for u :: unit
    proof (rule keep.rg_match [OF rg_read_to_string [of p parse]])
      fix r :: "io_error + rstr"
      show "rg (calm p) (keeps p) (\<lambda>n. \<forall>s v. r = Ok s \<longrightarrow> parse s = Ok v \<longrightarrow> carries p parse v n)
          (case r of Ok contents \<Rightarrow> io_return (parse contents)
           | Err e \<Rightarrow> if io_kind e = NotFound then create else io_return (Err (re e)))
          (\<lambda>r n. \<forall>v. r = Ok v \<longrightarrow> carries p parse v n)"
        by (cases r) (auto intro: keep.rg_any create keep.rg_return)
    qed
  qed simp
qed simp

section \<open>Reading undisturbed\<close>

text \<open>With nobody interfering, a file that parses is returned and nothing is created.\<close>

lemma quiet_syscall:
  "script w = [] \<Longrightarrow> syscall op w = (case op (nodes w) of
     Err e \<Rightarrow> (Err e, w) | Ok (a, n) \<Rightarrow> (Ok a, w\<lparr>nodes := n\<rparr>))"
  by (simp add: syscall_def next_event_def quiet_def split: sum.split)

lemma target_node_file: "n p = Some (File m bs) \<Longrightarrow> target_node n p = Ok (p, File m bs)"
  by (simp add: target_node_def target_def numeral_eq_Suc)

lemma target_node_dir: "n p = Some (Dir m) \<Longrightarrow> target_node n p = Ok (p, Dir m)"
  by (simp add: target_node_def target_def numeral_eq_Suc)

lemma quiet_harden_parent:
  assumes "script w = []" "p \<noteq> []" "nodes w p = Some (File m bs)"
  shows "\<exists>w'. harden_existing_parent p w = (Ok (), w') \<and> script w' = [] \<and> nodes w' p = Some (File m bs)"
proof (cases "nodes w (butlast p)")
  case None
  then show ?thesis
    using assms by (simp add: harden_existing_parent_def parent_of_def io_match_def io_return_def
        fs_symlink_metadata_def quiet_syscall os_error_def)
next
  case (Some x)
  have ne: "p \<noteq> butlast p" using assms(2) by (metis append_butlast_last_id not_Cons_self2 self_append_conv)
  show ?thesis
    using assms Some ne
    by (cases x) (auto simp: harden_existing_parent_def parent_of_def io_match_def io_return_def
        fs_symlink_metadata_def quiet_syscall io_map_err_def set_directory_permissions_def on_unix_def
        fs_set_permissions_def target_node_dir)
qed

lemma quiet_harden_file:
  assumes "script w = []" "nodes w p = Some (File m bs)"
  shows "\<exists>w' m'. harden_existing_file p w = (Ok (), w') \<and> script w' = [] \<and> nodes w' p = Some (File m' bs)"
  using assms
  by (auto simp: harden_existing_file_def io_match_def io_return_def fs_symlink_metadata_def quiet_syscall
      io_map_err_def set_file_permissions_def on_unix_def fs_set_permissions_def target_node_file chmod_def)

lemma quiet_read_to_string:
  assumes "script w = []" "nodes w p = Some (File m bs)" "from_utf8 bs = Some s"
  shows "fs_read_to_string p w = (Ok s, w)"
  using assms
  by (simp add: fs_read_to_string_def fs_read_def read_file_def io_bind_def io_match_def io_return_def
      quiet_syscall target_node_file)

lemma quiet_load_value:
  assumes "script w = []" "p \<noteq> []" "nodes w p = Some (File m bs)" "from_utf8 bs = Some s"
  shows "fst (load_value p h pe re parse create w) = parse s"
proof -
  obtain w1 where w1: "(if h then io_map_err pe (harden_existing_parent p) else io_return (Ok ())) w = (Ok (), w1)"
      "script w1 = []" "nodes w1 p = Some (File m bs)"
    using quiet_harden_parent [OF assms(1-3)] assms(1,3)
    by (cases h) (auto simp: io_map_err_def io_match_def io_return_def)
  obtain w2 m2 where w2: "io_map_err pe (harden_existing_file p) w1 = (Ok (), w2)"
      "script w2 = []" "nodes w2 p = Some (File m2 bs)"
    using quiet_harden_file [OF w1(2,3)] by (auto simp: io_map_err_def io_match_def io_return_def)
  show ?thesis
    unfolding load_value_def
    using w1(1) w2(1) quiet_read_to_string [OF w2(2,3) assms(4)]
    by (simp add: io_bind_def io_match_def io_return_def)
qed

section \<open>Other files, and replacing a file\<close>

lemma carries_unique:
  "carries p parse v n \<Longrightarrow> carries p parse v' n \<Longrightarrow> (\<nexists>q. n p = Some (Symlink q)) \<Longrightarrow> v = v'"
  by (auto simp: carries_def split: option.splits node.splits)

lemma carries_kept:
  assumes "carries p parse v n" "keeps p n n'" "carries p parse v' n'" "\<not> is_temporary p"
    "\<nexists>q. n p = Some (Symlink q)"
  shows "v' = v"
proof -
  obtain m bs where n: "n p = Some (File m bs)"
    using assms(1,5) by (auto simp: carries_def split: option.splits node.splits)
  then obtain m' where "n' p = Some (File m' bs)" using keeps_file [OF assms(2,4)] by blast
  with n assms(1,3) show ?thesis by (auto simp: carries_def)
qed

context staging
begin

lemma rg_read_always: "rg R K (\<lambda>_. True) (fs_read_to_string p) always"
  unfolding fs_read_to_string_def fs_read_def
proof (rule rg_bind_always)
  show "rg R K (\<lambda>_. True) (syscall (read_file p)) always"
    by (rule rg_query) (auto simp: read_file_Ok)
qed (simp_all add: rg_return_always)

lemma rg_load_existing_always: "rg R K (\<lambda>_. True) (load_existing p pe re parse) always"
  unfolding load_existing_def
  by (rule rg_bind_always [OF rg_map_err_always [OF rg_harden_existing_file]],
      rule rg_bind_always [OF rg_map_err_always [OF rg_read_always]])
    (simp_all add: rg_return_always)

lemma rg_sync_always: "rg R K (\<lambda>_. True) (io_map_err g fs_sync) always"
  by (rule rg_map_err_always, rule rg_conseq [OF rg_sync [OF stable_const [of _ True]]]) simp_all

lemma rg_create_value_always:
  assumes T: "tempfile_laws T" and room: "grows C p" and again: "rg R K (\<lambda>_. True) again always"
  shows "rg R K (\<lambda>_. True) (create_value T p h pe se ce again v bs) always"
  unfolding create_value_def
proof (rule rg_bind [where S = "\<lambda>r n. \<forall>t. r = Ok t \<longrightarrow> staged t bs n"])
  show "rg R K (\<lambda>_. True) (io_map_err pe (create_synced_temporary T p bs h))
      (\<lambda>r n. \<forall>t. r = Ok t \<longrightarrow> staged t bs n)"
    by (rule rg_map_err, rule rg_conseq [OF rg_create_synced_temporary [OF T growsD(2) [OF room]]]) (auto simp: result_simps)
next
  fix t
  have "rg R K (staged t bs) (io_match (temp_rename (persist_noclobber T) t p) (\<lambda>r. case r of
         Ok _ \<Rightarrow> io_bind (io_map_err se fs_sync) (\<lambda>_. io_return (Ok v))
       | Err e \<Rightarrow> then_drop T t (if io_kind e = AlreadyExists then again else io_return (Err (ce e))))) always"
  proof (rule rg_match [OF rg_rename_noclobber [OF T room]], rule rg_assume, rule rg_any)
    fix r :: "io_error + unit"
    assume t: "is_temporary t"
    have "rg R K (\<lambda>_. True) (if io_kind e = AlreadyExists then again else io_return (Err (ce e))) always" for e
      by (simp add: again rg_return_always)
    then have "rg R K (\<lambda>_. True) (then_drop T t (if io_kind e = AlreadyExists then again else io_return (Err (ce e)))) always" for e
      by (rule rg_then_drop [OF T t]) (simp_all add: stable_def)
    then show "rg R K (\<lambda>_. True) (case r of Ok _ \<Rightarrow> io_bind (io_map_err se fs_sync) (\<lambda>_. io_return (Ok v))
         | Err e \<Rightarrow> then_drop T t (if io_kind e = AlreadyExists then again else io_return (Err (ce e)))) always"
      by (cases r) (simp_all add: rg_bind_always [OF rg_sync_always] rg_return_always)
  qed
  then show "rg R K (\<lambda>n. \<forall>t'. Ok t = Ok t' \<longrightarrow> staged t' bs n)
      (io_match (temp_rename (persist_noclobber T) t p) (\<lambda>r. case r of
         Ok _ \<Rightarrow> io_bind (io_map_err se fs_sync) (\<lambda>_. io_return (Ok v))
       | Err e \<Rightarrow> then_drop T t (if io_kind e = AlreadyExists then again else io_return (Err (ce e))))) always"
    by (rule rg_conseq) simp_all
qed simp

lemma rg_load_value_always:
  assumes "rg R K (\<lambda>_. True) create always"
  shows "rg R K (\<lambda>_. True) (load_value p h pe re parse create) always"
  unfolding load_value_def
proof (rule rg_bind_always)
  show "rg R K (\<lambda>_. True) (if h then io_map_err pe (harden_existing_parent p) else io_return (Ok ())) always"
    by (auto intro: rg_map_err_always rg_harden_existing_parent rg_return_always)
  show "rg R K (\<lambda>_. True) (io_bind (io_map_err pe (harden_existing_file p)) (\<lambda>_.
      io_match (fs_read_to_string p) (\<lambda>r. case r of
         Ok contents \<Rightarrow> io_return (parse contents)
       | Err e \<Rightarrow> if io_kind e = NotFound then create else io_return (Err (re e))))) always" for u :: unit
  proof (rule rg_bind_always [OF rg_map_err_always [OF rg_harden_existing_file]],
      rule rg_match_always [OF rg_read_always])
    fix r :: "io_error + rstr"
    show "rg R K (\<lambda>_. True) (case r of Ok contents \<Rightarrow> io_return (parse contents)
       | Err e \<Rightarrow> if io_kind e = NotFound then create else io_return (Err (re e))) always"
      by (cases r) (simp_all add: rg_return_always assms)
  qed simp
qed simp

lemma rg_persist:
  assumes T: "tempfile_laws T" and K: "\<And>n y. K n (n(p := y))"
  shows "rg R K (staged t bs) (temp_persist_with T (persist T) t p)
    (\<lambda>r n. r = Ok () \<longrightarrow> (\<exists>m. n p = Some (File m bs)))"
proof -
  let ?op = "\<lambda>n. map_ok (\<lambda>n'. ((), n')) (persist T t p n)"
  have sys: "rg R K (staged t bs) (temp_rename (persist T) t p)
      (\<lambda>r n. is_temporary t \<and> (r = Ok () \<longrightarrow> (\<exists>m. n p = Some (File m bs))))"
    unfolding temp_rename_def
  proof (rule rg_syscall [OF stable_staged])
    fix n u n'
    assume st: "staged t bs n" and op: "?op n = Ok (u, n')"
    then have "persist T t p n = Ok n'" by (simp add: result_simps)
    from tempfile_persist [OF T this] have n': "n' = renamed t p n" by simp
    from st obtain m where m: "n t = Some (File m bs)" and t: "is_temporary t" by (auto simp: staged_def)
    have "K (n(t := None)) n'" unfolding n' renamed_def by (rule K)
    then have "K n n'" using K_temporary [OF t plainI(1)] K_trans by blast
    then show "K n n' \<and> is_temporary t \<and> (Ok u = Ok () \<longrightarrow> (\<exists>m. n' p = Some (File m bs)))"
      using n' m t by (auto simp: renamed_def)
  qed (auto simp: staged_def)
  from T sys show ?thesis by (rule rg_persist_with)
qed

text \<open>Replacing the file at \<open>p\<close>: stage, rename, sync.\<close>

lemma rg_replace:
  assumes T: "tempfile_laws T" and room: "grows C p" and K: "\<And>n y. K n (n(p := y))"
    and Q: "stable R (\<lambda>n. \<exists>m. n p = Some (File m bs))"
  shows "rg R K (\<lambda>_. True)
    (io_bind (io_map_err pe (create_synced_temporary T p bs h)) (\<lambda>t.
     io_bind (io_map_err re (temp_persist_with T (persist T) t p)) (\<lambda>_. io_map_err se fs_sync)))
    (\<lambda>r n. is_ok r \<longrightarrow> (\<exists>m. n p = Some (File m bs)))"
proof (rule rg_bind [where S = "\<lambda>r n. \<forall>t. r = Ok t \<longrightarrow> staged t bs n"])
  show "rg R K (\<lambda>_. True) (io_map_err pe (create_synced_temporary T p bs h))
      (\<lambda>r n. \<forall>t. r = Ok t \<longrightarrow> staged t bs n)"
    by (rule rg_map_err, rule rg_conseq [OF rg_create_synced_temporary [OF T growsD(2) [OF room]]]) (auto simp: result_simps)
  fix t
  have "rg R K (staged t bs)
      (io_bind (io_map_err re (temp_persist_with T (persist T) t p)) (\<lambda>_. io_map_err se fs_sync))
      (\<lambda>r n. is_ok r \<longrightarrow> (\<exists>m. n p = Some (File m bs)))"
  proof (rule rg_bind [where S = "\<lambda>r n. is_ok r \<longrightarrow> (\<exists>m. n p = Some (File m bs))"])
    show "rg R K (staged t bs) (io_map_err re (temp_persist_with T (persist T) t p))
        (\<lambda>r n. is_ok r \<longrightarrow> (\<exists>m. n p = Some (File m bs)))"
      by (rule rg_map_err, rule rg_conseq [OF rg_persist [OF T K]]) (auto simp: result_simps)
    show "rg R K (\<lambda>n. is_ok (Ok u) \<longrightarrow> (\<exists>m. n p = Some (File m bs))) (io_map_err se fs_sync)
        (\<lambda>r n. is_ok r \<longrightarrow> (\<exists>m. n p = Some (File m bs)))" for u :: unit
      by (rule rg_map_err, rule rg_conseq [OF rg_sync [OF Q]]) auto
  qed simp
  then show "rg R K (\<lambda>n. \<forall>t'. Ok t = Ok t' \<longrightarrow> staged t' bs n)
      (io_bind (io_map_err re (temp_persist_with T (persist T) t p)) (\<lambda>_. io_map_err se fs_sync))
      (\<lambda>r n. is_ok r \<longrightarrow> (\<exists>m. n p = Some (File m bs)))"
    by (rule rg_conseq) simp_all
qed simp

end

lemma io_bind_Ok [simp]: "io_bind (io_return (Ok a)) f = f a"
  by (simp add: io_bind_def io_match_def io_return_def)

lemma io_bind_Err [simp]: "io_bind (io_return (Err e)) f = io_return (Err e)"
  by (simp add: io_bind_def io_match_def io_return_def)

lemma io_bind_assoc: "io_bind (io_bind m f) g = io_bind m (\<lambda>a. io_bind (f a) g)"
  unfolding io_bind_def io_match_def io_return_def by (auto split: prod.splits sum.splits)

text \<open>The writer of \<open>p\<close> relies on nobody else writing it; it need not keep it itself.\<close>

definition undisturbed :: "path \<Rightarrow> nodes \<Rightarrow> nodes \<Rightarrow> bool" where
  "undisturbed p n n' \<longleftrightarrow> n' p = n p \<and> (\<forall>t. is_temporary t \<longrightarrow> n' t = n t)"

interpretation replace: staging "undisturbed p" "\<lambda>_ _. True" "\<lambda>_. True" for p
  by unfold_locales (auto simp: undisturbed_def)

lemma stable_undisturbed: "stable (undisturbed p) (\<lambda>n. P (n p))"
  by (rule stableI) (simp add: undisturbed_def)

end
