(* ===== verification/Device_Name_Store.thy ===== *)
theory Device_Name_Store
  imports Device_Name Value_Store
begin

text \<open>
  The filesystem-backed store of the mutable display name
  (\<^verbatim>\<open>DeviceNameStore\<close> in \<^verbatim>\<open>crates/local-transfer-core/src/device_name.rs\<close>).
\<close>

definition DEVICE_NAME_FILE_NAME :: rstr where
  "DEVICE_NAME_FILE_NAME = ascii ''device-name''"

record DeviceNameStore =
  name_path :: path
  name_harden :: bool

definition DeviceNameStore_in_app_config :: "path \<Rightarrow> DeviceNameStore" where
  "DeviceNameStore_in_app_config directory =
     \<lparr>name_path = path_join directory DEVICE_NAME_FILE_NAME, name_harden = True\<rparr>"

datatype DeviceNameError =
    ConfigDirectoryUnavailable
  | InvalidPath path
  | Validation DeviceNameValidationError
  | Invalid path DeviceNameValidationError
  | Io rstr path io_error

fun display_DeviceNameError :: "DeviceNameError \<Rightarrow> rstr" where
  "display_DeviceNameError ConfigDirectoryUnavailable =
     ascii ''the local configuration directory is unavailable''"
| "display_DeviceNameError (InvalidPath path) =
     ascii ''device display name path has no parent: '' @ display_path path"
| "display_DeviceNameError (Validation source) = display_DeviceNameValidationError source"
| "display_DeviceNameError (Invalid path source) =
     ascii ''invalid persisted device display name at '' @ display_path path"
| "display_DeviceNameError (Io operation path source) =
     ascii ''failed to '' @ operation @ ascii '' at '' @ display_path path @ ascii '': '' @ io_text source"

fun name_operation :: "PersistenceOperation \<Rightarrow> rstr" where
  "name_operation InspectDirectory = ascii ''inspect device display name directory''"
| "name_operation CreateDirectory = ascii ''create device display name directory''"
| "name_operation HardenDirectory = ascii ''harden device display name directory permissions''"
| "name_operation HardenFile = ascii ''harden device display name file permissions''"
| "name_operation CreateTemporary = ascii ''create temporary device display name''"
| "name_operation WriteTemporary = ascii ''write temporary device display name''"
| "name_operation SyncTemporary = ascii ''sync temporary device display name''"

fun name_persistence_error :: "PersistenceError \<Rightarrow> DeviceNameError" where
  "name_persistence_error (PersistenceError.InvalidPath path) = InvalidPath path"
| "name_persistence_error (PersistenceError.Io operation path source) =
     Io (name_operation operation) path source"

definition name_io_error :: "DeviceNameStore \<Rightarrow> string \<Rightarrow> io_error \<Rightarrow> DeviceNameError" where
  "name_io_error self operation source = Io (ascii operation) (name_path self) source"

text \<open>\<^verbatim>\<open>contents.strip_suffix('\n').unwrap_or(contents)\<close>\<close>

definition strip_newline :: "rstr \<Rightarrow> rstr" where
  "strip_newline contents = (case strip_suffix_char 10 contents of None \<Rightarrow> contents | Some v \<Rightarrow> v)"

definition name_parse_persisted :: "DeviceNameStore \<Rightarrow> rstr \<Rightarrow> DeviceNameError + DeviceName" where
  "name_parse_persisted self contents =
     map_err (\<lambda>source. Invalid (name_path self) source) (DeviceName_new (strip_newline contents))"

definition name_write_temporary ::
  "tempfile \<Rightarrow> DeviceNameStore \<Rightarrow> DeviceName \<Rightarrow> (DeviceNameError, path) io" where
  "name_write_temporary T self name =
     io_map_err name_persistence_error
       (create_synced_temporary T (name_path self) (utf8_encode (display_DeviceName name @ [10]))
          (name_harden self))"

definition name_load_existing_after_race :: "DeviceNameStore \<Rightarrow> (DeviceNameError, DeviceName) io" where
  "name_load_existing_after_race self =
     io_bind (io_map_err name_persistence_error (harden_existing_file (name_path self))) (\<lambda>_.
     io_bind (io_map_err (name_io_error self ''read concurrently created device display name'')
                (fs_read_to_string (name_path self))) (\<lambda>contents.
       io_return (name_parse_persisted self contents)))"

definition name_create_default :: "tempfile \<Rightarrow> DeviceNameStore \<Rightarrow> (DeviceNameError, DeviceName) io" where
  "name_create_default T self =
     (let name = DeviceName_default in
      io_bind (name_write_temporary T self name) (\<lambda>t.
      io_match (temp_rename (persist_noclobber T) t (name_path self)) (\<lambda>r. case r of
          Ok _ \<Rightarrow> io_bind (io_map_err (name_io_error self ''sync device display name'') fs_sync)
                    (\<lambda>_. io_return (Ok name))
        | Err e \<Rightarrow> then_drop T t
            (if io_kind e = AlreadyExists then name_load_existing_after_race self
            else io_return (Err (name_io_error self ''persist device display name'' e))))))"

definition DeviceNameStore_load_or_create ::
  "tempfile \<Rightarrow> DeviceNameStore \<Rightarrow> (DeviceNameError, DeviceName) io" where
  "DeviceNameStore_load_or_create T self =
     io_bind (if name_harden self
              then io_map_err name_persistence_error (harden_existing_parent (name_path self))
              else io_return (Ok ())) (\<lambda>_.
     io_bind (io_map_err name_persistence_error (harden_existing_file (name_path self))) (\<lambda>_.
     io_match (fs_read_to_string (name_path self)) (\<lambda>r. case r of
         Ok contents \<Rightarrow> io_return (name_parse_persisted self contents)
       | Err e \<Rightarrow>
           if io_kind e = NotFound then name_create_default T self
           else io_return (Err (name_io_error self ''read device display name'' e)))))"

definition DeviceNameStore_update ::
  "tempfile \<Rightarrow> DeviceNameStore \<Rightarrow> rstr \<Rightarrow> (DeviceNameError, DeviceName) io" where
  "DeviceNameStore_update T self value =
     io_bind (io_return (map_err Validation (DeviceName_new value))) (\<lambda>name.
     io_bind (name_write_temporary T self name) (\<lambda>t.
     io_bind (io_map_err (name_io_error self ''persist device display name'')
                (temp_persist_with T (persist T) t (name_path self))) (\<lambda>_.
     io_bind (io_map_err (name_io_error self ''sync device display name'') fs_sync) (\<lambda>_.
       io_return (Ok name)))))"

section \<open>Facts\<close>

lemma name_load_alt:
  "DeviceNameStore_load_or_create T self =
     load_value (name_path self) (name_harden self) name_persistence_error
       (name_io_error self ''read device display name'') (name_parse_persisted self)
       (create_value T (name_path self) (name_harden self) name_persistence_error
          (name_io_error self ''sync device display name'')
          (name_io_error self ''persist device display name'')
          (load_existing (name_path self) name_persistence_error
             (name_io_error self ''read concurrently created device display name'')
             (name_parse_persisted self))
          DeviceName_default (utf8_encode (display_DeviceName DeviceName_default @ [10])))"
  unfolding DeviceNameStore_load_or_create_def load_value_def name_create_default_def Let_def
    create_value_def name_write_temporary_def name_load_existing_after_race_def load_existing_def
  by (rule refl)

text \<open>What is written reads back as the same name.\<close>

lemma name_persisted_roundtrip:
  assumes "wf_device_name n"
  shows "from_utf8 (utf8_encode (display_DeviceName n @ [10])) = Some (display_DeviceName n @ [10])"
    and "name_parse_persisted self (display_DeviceName n @ [10]) = Ok n"
proof -
  have "valid_str (display_DeviceName n @ [10])"
    using assms by (simp add: wf_device_name_def display_DeviceName_def is_scalar_def)
  then show "from_utf8 (utf8_encode (display_DeviceName n @ [10])) = Some (display_DeviceName n @ [10])"
    by (rule from_utf8_encode)
  show "name_parse_persisted self (display_DeviceName n @ [10]) = Ok n"
    using assms by (simp add: name_parse_persisted_def strip_newline_def wf_device_name_def display_DeviceName_def)
qed

lemma name_path_not_temporary: "\<not> is_temporary (path_join d DEVICE_NAME_FILE_NAME)"
  by (auto simp: is_temporary_def temporary_in_def path_join_def DEVICE_NAME_FILE_NAME_def ascii_def)

lemma rg_name_load:
  assumes "tempfile_laws T" "\<not> is_temporary (name_path self)"
  shows "rg (calm (name_path self)) (keeps (name_path self)) (\<lambda>_. True)
    (DeviceNameStore_load_or_create T self)
    (\<lambda>r n. \<forall>v. r = Ok v \<longrightarrow> carries (name_path self) (name_parse_persisted self) v n)"
  unfolding name_load_alt
  by (rule rg_load_value [OF assms(2)], rule rg_create_value [OF assms(2,1) rg_load_existing [OF assms(2)]],
      rule name_persisted_roundtrip(1) [OF wf_device_name_default],
      rule name_persisted_roundtrip(2) [OF wf_device_name_default])

context staging
begin

lemma rg_name_load_always:
  "tempfile_laws T \<Longrightarrow> grows C (name_path self) \<Longrightarrow> rg R K (\<lambda>_. True) (DeviceNameStore_load_or_create T self) always"
  unfolding name_load_alt
  by (rule rg_load_value_always, rule rg_create_value_always, assumption, assumption, rule rg_load_existing_always)

end

lemma name_update_alt:
  "DeviceNameStore_update T self value = (case DeviceName_new value of
     Err e \<Rightarrow> io_return (Err (Validation e))
   | Ok name \<Rightarrow>
       io_bind (io_bind (io_map_err name_persistence_error
           (create_synced_temporary T (name_path self) (utf8_encode (display_DeviceName name @ [10])) (name_harden self)))
         (\<lambda>t. io_bind (io_map_err (name_io_error self ''persist device display name'')
                (temp_persist_with T (persist T) t (name_path self)))
              (\<lambda>_. io_map_err (name_io_error self ''sync device display name'') fs_sync)))
       (\<lambda>_. io_return (Ok name)))"
  by (simp add: DeviceNameStore_update_def name_write_temporary_def io_bind_assoc split: sum.split)

text \<open>An accepted name is in the file when \<^verbatim>\<open>update\<close> returns, whatever failed before.\<close>

lemma rg_name_update:
  assumes T: "tempfile_laws T"
  shows "rg (undisturbed (name_path self)) (\<lambda>_ _. True) (\<lambda>_. True) (DeviceNameStore_update T self value)
    (\<lambda>r n. \<forall>name. r = Ok name \<longrightarrow> DeviceName_new value = Ok name \<and>
       (\<exists>m. n (name_path self) = Some (File m (utf8_encode (display_DeviceName name @ [10])))))"
proof (cases "DeviceName_new value")
  case (Inl e)
  then show ?thesis by (simp add: name_update_alt replace.rg_return)
next
  case (Inr name)
  show ?thesis
    unfolding name_update_alt Inr sum.case
    by (rule replace.rg_bind [OF replace.rg_replace [OF T grows_True]])
      (auto intro: stable_undisturbed replace.rg_return)
qed

context staging
begin

lemma rg_name_update_always:
  assumes T: "tempfile_laws T" and room: "grows C (name_path self)"
    and K: "\<And>n y. K n (n(name_path self := y))"
  shows "rg R K (\<lambda>_. True) (DeviceNameStore_update T self value) always"
proof (cases "DeviceName_new value")
  case (Inl e)
  then show ?thesis by (simp add: name_update_alt rg_return_always)
next
  case (Inr name)
  have persist: "rg R K (staged t bs) (temp_persist_with T (persist T) t (name_path self)) always" for t bs
    by (rule rg_conseq [OF rg_persist [OF T K]]) simp_all
  show ?thesis
    unfolding name_update_alt Inr sum.case
  proof (rule rg_bind_always)
    show "rg R K (\<lambda>_. True) (io_bind (io_map_err name_persistence_error
        (create_synced_temporary T (name_path self) (utf8_encode (display_DeviceName name @ [10])) (name_harden self)))
      (\<lambda>t. io_bind (io_map_err (name_io_error self ''persist device display name'')
             (temp_persist_with T (persist T) t (name_path self)))
           (\<lambda>_. io_map_err (name_io_error self ''sync device display name'') fs_sync))) always"
    proof (rule rg_bind [where S = "\<lambda>r n. \<forall>t. r = Ok t \<longrightarrow> staged t (utf8_encode (display_DeviceName name @ [10])) n"])
      show "rg R K (\<lambda>_. True) (io_map_err name_persistence_error (create_synced_temporary T (name_path self)
          (utf8_encode (display_DeviceName name @ [10])) (name_harden self)))
          (\<lambda>r n. \<forall>t. r = Ok t \<longrightarrow> staged t (utf8_encode (display_DeviceName name @ [10])) n)"
        by (rule rg_map_err, rule rg_conseq [OF rg_create_synced_temporary [OF T growsD(2) [OF room]]]) (auto simp: result_simps)
      fix t
      have "rg R K (staged t (utf8_encode (display_DeviceName name @ [10])))
          (io_bind (io_map_err (name_io_error self ''persist device display name'')
             (temp_persist_with T (persist T) t (name_path self)))
           (\<lambda>_. io_map_err (name_io_error self ''sync device display name'') fs_sync)) always"
        by (rule rg_bind [where S = always], rule rg_map_err, rule rg_conseq [OF persist])
          (auto intro: rg_any rg_sync_always)
      then show "rg R K (\<lambda>n. \<forall>t'. Ok t = Ok t' \<longrightarrow> staged t' (utf8_encode (display_DeviceName name @ [10])) n)
          (io_bind (io_map_err (name_io_error self ''persist device display name'')
             (temp_persist_with T (persist T) t (name_path self)))
           (\<lambda>_. io_map_err (name_io_error self ''sync device display name'') fs_sync)) always"
        by (rule rg_conseq) simp_all
    qed simp
  qed (simp_all add: rg_return_always)
qed

end

end
