(* ===== verification/Identity.thy ===== *)
theory Identity
  imports Value_Store Device_Name_Store
begin

text \<open>
  The stable device identity (\<^verbatim>\<open>crates/local-transfer-core/src/identity.rs\<close>). The crate
  \<^verbatim>\<open>uuid\<close> is the parameter record \<open>uuid_ops\<close>, with the laws of its documentation in
  \<open>uuid_laws\<close>; the identifier \<^verbatim>\<open>Uuid::new_v4()\<close> draws is an argument of the operations
  that may draw one.
\<close>

section \<open>Identifiers\<close>

record 'u uuid_ops =
  uuid_parse_str :: "rstr \<Rightarrow> 'u option"
  uuid_hyphenated :: "'u \<Rightarrow> rstr"
  uuid_version_num :: "'u \<Rightarrow> nat"

text \<open>
  The hyphenated form is parsed back, and consists of lowercase hexadecimal digits and hyphens.
\<close>

definition uuid_laws :: "'u uuid_ops \<Rightarrow> bool" where
  "uuid_laws U \<longleftrightarrow>
     (\<forall>u. uuid_parse_str U (uuid_hyphenated U u) = Some u) \<and>
     (\<forall>u. \<forall>c\<in>set (uuid_hyphenated U u). c = 45 \<or> (48 \<le> c \<and> c \<le> 57) \<or> (97 \<le> c \<and> c \<le> 102))"

datatype 'u DeviceId = DeviceId 'u

datatype ParseDeviceIdError = ParseDeviceIdError

definition DeviceId_random :: "'u \<Rightarrow> 'u DeviceId" where
  "DeviceId_random new_v4 = DeviceId new_v4"

fun display_DeviceId :: "'u uuid_ops \<Rightarrow> 'u DeviceId \<Rightarrow> rstr" where
  "display_DeviceId U (DeviceId u) = uuid_hyphenated U u"

definition DeviceId_from_str :: "'u uuid_ops \<Rightarrow> rstr \<Rightarrow> ParseDeviceIdError + 'u DeviceId" where
  "DeviceId_from_str U value =
     and_then (ok_or ParseDeviceIdError (uuid_parse_str U value)) (\<lambda>uuid.
       if value \<noteq> uuid_hyphenated U uuid \<or> uuid_version_num U uuid \<noteq> 4
       then Err ParseDeviceIdError else Ok (DeviceId uuid))"

definition display_ParseDeviceIdError :: "ParseDeviceIdError \<Rightarrow> rstr" where
  "display_ParseDeviceIdError e = ascii ''expected a canonical UUID version 4 device ID''"

section \<open>The store\<close>

definition IDENTITY_FILE_NAME :: rstr where
  "IDENTITY_FILE_NAME = ascii ''device-id''"

record DeviceIdStore =
  id_path :: path
  id_harden :: bool

definition DeviceIdStore_in_app_config :: "path \<Rightarrow> DeviceIdStore" where
  "DeviceIdStore_in_app_config directory =
     \<lparr>id_path = path_join directory IDENTITY_FILE_NAME, id_harden = True\<rparr>"

datatype DeviceIdError =
    ConfigDirectoryUnavailable
  | InvalidPath path
  | Invalid path ParseDeviceIdError
  | Io rstr path io_error

fun display_DeviceIdError :: "DeviceIdError \<Rightarrow> rstr" where
  "display_DeviceIdError ConfigDirectoryUnavailable =
     ascii ''the local configuration directory is unavailable''"
| "display_DeviceIdError (InvalidPath path) =
     ascii ''device identity path has no parent: '' @ display_path path"
| "display_DeviceIdError (Invalid path source) =
     ascii ''invalid persisted device identity at '' @ display_path path"
| "display_DeviceIdError (Io operation path source) =
     ascii ''failed to '' @ operation @ ascii '' at '' @ display_path path @ ascii '': '' @ io_text source"

fun id_operation :: "PersistenceOperation \<Rightarrow> rstr" where
  "id_operation InspectDirectory = ascii ''inspect device identity directory''"
| "id_operation CreateDirectory = ascii ''create device identity directory''"
| "id_operation HardenDirectory = ascii ''harden device identity directory permissions''"
| "id_operation HardenFile = ascii ''harden device identity file permissions''"
| "id_operation CreateTemporary = ascii ''create temporary device identity''"
| "id_operation WriteTemporary = ascii ''write temporary device identity''"
| "id_operation SyncTemporary = ascii ''sync temporary device identity''"

fun id_persistence_error :: "PersistenceError \<Rightarrow> DeviceIdError" where
  "id_persistence_error (PersistenceError.InvalidPath path) = InvalidPath path"
| "id_persistence_error (PersistenceError.Io operation path source) =
     Io (id_operation operation) path source"

definition id_parse_persisted ::
  "'u uuid_ops \<Rightarrow> DeviceIdStore \<Rightarrow> rstr \<Rightarrow> DeviceIdError + 'u DeviceId" where
  "id_parse_persisted U self contents =
     map_err (\<lambda>source. Invalid (id_path self) source) (DeviceId_from_str U (strip_newline contents))"

definition id_load_existing_after_race ::
  "'u uuid_ops \<Rightarrow> DeviceIdStore \<Rightarrow> (DeviceIdError, 'u DeviceId) io" where
  "id_load_existing_after_race U self =
     io_bind (io_map_err id_persistence_error (harden_existing_file (id_path self))) (\<lambda>_.
     io_bind (io_map_err (Io (ascii ''read concurrently created device identity'') (id_path self))
                (fs_read_to_string (id_path self))) (\<lambda>contents.
       io_return (id_parse_persisted U self contents)))"

definition id_create ::
  "tempfile \<Rightarrow> 'u uuid_ops \<Rightarrow> 'u \<Rightarrow> DeviceIdStore \<Rightarrow> (DeviceIdError, 'u DeviceId) io" where
  "id_create T U new_v4 self =
     (let device_id = DeviceId_random new_v4 in
      io_bind (io_map_err id_persistence_error
        (create_synced_temporary T (id_path self) (utf8_encode (display_DeviceId U device_id @ [10]))
           (id_harden self))) (\<lambda>t.
      io_match (temp_rename (persist_noclobber T) t (id_path self)) (\<lambda>r. case r of
          Ok _ \<Rightarrow> io_bind (io_map_err (Io (ascii ''sync device identity'') (id_path self)) fs_sync)
                    (\<lambda>_. io_return (Ok device_id))
        | Err e \<Rightarrow> then_drop T t
            (if io_kind e = AlreadyExists then id_load_existing_after_race U self
            else io_return (Err (Io (ascii ''persist device identity'') (id_path self) e))))))"

definition DeviceIdStore_load_or_create ::
  "tempfile \<Rightarrow> 'u uuid_ops \<Rightarrow> 'u \<Rightarrow> DeviceIdStore \<Rightarrow> (DeviceIdError, 'u DeviceId) io" where
  "DeviceIdStore_load_or_create T U new_v4 self =
     io_bind (if id_harden self
              then io_map_err id_persistence_error (harden_existing_parent (id_path self))
              else io_return (Ok ())) (\<lambda>_.
     io_bind (io_map_err id_persistence_error (harden_existing_file (id_path self))) (\<lambda>_.
     io_match (fs_read_to_string (id_path self)) (\<lambda>r. case r of
         Ok contents \<Rightarrow> io_return (id_parse_persisted U self contents)
       | Err e \<Rightarrow>
           if io_kind e = NotFound then id_create T U new_v4 self
           else io_return (Err (Io (ascii ''read device identity'') (id_path self) e)))))"

section \<open>Facts\<close>

lemma DeviceId_from_str_Ok:
  "DeviceId_from_str U s = Ok (DeviceId u) \<longleftrightarrow>
     uuid_parse_str U s = Some u \<and> s = uuid_hyphenated U u \<and> uuid_version_num U u = 4"
  by (auto simp: DeviceId_from_str_def result_simps split: if_splits)

lemma DeviceId_canonical:
  "uuid_laws U \<Longrightarrow> DeviceId_from_str U s = Ok (DeviceId u) \<longleftrightarrow>
     s = uuid_hyphenated U u \<and> uuid_version_num U u = 4"
  by (auto simp: DeviceId_from_str_Ok uuid_laws_def)

lemma hyphenated_valid: "uuid_laws U \<Longrightarrow> valid_str (uuid_hyphenated U u)"
  unfolding valid_str_def list_all_iff uuid_laws_def is_scalar_def by fastforce

lemma id_persisted_roundtrip:
  assumes "uuid_laws U" "uuid_version_num U u = 4"
  shows "from_utf8 (utf8_encode (display_DeviceId U (DeviceId u) @ [10])) = Some (display_DeviceId U (DeviceId u) @ [10])"
    and "id_parse_persisted U self (display_DeviceId U (DeviceId u) @ [10]) = Ok (DeviceId u)"
proof -
  have "valid_str (display_DeviceId U (DeviceId u) @ [10])"
    using hyphenated_valid [OF assms(1), of u] by (simp add: is_scalar_def)
  then show "from_utf8 (utf8_encode (display_DeviceId U (DeviceId u) @ [10])) = Some (display_DeviceId U (DeviceId u) @ [10])"
    by (rule from_utf8_encode)
  have "DeviceId_from_str U (uuid_hyphenated U u) = Ok (DeviceId u)"
    using DeviceId_canonical [OF assms(1)] assms(2) by blast
  then show "id_parse_persisted U self (display_DeviceId U (DeviceId u) @ [10]) = Ok (DeviceId u)"
    by (simp add: id_parse_persisted_def strip_newline_def)
qed

lemma id_path_not_temporary: "\<not> is_temporary (path_join d IDENTITY_FILE_NAME)"
  by (auto simp: is_temporary_def temporary_in_def path_join_def IDENTITY_FILE_NAME_def ascii_def)

lemma id_load_alt:
  "DeviceIdStore_load_or_create T U v4 self =
     load_value (id_path self) (id_harden self) id_persistence_error
       (Io (ascii ''read device identity'') (id_path self)) (id_parse_persisted U self)
       (create_value T (id_path self) (id_harden self) id_persistence_error
          (Io (ascii ''sync device identity'') (id_path self))
          (Io (ascii ''persist device identity'') (id_path self))
          (load_existing (id_path self) id_persistence_error
             (Io (ascii ''read concurrently created device identity'') (id_path self))
             (id_parse_persisted U self))
          (DeviceId v4) (utf8_encode (display_DeviceId U (DeviceId v4) @ [10])))"
  unfolding DeviceIdStore_load_or_create_def load_value_def id_create_def Let_def DeviceId_random_def
    create_value_def id_load_existing_after_race_def load_existing_def
  by (rule refl)

lemma rg_id_load:
  assumes "tempfile_laws T" "uuid_laws U" "uuid_version_num U v4 = 4" "\<not> is_temporary (id_path self)"
  shows "rg (calm (id_path self)) (keeps (id_path self)) (\<lambda>_. True)
    (DeviceIdStore_load_or_create T U v4 self)
    (\<lambda>r n. \<forall>v. r = Ok v \<longrightarrow> carries (id_path self) (id_parse_persisted U self) v n)"
  unfolding id_load_alt
  by (rule rg_load_value [OF assms(4)], rule rg_create_value [OF assms(4,1) rg_load_existing [OF assms(4)]],
      rule id_persisted_roundtrip(1) [OF assms(2,3)], rule id_persisted_roundtrip(2) [OF assms(2,3)])

text \<open>
  Two runs of \<^verbatim>\<open>load_or_create\<close>, in one process after another or racing in two: the second
  starts when the environment, the first run included, has kept the file since.
\<close>

lemma id_stable:
  assumes laws: "tempfile_laws T" "uuid_laws U" "uuid_version_num U a = 4" "uuid_version_num U b = 4"
    and p: "\<not> is_temporary (id_path self)"
    and one: "env_ok (calm (id_path self)) w" "DeviceIdStore_load_or_create T U a self w = (Ok i, w1)"
    and between: "keeps (id_path self) (nodes w1) (nodes w2)"
    and two: "env_ok (calm (id_path self)) w2" "DeviceIdStore_load_or_create T U b self w2 = (Ok j, w3)"
    and no_link: "\<nexists>q. nodes w1 (id_path self) = Some (Symlink q)"
  shows "j = i"
proof -
  note first = rgD [OF rg_id_load [OF laws(1-3) p] one(1) TrueI one(2)]
  note second = rgD [OF rg_id_load [OF laws(1,2,4) p] two(1) TrueI two(2)]
  have i: "carries (id_path self) (id_parse_persisted U self) i (nodes w1)" using first(3) by simp
  have j: "carries (id_path self) (id_parse_persisted U self) j (nodes w3)" using second(3) by simp
  show ?thesis
    by (rule carries_kept [OF i keeps_trans [OF between second(1)] j p no_link])
qed

context staging
begin

lemma rg_id_load_always:
  "tempfile_laws T \<Longrightarrow> grows C (id_path self) \<Longrightarrow> rg R K (\<lambda>_. True) (DeviceIdStore_load_or_create T U v4 self) always"
  unfolding id_load_alt
  by (rule rg_load_value_always, rule rg_create_value_always, assumption, assumption, rule rg_load_existing_always)

end

end
