(* ===== verification/Local_Device.thy ===== *)
theory Local_Device
  imports Identity Device_Name_Store Local_Platform
begin

text \<open>
  The local device (\<^verbatim>\<open>crates/local-transfer-core/src/local_device.rs\<close>): platform first,
  then the permanent identity, then the display name. The configuration directory
  \<^verbatim>\<open>ProjectDirs\<close> reports and \<^verbatim>\<open>std::env::consts::OS\<close> are arguments.
\<close>

record 'u LocalDevice =
  device_id :: "'u DeviceId"
  device_name :: DeviceName
  device_platform :: Platform

datatype PlatformSource = Current | Target rstr

record LocalDeviceManager =
  manager_id_store :: DeviceIdStore
  manager_name_store :: DeviceNameStore
  manager_platform :: PlatformSource

datatype LocalDeviceError =
    ConfigDirectoryUnavailable
  | DeviceIdFailed DeviceIdError
  | DeviceNameFailed DeviceNameError
  | PlatformFailed UnsupportedPlatformError

fun display_LocalDeviceError :: "LocalDeviceError \<Rightarrow> rstr" where
  "display_LocalDeviceError ConfigDirectoryUnavailable =
     ascii ''the local configuration directory is unavailable''"
| "display_LocalDeviceError (DeviceIdFailed source) =
     ascii ''local device ID error: '' @ display_DeviceIdError source"
| "display_LocalDeviceError (DeviceNameFailed source) =
     ascii ''local device name error: '' @ display_DeviceNameError source"
| "display_LocalDeviceError (PlatformFailed source) =
     ascii ''local device platform error: '' @ display_UnsupportedPlatformError source"

fun PlatformSource_detect :: "rstr \<Rightarrow> PlatformSource \<Rightarrow> UnsupportedPlatformError + Platform" where
  "PlatformSource_detect consts_OS Current = Platform_current consts_OS"
| "PlatformSource_detect consts_OS (Target os) = from_target_os os"

definition LocalDeviceManager_in_app_config :: "path \<Rightarrow> LocalDeviceManager" where
  "LocalDeviceManager_in_app_config directory =
     \<lparr>manager_id_store = DeviceIdStore_in_app_config directory,
      manager_name_store = DeviceNameStore_in_app_config directory,
      manager_platform = Current\<rparr>"

definition LocalDeviceManager_for_current_user :: "path option \<Rightarrow> LocalDeviceError + LocalDeviceManager" where
  "LocalDeviceManager_for_current_user config_dir =
     and_then (ok_or ConfigDirectoryUnavailable config_dir) (\<lambda>dir.
       Ok (LocalDeviceManager_in_app_config dir))"

definition LocalDeviceManager_load ::
  "rstr \<Rightarrow> tempfile \<Rightarrow> 'u uuid_ops \<Rightarrow> 'u \<Rightarrow> LocalDeviceManager \<Rightarrow> (LocalDeviceError, 'u LocalDevice) io" where
  "LocalDeviceManager_load consts_OS T U new_v4 self =
     io_bind (io_return (map_err PlatformFailed (PlatformSource_detect consts_OS (manager_platform self)))) (\<lambda>platform.
     io_bind (io_map_err DeviceIdFailed (DeviceIdStore_load_or_create T U new_v4 (manager_id_store self))) (\<lambda>ident.
     io_bind (io_map_err DeviceNameFailed (DeviceNameStore_load_or_create T (manager_name_store self))) (\<lambda>name.
       io_return (Ok \<lparr>device_id = ident, device_name = name, device_platform = platform\<rparr>))))"

definition LocalDeviceManager_update_name ::
  "tempfile \<Rightarrow> LocalDeviceManager \<Rightarrow> rstr \<Rightarrow> (LocalDeviceError, DeviceName) io" where
  "LocalDeviceManager_update_name T self value =
     io_map_err DeviceNameFailed (DeviceNameStore_update T (manager_name_store self) value)"

section \<open>Facts\<close>

definition in_app_config :: "LocalDeviceManager \<Rightarrow> bool" where
  "in_app_config m \<longleftrightarrow> (\<exists>d. m = LocalDeviceManager_in_app_config d)"

lemma app_config_paths:
  assumes "in_app_config m"
  shows "id_path (manager_id_store m) \<noteq> name_path (manager_name_store m)"
    "\<not> is_temporary (id_path (manager_id_store m))" "\<not> is_temporary (name_path (manager_name_store m))"
  using assms id_path_not_temporary name_path_not_temporary
  by (auto simp: in_app_config_def LocalDeviceManager_in_app_config_def DeviceIdStore_in_app_config_def
      DeviceNameStore_in_app_config_def)
    (simp add: path_join_def IDENTITY_FILE_NAME_def DEVICE_NAME_FILE_NAME_def ascii_def)

lemma unsupported_platform_untouched:
  "PlatformSource_detect os (manager_platform m) = Err e \<Longrightarrow>
     LocalDeviceManager_load os T U v4 m w = (Err (PlatformFailed e), w)"
  by (simp add: LocalDeviceManager_load_def) (simp add: io_return_def)

lemma failed_id_stops:
  assumes "PlatformSource_detect os (manager_platform m) = Ok p"
    "DeviceIdStore_load_or_create T U v4 (manager_id_store m) w = (Err e, w')"
  shows "LocalDeviceManager_load os T U v4 m w = (Err (DeviceIdFailed e), w')"
  using assms by (simp add: LocalDeviceManager_load_def io_bind_def io_map_err_def io_match_def io_return_def)

context staging
begin

lemma rg_load_always:
  assumes "tempfile_laws T" "grows C (id_path (manager_id_store m))" "grows C (name_path (manager_name_store m))"
  shows "rg R K (\<lambda>_. True) (LocalDeviceManager_load os T U v4 m) always"
proof (cases "PlatformSource_detect os (manager_platform m)")
  case (Inr p)
  show ?thesis
    unfolding LocalDeviceManager_load_def Inr map_err_simps io_bind_Ok
    by (rule rg_bind_always [OF rg_map_err_always [OF rg_id_load_always [OF assms(1,2)]]],
        rule rg_bind_always [OF rg_map_err_always [OF rg_name_load_always [OF assms(1,3)]]])
      (simp_all add: rg_return_always)
qed (simp add: LocalDeviceManager_load_def rg_return_always)

end

lemma load_keeps:
  "tempfile_laws T \<Longrightarrow> env_ok (calm p) w \<Longrightarrow> LocalDeviceManager_load os T U v4 m w = (r, w') \<Longrightarrow>
     keeps p (nodes w) (nodes w')"
  by (rule rgD(1) [OF keep.rg_load_always [OF _ grows_True grows_True] _ TrueI])

lemma update_name_keeps:
  assumes "tempfile_laws T" "p \<noteq> name_path (manager_name_store m)" "env_ok (calm p) w"
    "LocalDeviceManager_update_name T m value w = (r, w')"
  shows "keeps p (nodes w) (nodes w')"
proof -
  have "rg (calm p) (keeps p) (\<lambda>_. True) (LocalDeviceManager_update_name T m value) always"
    unfolding LocalDeviceManager_update_name_def
    by (rule keep.rg_map_err_always, rule keep.rg_name_update_always [OF assms(1) grows_True])
      (rule keeps_other, use assms(2) in simp)
  from rgD(1) [OF this assms(3) _ assms(4)] show ?thesis by simp
qed

end
