(* ===== verification/Samples.thy ===== *)
theory Samples
  imports Value_Store
begin

text \<open>
  Concrete instances of the file-system parameters, on which the properties of the stores are run:
  an implementation of the temporary-file interface that keeps its laws, and a directory at rest.
\<close>

definition sample_tempfile :: tempfile where
  "sample_tempfile = \<lparr>
     new_in = \<lambda>d n. let t = d @ [ascii ''.tmp'' @ ascii ''a''] in
       if n t = None then Ok (t, n(t \<mapsto> File 384 [])) else Err (os_error AlreadyExists ''File exists''),
     persist = \<lambda>t p n. if n t = None then Err (os_error NotFound ''gone'') else Ok (renamed t p n),
     persist_noclobber = \<lambda>t p n. if n t = None then Err (os_error NotFound ''gone'')
       else if n p = None then Ok (renamed t p n) else Err (os_error AlreadyExists ''File exists''),
     drop_temporary = \<lambda>t n. n(t := None)\<rparr>"

lemma sample_tempfile_laws: "tempfile_laws sample_tempfile"
  by (auto simp: tempfile_laws_def sample_tempfile_def temporary_in_def Let_def split: if_splits)

text \<open>The rules that run a store operation on a file system at rest, and a directory to run it in.\<close>

lemmas io_run = io_bind_def io_match_def io_return_def io_map_err_def quiet_syscall
  fs_symlink_metadata_def fs_set_permissions_def fs_sync_def fs_create_dir_all_def temp_new_in_def
  temp_write_all_def temp_set_permissions_def temp_persist_with_def temp_rename_def target_node_file target_node_dir
  chmod_def create_synced_temporary_def prepare_parent_def harden_existing_parent_def
  existing_directory_def set_directory_permissions_def set_file_permissions_def
  set_open_file_permissions_def on_unix_def fill_temporary_def parent_of_def renamed_def os_error_def

lemma create_existing_dir [simp]: "n [[46]] = Some (Dir m) \<Longrightarrow> create_dirs [[46]] n = Ok n"
  by (simp add: create_dirs.simps [of "[[46]]"] mkdir_def is_dir_def target_node_dir os_error_def)

definition sample_directory :: world where
  "sample_directory = \<lparr>nodes = [[[46]] \<mapsto> Dir 448], script = [], held_locks = [], unix_target = True\<rparr>"

lemma sample_directory_quiet: "script sample_directory = []" "env_ok R sample_directory"
  by (simp_all add: sample_directory_def env_ok_def)

end
