(* ===== verification/Store_Properties.thy ===== *)
theory Store_Properties
  imports Local_Device Samples
begin

text \<open>
  What makes the persisted identity and name correct (\<^verbatim>\<open>identity.rs\<close>,
  \<^verbatim>\<open>device_name.rs\<close>, \<^verbatim>\<open>local_device.rs\<close> over
  \<^verbatim>\<open>persistence.rs\<close>), with other processes running between any two system calls. The
  instances use the sample temporary files of \<^verbatim>\<open>Samples\<close> and a sample of the UUID crate.
\<close>

section \<open>Sample parameters\<close>

text \<open>A crate with a single version 4 identifier, written \<open>a\<close>.\<close>

definition sample_uuid :: "unit uuid_ops" where
  "sample_uuid = \<lparr>uuid_parse_str = \<lambda>s. if s = ascii ''a'' then Some () else None,
     uuid_hyphenated = \<lambda>_. ascii ''a'', uuid_version_num = \<lambda>_. 4\<rparr>"

lemma sample_uuid_laws: "uuid_laws sample_uuid" "uuid_version_num sample_uuid u = 4"
  by (simp_all add: uuid_laws_def sample_uuid_def ascii_def)

definition sample_manager :: LocalDeviceManager where
  "sample_manager = LocalDeviceManager_in_app_config [ascii ''etc'']"

abbreviation sample_id_path :: path where
  "sample_id_path \<equiv> id_path (manager_id_store sample_manager)"

text \<open>A file system that holds only a device identity, in which nobody else runs.\<close>

definition sample_world :: world where
  "sample_world = \<lparr>nodes = [sample_id_path \<mapsto> File 384 (utf8_encode (display_DeviceId sample_uuid (DeviceId ()) @ [10]))],
     script = [], held_locks = [], unix_target = True\<rparr>"

lemma sample_world_quiet: "script sample_world = []" "env_ok R sample_world"
  by (simp_all add: sample_world_def env_ok_def)

lemma sample_paths: "\<not> is_temporary sample_id_path" "sample_id_path \<noteq> []"
  using id_path_not_temporary [of "[ascii ''etc'']"]
  by (simp_all add: sample_manager_def LocalDeviceManager_in_app_config_def DeviceIdStore_in_app_config_def)
    (simp add: path_join_def)

lemma sample_id_run:
  "fst (DeviceIdStore_load_or_create T sample_uuid v4 (manager_id_store sample_manager) sample_world) = Ok (DeviceId ())"
  unfolding id_load_alt
  by (rule trans [OF quiet_load_value [OF sample_world_quiet(1) sample_paths(2) _
          id_persisted_roundtrip(1) [OF sample_uuid_laws, of "()"]]])
    (simp add: sample_world_def, rule id_persisted_roundtrip(2) [OF sample_uuid_laws])

section \<open>Identity\<close>

text \<open>A stored file is never overwritten by loading the local device, whichever path \<open>p\<close> it
  is: if every other process keeps \<open>p\<close> too, then after a load, however it ends, a file that was
  at \<open>p\<close> is still there with its contents, with at most its permission bits changed.\<close>

theorem load_never_overwrites:
  assumes "tempfile_laws T" "env_ok (calm p) w" "LocalDeviceManager_load os T U v4 m w = (r, w')"
  shows "keeps p (nodes w) (nodes w')"
  by (rule load_keeps [OF assms])

theorem load_never_overwrites_witness:
  "keeps sample_id_path (nodes sample_world)
     (nodes (snd (LocalDeviceManager_load (ascii ''linux'') sample_tempfile sample_uuid () sample_manager sample_world)))"
  by (rule load_never_overwrites [OF sample_tempfile_laws sample_world_quiet(2) prod.collapse [symmetric]])



text \<open>A persisted identity is accepted only in canonical form: the text parses exactly when it
  is the lowercase hyphenated form of a version 4 identifier.\<close>

theorem device_id_text_canonical:
  assumes "uuid_laws U"
  shows "DeviceId_from_str U s = Ok (DeviceId u) \<longleftrightarrow> s = uuid_hyphenated U u \<and> uuid_version_num U u = 4"
  by (rule DeviceId_canonical [OF assms])

theorem device_id_text_canonical_witness:
  "DeviceId_from_str sample_uuid (ascii ''a'') = Ok (DeviceId ())"
  by (subst device_id_text_canonical [OF sample_uuid_laws(1)]) (simp add: sample_uuid_def)

section \<open>Name\<close>

text \<open>C32. A successful rename is durable: when the update returns a name while no other process
  writes the name file, the input validates to that name, the file holds exactly its text and a
  newline, and a later load by anybody who finds the file system at rest reads that name back.\<close>

theorem updated_name_is_loaded:
  assumes "tempfile_laws T" "valid_str v" "name_path self \<noteq> []"
    and "env_ok (undisturbed (name_path self)) w" "DeviceNameStore_update T self v w = (Ok name, w')"
    and "script u = []" "nodes u (name_path self) = nodes w' (name_path self)"
  shows "DeviceName_new v = Ok name \<and>
    (\<exists>m. nodes w' (name_path self) = Some (File m (utf8_encode (display_DeviceName name @ [10])))) \<and>
    fst (DeviceNameStore_load_or_create T self u) = Ok name"
proof -
  obtain m where new: "DeviceName_new v = Ok name" and
      written: "nodes w' (name_path self) = Some (File m (utf8_encode (display_DeviceName name @ [10])))"
    using rgD(3) [OF rg_name_update [OF assms(1)] assms(4) TrueI assms(5)] by auto
  note wf = wf_device_nameI [OF new assms(2)]
  have "fst (DeviceNameStore_load_or_create T self u) = Ok name"
    unfolding name_load_alt
    by (rule trans [OF quiet_load_value [OF assms(6,3) _ name_persisted_roundtrip(1) [OF wf]]])
      (simp only: assms(7) written, rule name_persisted_roundtrip(2) [OF wf])
  with new written show ?thesis by simp
qed

definition sample_name_store :: DeviceNameStore where
  "sample_name_store = \<lparr>name_path = [[46], [47]], name_harden = True\<rparr>"

lemma sample_update:
  "\<exists>w'. DeviceNameStore_update sample_tempfile sample_name_store [66] sample_directory =
     (Ok (DeviceName [66]), w') \<and> script w' = []"
  by (simp add: DeviceNameStore_update_def name_write_temporary_def sample_name_store_def
      sample_directory_def io_run create_existing_dir sample_tempfile_def DeviceName_new_def Let_def
      trim_def is_whitespace_def MAX_DEVICE_NAME_CHARS_def has_control_def is_control_def)

theorem updated_name_is_loaded_witness:
  "fst (DeviceNameStore_load_or_create sample_tempfile sample_name_store
     (snd (DeviceNameStore_update sample_tempfile sample_name_store [66] sample_directory))) = Ok (DeviceName [66])"
proof -
  obtain w' where run: "DeviceNameStore_update sample_tempfile sample_name_store [66] sample_directory =
      (Ok (DeviceName [66]), w')" "script w' = []" using sample_update by blast
  have "valid_str [66]" "name_path sample_name_store \<noteq> []" "env_ok R sample_directory" for R
    by (simp_all add: is_scalar_def sample_name_store_def env_ok_def sample_directory_def)
  from updated_name_is_loaded [OF sample_tempfile_laws this run refl] run(1) show ?thesis by simp
qed

section \<open>Platform\<close>

text \<open>An unsupported platform is refused before anything is touched: the load returns the
  platform error and the file system, the locks and the environment are as they were.\<close>

theorem unsupported_platform_is_refused_first:
  assumes "PlatformSource_detect os (manager_platform m) = Err e"
  shows "LocalDeviceManager_load os T U v4 m w = (Err (PlatformFailed e), w)"
  by (rule unsupported_platform_untouched [OF assms])

theorem unsupported_platform_is_refused_first_witness:
  "snd (LocalDeviceManager_load (ascii ''plan9'') sample_tempfile sample_uuid () sample_manager sample_world) = sample_world"
  by (subst unsupported_platform_is_refused_first)
    (simp_all add: sample_manager_def LocalDeviceManager_in_app_config_def Platform_current_def
      from_target_os_def ascii_def)

end
