(* ===== verification/Trusted_Codec.thy ===== *)
theory Trusted_Codec
  imports Filesystem Text_Label Codec "HOL-Library.Product_Lexorder" "HOL-Library.Multiset"
begin

unbundle bit_operations_syntax

text \<open>
  The durable trusted-peer records and their file format
  (\<^verbatim>\<open>crates/local-transfer-core/src/trusted_peers.rs\<close>, without the store's file system
  operations, which are in \<^verbatim>\<open>Trusted_Store\<close>).
\<close>

section \<open>Constants\<close>

definition MAX_TRUSTED_PEERS :: nat where
  "MAX_TRUSTED_PEERS = 128"

definition MAX_PEER_IDENTITY_BYTES :: nat where
  "MAX_PEER_IDENTITY_BYTES = 64"

definition MAX_TRUSTED_PEER_LABEL_CHARS :: nat where
  "MAX_TRUSTED_PEER_LABEL_CHARS = 64"

definition MAX_TRUSTED_PEERS_STORE_BYTES :: nat where
  "MAX_TRUSTED_PEERS_STORE_BYTES = 64 * 1024"

definition MAX_TRUSTED_PEER_LABEL_BYTES :: nat where
  "MAX_TRUSTED_PEER_LABEL_BYTES = 256"

definition MAX_RECORD_LINE_BYTES :: nat where
  "MAX_RECORD_LINE_BYTES = 512"

definition STORE_FORMAT_VERSION :: u16 where
  "STORE_FORMAT_VERSION = 1"

definition STORE_HEADER :: rstr where
  "STORE_HEADER = ascii ''local-transfer-trusted-peers''"

definition STORE_FILE_NAME :: rstr where
  "STORE_FILE_NAME = ascii ''trusted-peers''"

definition LOCK_FILE_SUFFIX :: rstr where
  "LOCK_FILE_SUFFIX = ascii ''.lock''"

lemmas store_bounds = MAX_TRUSTED_PEERS_def MAX_PEER_IDENTITY_BYTES_def
  MAX_TRUSTED_PEER_LABEL_CHARS_def MAX_TRUSTED_PEERS_STORE_BYTES_def
  MAX_TRUSTED_PEER_LABEL_BYTES_def MAX_RECORD_LINE_BYTES_def

section \<open>Key identities\<close>

datatype PeerKeyIdentity = PeerKeyIdentity (identity_scheme: u16) (identity_material: "u8 list")

text \<open>The derived \<^verbatim>\<open>Ord\<close>: by scheme, then by the bytes lexicographically.\<close>

instantiation PeerKeyIdentity :: linorder
begin

definition less_eq_PeerKeyIdentity :: "PeerKeyIdentity \<Rightarrow> PeerKeyIdentity \<Rightarrow> bool" where
  "less_eq_PeerKeyIdentity a b \<longleftrightarrow>
     (identity_scheme a, identity_material a) \<le> (identity_scheme b, identity_material b)"

definition less_PeerKeyIdentity :: "PeerKeyIdentity \<Rightarrow> PeerKeyIdentity \<Rightarrow> bool" where
  "less_PeerKeyIdentity a b \<longleftrightarrow>
     (identity_scheme a, identity_material a) < (identity_scheme b, identity_material b)"

instance
proof
  fix a b c :: PeerKeyIdentity
  show "a < b \<longleftrightarrow> a \<le> b \<and> \<not> b \<le> a"
    unfolding less_eq_PeerKeyIdentity_def less_PeerKeyIdentity_def by (rule less_le_not_le)
  show "a \<le> a" unfolding less_eq_PeerKeyIdentity_def by (rule order.refl)
  show "a \<le> b \<Longrightarrow> b \<le> c \<Longrightarrow> a \<le> c"
    unfolding less_eq_PeerKeyIdentity_def by (rule order.trans)
  show "a \<le> b \<Longrightarrow> b \<le> a \<Longrightarrow> a = b"
    unfolding less_eq_PeerKeyIdentity_def by (drule (1) order.antisym) (simp add: PeerKeyIdentity.expand)
  show "a \<le> b \<or> b \<le> a" unfolding less_eq_PeerKeyIdentity_def by (rule linear)
qed

end

datatype PeerKeyIdentityError = Empty | TooLarge nat nat

definition PeerKeyIdentity_new :: "u16 \<Rightarrow> u8 list \<Rightarrow> PeerKeyIdentityError + PeerKeyIdentity" where
  "PeerKeyIdentity_new scheme material =
     (if material = [] then Err PeerKeyIdentityError.Empty
      else if length material > MAX_PEER_IDENTITY_BYTES
      then Err (TooLarge (length material) MAX_PEER_IDENTITY_BYTES)
      else Ok (PeerKeyIdentity scheme material))"

section \<open>Hexadecimal text\<close>

definition hex_digit :: "u8 \<Rightarrow> scalar" where
  "hex_digit v = ascii ''0123456789abcdef'' ! unat v"

definition push_hex :: "rstr \<Rightarrow> u8 list \<Rightarrow> rstr" where
  "push_hex out bytes =
     foldl (\<lambda>out byte. out @ [hex_digit (drop_bit 4 byte)] @ [hex_digit (byte AND 15)]) out bytes"

definition hex_value :: "u8 \<Rightarrow> u8 option" where
  "hex_value byte =
     (if 48 \<le> byte \<and> byte \<le> 57 then Some (byte - 48)
      else if 97 \<le> byte \<and> byte \<le> 102 then Some (byte - 97 + 10)
      else None)"

fun decode_pairs :: "u8 list \<Rightarrow> u8 list option" where
  "decode_pairs (high # low # rest) =
     Option.bind (hex_value high) (\<lambda>h. Option.bind (hex_value low) (\<lambda>l.
       map_option (Cons (push_bit 4 h OR l)) (decode_pairs rest)))"
| "decode_pairs _ = Some []"

definition decode_hex :: "rstr \<Rightarrow> u8 list option" where
  "decode_hex str =
     (if str = [] \<or> \<not> even (str_len str) then None else decode_pairs (utf8_encode str))"

definition display_PeerKeyIdentity :: "PeerKeyIdentity \<Rightarrow> rstr" where
  "display_PeerKeyIdentity i = push_hex (show_u16 (identity_scheme i) @ ascii '':'') (identity_material i)"

section \<open>Labels and records\<close>

datatype TrustedPeerLabel = TrustedPeerLabel (TrustedPeerLabel_as_str: rstr)

datatype TrustedPeerLabelError = Empty | ControlCharacter | TooLong nat nat

definition TrustedPeerLabel_new :: "rstr \<Rightarrow> TrustedPeerLabelError + TrustedPeerLabel" where
  "TrustedPeerLabel_new v =
     (if has_control v then Err ControlCharacter
      else let normalized = trim v in
        if normalized = [] then Err Empty
        else let chars = length normalized in
          if chars > MAX_TRUSTED_PEER_LABEL_CHARS then Err (TooLong chars MAX_TRUSTED_PEER_LABEL_CHARS)
          else Ok (TrustedPeerLabel normalized))"

definition display_TrustedPeerLabel :: "TrustedPeerLabel \<Rightarrow> rstr" where
  "display_TrustedPeerLabel l = TrustedPeerLabel_as_str l"

record TrustedPeerRecord =
  record_identity :: PeerKeyIdentity
  record_label :: "TrustedPeerLabel option"

definition TrustedPeerRecord_new ::
  "PeerKeyIdentity \<Rightarrow> TrustedPeerLabel option \<Rightarrow> TrustedPeerRecord" where
  "TrustedPeerRecord_new ident label = \<lparr>record_identity = ident, record_label = label\<rparr>"

section \<open>The validated set\<close>

record TrustedPeers =
  trusted_records :: "TrustedPeerRecord list"

definition TrustedPeers_empty :: TrustedPeers where
  "TrustedPeers_empty = \<lparr>trusted_records = []\<rparr>"

definition TrustedPeers_len :: "TrustedPeers \<Rightarrow> nat" where
  "TrustedPeers_len self = length (trusted_records self)"

definition TrustedPeers_is_empty :: "TrustedPeers \<Rightarrow> bool" where
  "TrustedPeers_is_empty self \<longleftrightarrow> trusted_records self = []"

definition TrustedPeers_iter :: "TrustedPeers \<Rightarrow> TrustedPeerRecord list" where
  "TrustedPeers_iter self = trusted_records self"

datatype Ordering = Less | Equal | Greater

definition compare_to :: "'a::linorder \<Rightarrow> 'a \<Rightarrow> Ordering" where
  "compare_to a b = (if a < b then Less else if a = b then Equal else Greater)"

text \<open>
  \<^verbatim>\<open>slice::binary_search_by\<close> as the standard library implements it: halve the range
  without leaving early, then test the one element that remains.
\<close>

function search_base :: "('a \<Rightarrow> Ordering) \<Rightarrow> 'a list \<Rightarrow> nat \<Rightarrow> nat \<Rightarrow> nat" where
  "search_base f xs base sz =
     (if sz > 1
      then let half = sz div 2; mid = base + half
           in search_base f xs (if f (xs ! mid) = Greater then base else mid) (sz - half)
      else base)"
  by pat_completeness auto
termination by (relation "measure (\<lambda>(_, _, _, sz). sz)") auto

declare search_base.simps [simp del]

definition binary_search_by :: "('a \<Rightarrow> Ordering) \<Rightarrow> 'a list \<Rightarrow> nat option" where
  "binary_search_by f xs =
     (if xs = [] then None
      else let base = search_base f xs 0 (length xs)
           in if f (xs ! base) = Equal then Some base else None)"

definition TrustedPeers_get :: "TrustedPeers \<Rightarrow> PeerKeyIdentity \<Rightarrow> TrustedPeerRecord option" where
  "TrustedPeers_get self ident =
     map_option (\<lambda>index. trusted_records self ! index)
       (binary_search_by (\<lambda>r. compare_to (record_identity r) ident) (trusted_records self))"

definition TrustedPeers_contains :: "TrustedPeers \<Rightarrow> PeerKeyIdentity \<Rightarrow> bool" where
  "TrustedPeers_contains self ident \<longleftrightarrow> TrustedPeers_get self ident \<noteq> None"

section \<open>Errors\<close>

datatype TrustedPeerRemoval = Removed | AlreadyAbsent

datatype MalformedStoreReason =
    NotUtf8 | Header | RecordSyntax | IdentityEncoding | IdentityBounds | LabelEncoding | LabelValue

datatype TrustedPeerStoreError =
    ConfigDirectoryUnavailable
  | InvalidStorePath path
  | Io rstr path io_error
  | NotRegularFile path
  | SymlinkNotAllowed path
  | StoreBusy
  | StoreTooLarge nat nat
  | RecordTooLarge nat nat
  | UnsupportedVersion u16
  | CapacityExceeded nat nat
  | DuplicateIdentity
  | MalformedStore MalformedStoreReason

fun debug_MalformedStoreReason :: "MalformedStoreReason \<Rightarrow> rstr" where
  "debug_MalformedStoreReason NotUtf8 = ascii ''NotUtf8''"
| "debug_MalformedStoreReason Header = ascii ''Header''"
| "debug_MalformedStoreReason RecordSyntax = ascii ''RecordSyntax''"
| "debug_MalformedStoreReason IdentityEncoding = ascii ''IdentityEncoding''"
| "debug_MalformedStoreReason IdentityBounds = ascii ''IdentityBounds''"
| "debug_MalformedStoreReason LabelEncoding = ascii ''LabelEncoding''"
| "debug_MalformedStoreReason LabelValue = ascii ''LabelValue''"

fun display_TrustedPeerStoreError :: "TrustedPeerStoreError \<Rightarrow> rstr" where
  "display_TrustedPeerStoreError ConfigDirectoryUnavailable =
     ascii ''the local configuration directory is unavailable''"
| "display_TrustedPeerStoreError (InvalidStorePath path) =
     ascii ''trusted-peer store path has no parent: '' @ display_path path"
| "display_TrustedPeerStoreError (Io operation path source) =
     ascii ''failed to '' @ operation @ ascii '' at '' @ display_path path @ ascii '': '' @ io_text source"
| "display_TrustedPeerStoreError (NotRegularFile path) =
     ascii ''trusted-peer store path '' @ display_path path @ ascii '' is not a regular file''"
| "display_TrustedPeerStoreError (SymlinkNotAllowed path) =
     ascii ''trusted-peer store path '' @ display_path path @ ascii '' is a symbolic link''"
| "display_TrustedPeerStoreError StoreBusy =
     ascii ''the trusted-peer store is locked by another process''"
| "display_TrustedPeerStoreError (StoreTooLarge sz maximum) =
     ascii ''trusted-peer store is '' @ show_nat sz @ ascii '' bytes; maximum is '' @ show_nat maximum"
| "display_TrustedPeerStoreError (RecordTooLarge sz maximum) =
     ascii ''a trusted-peer record is '' @ show_nat sz @ ascii '' bytes; maximum is '' @ show_nat maximum"
| "display_TrustedPeerStoreError (UnsupportedVersion version) =
     ascii ''unsupported trusted-peer store version '' @ show_u16 version"
| "display_TrustedPeerStoreError (CapacityExceeded cnt maximum) =
     ascii ''trusted-peer store holds '' @ show_nat cnt @ ascii '' records; maximum is '' @ show_nat maximum"
| "display_TrustedPeerStoreError DuplicateIdentity =
     ascii ''trusted-peer store binds one key identity more than once''"
| "display_TrustedPeerStoreError (MalformedStore reason) =
     ascii ''malformed trusted-peer store ('' @ debug_MalformedStoreReason reason @ ascii '')''"

abbreviation malformed :: "MalformedStoreReason \<Rightarrow> TrustedPeerStoreError" where
  "malformed \<equiv> MalformedStore"

section \<open>The file format\<close>

definition encode_header :: rstr where
  "encode_header = STORE_HEADER @ ascii '' v'' @ show_u16 STORE_FORMAT_VERSION"

definition encode_record :: "TrustedPeerRecord \<Rightarrow> rstr" where
  "encode_record r =
     (let out = show_u16 (identity_scheme (record_identity r)) @ ascii '' '';
          out = push_hex out (identity_material (record_identity r)) @ ascii '' ''
      in case record_label r of
           None \<Rightarrow> out @ ascii ''-''
         | Some label \<Rightarrow> push_hex out (utf8_encode (TrustedPeerLabel_as_str label)))"

definition encode :: "TrustedPeerRecord list \<Rightarrow> u8 list" where
  "encode records =
     utf8_encode (foldl (\<lambda>out r. out @ encode_record r @ [10]) (encode_header @ [10]) records)"

definition parse_canonical_u16 :: "rstr \<Rightarrow> u16 option" where
  "parse_canonical_u16 str =
     Option.bind (parse_u16 str) (\<lambda>v. if show_u16 v = str then Some v else None)"

definition parse_header :: "rstr \<Rightarrow> TrustedPeerStoreError + unit" where
  "parse_header line =
     and_then (ok_or (malformed Header)
       (Option.bind (strip_prefix STORE_HEADER line) (strip_prefix (ascii '' v'')))) (\<lambda>version_text.
     and_then (ok_or (malformed Header) (parse_canonical_u16 version_text)) (\<lambda>version.
       if version \<noteq> STORE_FORMAT_VERSION then Err (UnsupportedVersion version) else Ok ()))"

definition parse_label :: "rstr \<Rightarrow> TrustedPeerStoreError + TrustedPeerLabel option" where
  "parse_label label_hex =
     (if label_hex = ascii ''-'' then Ok None
      else if str_len label_hex > MAX_TRUSTED_PEER_LABEL_BYTES then Err (malformed LabelValue)
      else and_then (ok_or (malformed LabelEncoding) (decode_hex label_hex)) (\<lambda>label_bytes.
           and_then (ok_or (malformed LabelEncoding) (from_utf8 label_bytes)) (\<lambda>label_text.
             map_ok Some (map_err (\<lambda>_. malformed LabelValue) (TrustedPeerLabel_new label_text)))))"

definition parse_record :: "rstr \<Rightarrow> TrustedPeerStoreError + TrustedPeerRecord" where
  "parse_record line =
     (if str_len line > MAX_RECORD_LINE_BYTES then Err (RecordTooLarge (str_len line) MAX_RECORD_LINE_BYTES)
      else case split_on 32 line of
          [scheme_text, material_hex, label_hex] \<Rightarrow>
            and_then (ok_or (malformed RecordSyntax) (parse_canonical_u16 scheme_text)) (\<lambda>scheme.
            if str_len material_hex > MAX_PEER_IDENTITY_BYTES * 2 then Err (malformed IdentityBounds)
            else
            and_then (ok_or (malformed IdentityEncoding) (decode_hex material_hex)) (\<lambda>material.
            and_then (map_err (\<lambda>_. malformed IdentityBounds) (PeerKeyIdentity_new scheme material)) (\<lambda>ident.
            and_then (parse_label label_hex) (\<lambda>label.
              Ok (TrustedPeerRecord_new ident label)))))
        | _ \<Rightarrow> Err (malformed RecordSyntax))"

text \<open>\<^verbatim>\<open>windows(2).any(..)\<close>\<close>

fun adjacent_equal :: "TrustedPeerRecord list \<Rightarrow> bool" where
  "adjacent_equal (a # b # rs) \<longleftrightarrow> record_identity a = record_identity b \<or> adjacent_equal (b # rs)"
| "adjacent_equal _ \<longleftrightarrow> False"

definition decode :: "u8 list \<Rightarrow> TrustedPeerStoreError + TrustedPeers" where
  "decode bytes =
     (if length bytes > MAX_TRUSTED_PEERS_STORE_BYTES
      then Err (StoreTooLarge (length bytes) MAX_TRUSTED_PEERS_STORE_BYTES)
      else
      and_then (ok_or (malformed NotUtf8) (from_utf8 bytes)) (\<lambda>str.
      and_then (ok_or (malformed Header) (strip_suffix_char 10 str)) (\<lambda>body.
      case split_on 10 body of
        [] \<Rightarrow> Err (malformed Header)
      | header # record_lines \<Rightarrow>
          and_then (parse_header header) (\<lambda>_.
          if length record_lines > MAX_TRUSTED_PEERS
          then Err (CapacityExceeded (length record_lines) MAX_TRUSTED_PEERS)
          else
          and_then (collect_results parse_record record_lines) (\<lambda>parsed.
            let records = sort_key record_identity parsed in
            if adjacent_equal records then Err DuplicateIdentity
            else Ok \<lparr>trusted_records = records\<rparr>)))))"

section \<open>Facts about hexadecimal text\<close>

definition hex :: "u8 list \<Rightarrow> rstr" where
  "hex bs = concat (map (\<lambda>b. [hex_digit (drop_bit 4 b), hex_digit (b AND 15)]) bs)"

lemma hex_simps [simp]:
  "hex [] = []" "hex (b # bs) = hex_digit (drop_bit 4 b) # hex_digit (b AND 15) # hex bs"
  by (simp_all add: hex_def)

lemma push_hex: "push_hex out bs = out @ hex bs"
  unfolding push_hex_def by (induction bs arbitrary: out) simp_all

lemma length_hex [simp]: "length (hex bs) = 2 * length bs"
  by (induction bs) simp_all

lemma hex_digit_value:
  assumes "v < 16"
  shows "hex_digit v = (if v < 10 then 48 + unat v else 87 + unat v)"
proof -
  have "unat v < 16" using assms by (simp add: word_less_nat_alt)
  then have "unat v \<in> {0,1,2,3,4,5,6,7,8,9,10,11,12,13,14,15}" by (simp, presburger)
  then have "ascii ''0123456789abcdef'' ! unat v = (if unat v < 10 then 48 + unat v else 87 + unat v)"
    by (elim insertE emptyE) (simp_all add: ascii_def)
  then show ?thesis by (simp add: hex_digit_def word_less_nat_alt)
qed

lemma hex_digit_range: "v < 16 \<Longrightarrow> (48 \<le> hex_digit v \<and> hex_digit v \<le> 57) \<or> (97 \<le> hex_digit v \<and> hex_digit v \<le> 102)"
  by (auto simp: hex_digit_value word_less_nat_alt)

lemma low_nibble: "(b :: u8) AND 15 = take_bit 4 b"
  by (simp add: take_bit_eq_mask mask_eq_exp_minus_1)

lemma nibbles [simp]: "drop_bit 4 (b :: u8) < 16" "(b :: u8) AND 15 < 16"
proof -
  have "drop_bit 4 b = b div 16" by (simp add: drop_bit_eq_div)
  then show "drop_bit 4 b < 16"
    using unsigned_less [of b, where ?'a = nat] by (simp add: word_less_nat_alt unat_div less_mult_imp_div_less)
  show "b AND 15 < 16" unfolding low_nibble by (simp add: take_bit_eq_mod word_less_nat_alt unat_mod)
qed

lemma hex_value_digit: "v < 16 \<Longrightarrow> hex_value (of_nat (hex_digit v)) = Some v"
proof -
  assume v: "v < 16"
  have b: "hex_digit v < 256" using hex_digit_range [OF v] by auto
  then have u: "unat (of_nat (hex_digit v) :: u8) = hex_digit v" by (simp add: unat_of_nat)
  show ?thesis
  proof (cases "v < 10")
    case True
    then have "(of_nat (hex_digit v) :: u8) - 48 = v" by (simp add: hex_digit_value v)
    moreover have "48 \<le> (of_nat (hex_digit v) :: u8)" "(of_nat (hex_digit v) :: u8) \<le> 57"
      using True u by (simp_all add: hex_digit_value v word_le_nat_alt word_less_nat_alt)
    ultimately show ?thesis by (simp add: hex_value_def)
  next
    case False
    then have "(of_nat (hex_digit v) :: u8) - 97 + 10 = v" by (simp add: hex_digit_value v)
    moreover have "97 \<le> (of_nat (hex_digit v) :: u8)" "(of_nat (hex_digit v) :: u8) \<le> 102"
        "\<not> (of_nat (hex_digit v) :: u8) \<le> 57"
      using False u v by (simp_all add: hex_digit_value v word_le_nat_alt word_less_nat_alt)
    ultimately show ?thesis by (simp add: hex_value_def)
  qed
qed

lemma hex_value_Some: "hex_value b = Some v \<Longrightarrow> v < 16 \<and> of_nat (hex_digit v) = b"
proof -
  assume h: "hex_value b = Some v"
  consider "48 \<le> b" "b \<le> 57" "v = b - 48" | "97 \<le> b" "b \<le> 102" "v = b - 97 + 10"
    using h by (auto simp: hex_value_def split: if_splits)
  then show ?thesis
  proof cases
    case 1
    then have u: "unat v = unat b - 48" by (simp add: unat_sub)
    then have "v < 10" using 1 by (simp add: word_less_nat_alt word_le_nat_alt)
    moreover have "v < 16" using u 1 by (simp add: word_less_nat_alt word_le_nat_alt)
    ultimately have "hex_digit v = unat b" using hex_digit_value u 1 by (simp add: word_le_nat_alt)
    then show ?thesis using \<open>v < 16\<close> by simp
  next
    case 2
    have "unat (b - 97) = unat b - 97" using 2 by (simp add: unat_sub)
    moreover have "unat b \<le> 102" using 2 by (simp add: word_le_nat_alt)
    moreover have "v = b - 87" "87 \<le> b" using 2 by (simp_all add: word_le_nat_alt)
    ultimately have u: "unat v = unat b - 87" by (simp add: unat_sub)
    then have "\<not> v < 10" "v < 16"
      using 2 by (simp_all add: word_less_nat_alt word_le_nat_alt)
    then have "hex_digit v = unat b" using hex_digit_value u 2 by (simp add: word_le_nat_alt)
    then show ?thesis using \<open>v < 16\<close> by simp
  qed
qed

lemma nibble_join: "push_bit 4 (drop_bit 4 b) OR (b AND 15) = (b :: u8)"
  unfolding low_nibble by (rule bit_word_eqI) (auto simp: bit_simps)

lemma nibble_split:
  assumes "h < 16" "l < (16 :: u8)"
  shows "drop_bit 4 (push_bit 4 h OR l) = h" "(push_bit 4 h OR l) AND 15 = l"
proof -
  have small: "take_bit 4 h = h" "take_bit 4 l = l"
    using assms by (simp_all add: word_unat_eq_iff unsigned_take_bit_eq word_less_nat_alt take_bit_nat_eq_self)
  then have bits: "bit h n \<Longrightarrow> n < 4" "bit l n \<Longrightarrow> n < 4" for n
    by (metis bit_take_bit_iff)+
  show "drop_bit 4 (push_bit 4 h OR l) = h"
    by (rule bit_word_eqI) (auto simp: bit_simps dest: bits)
  show "(push_bit 4 h OR l) AND 15 = l"
    unfolding low_nibble by (rule bit_word_eqI) (auto simp: bit_simps dest: bits)
qed

lemmas nibble_range = hex_digit_range [OF nibbles(1)] hex_digit_range [OF nibbles(2)]

lemma hex_chars: "c \<in> set (hex bs) \<Longrightarrow> (48 \<le> c \<and> c \<le> 57) \<or> (97 \<le> c \<and> c \<le> 102)"
proof (induction bs)
  case (Cons b bs)
  then show ?case using nibble_range [of b] by auto
qed simp

lemma str_len_hex [simp]: "str_len (hex bs) = 2 * length bs"
  using hex_chars [of _ bs] by (subst str_len_ascii) fastforce+

lemma valid_hex [simp]: "valid_str (hex bs)"
  using hex_chars [of _ bs] by (fastforce simp: valid_str_def list_all_iff is_scalar_def)

lemma utf8_encode_ascii: "c < 128 \<Longrightarrow> utf8_encode (c # s) = of_nat c # utf8_encode s"
  by (simp add: utf8_encode_Cons utf8_units_def)

lemma decode_pairs_hex: "decode_pairs (utf8_encode (hex bs)) = Some bs"
proof (induction bs)
  case (Cons b bs)
  have "hex_digit (drop_bit 4 b) < 128" "hex_digit (b AND 15) < 128"
    using nibble_range [of b] by linarith+
  then show ?case by (simp add: utf8_encode_ascii hex_value_digit Cons.IH nibble_join)
qed simp

lemma decode_hex_hex: "bs \<noteq> [] \<Longrightarrow> decode_hex (hex bs) = Some bs"
proof -
  assume "bs \<noteq> []"
  then have "hex bs \<noteq> []" using length_hex [of bs] by (cases bs) auto
  then show ?thesis by (simp add: decode_hex_def decode_pairs_hex)
qed

lemma decode_pairs_sound:
  "decode_pairs xs = Some bs \<Longrightarrow> even (length xs) \<Longrightarrow> xs = utf8_encode (hex bs)"
proof (induction xs arbitrary: bs rule: decode_pairs.induct)
  case (1 high low rest)
  then obtain h l bs' where hl: "hex_value high = Some h" "hex_value low = Some l"
      and rest: "decode_pairs rest = Some bs'" and bs: "bs = (push_bit 4 h OR l) # bs'"
    by (auto simp: bind_eq_Some_conv)
  have small: "h < 16" "l < 16" and digits: "of_nat (hex_digit h) = high" "of_nat (hex_digit l) = low"
    using hex_value_Some hl by blast+
  have "hex_digit h < 128" "hex_digit l < 128"
    using hex_digit_range [OF small(1)] hex_digit_range [OF small(2)] by linarith+
  moreover have "hex bs = hex_digit h # hex_digit l # hex bs'"
    unfolding bs hex_simps nibble_split [OF small] by (rule refl)
  ultimately show ?case
    using "1.IH" [OF hl rest] "1.prems"(2) digits by (simp add: utf8_encode_ascii)
qed simp_all

lemma decode_hex_sound:
  assumes "decode_hex s = Some bs" "valid_str s"
  shows "s = hex bs" "bs \<noteq> []"
proof -
  have "decode_pairs (utf8_encode s) = Some bs" "even (str_len s)" "s \<noteq> []"
    using assms(1) by (auto simp: decode_hex_def split: if_splits)
  then have "utf8_encode s = utf8_encode (hex bs)" by (intro decode_pairs_sound) simp_all
  then show "s = hex bs" using utf8_encode_inj [OF assms(2) valid_hex] by blast
  with \<open>s \<noteq> []\<close> show "bs \<noteq> []" by auto
qed

section \<open>Facts about fields\<close>

lemma split_on_join:
  "d \<notin> set f \<Longrightarrow> \<forall>g\<in>set fs. d \<notin> set g \<Longrightarrow> split_on d (f @ concat (map (Cons d) fs)) = f # fs"
proof (induction fs arbitrary: f)
  case Nil
  then show ?case by (simp add: split_on_no_sep)
next
  case (Cons g fs)
  then show ?case by (simp add: split_on_field)
qed

lemma split_on_sound:
  "split_on d s = f # fs \<Longrightarrow> s = f @ concat (map (Cons d) fs) \<and> d \<notin> set f \<and> (\<forall>g\<in>set fs. d \<notin> set g)"
proof (induction s arbitrary: f fs)
  case (Cons c s)
  obtain g gs where s: "split_on d s = g # gs" by (cases "split_on d s") auto
  note IH = Cons.IH [OF s]
  show ?case
  proof (cases "c = d")
    case True
    with Cons.prems have "f = []" "fs = split_on d s" by simp_all
    with True IH s show ?thesis by simp
  next
    case False
    with Cons.prems s have "f = c # g" "fs = gs" by simp_all
    with False IH show ?thesis by simp
  qed
qed simp

lemma canonical_alt: "parse_canonical_u16 = canonical_u16"
proof
  fix s
  show "parse_canonical_u16 s = canonical_u16 s"
    by (cases "parse_u16 s") (simp_all add: parse_canonical_u16_def canonical_u16_def)
qed

lemma parse_canonical_u16_Some: "parse_canonical_u16 s = Some v \<longleftrightarrow> s = show_u16 v"
  unfolding canonical_alt by (simp add: decimal.dec_iff)

lemma parse_canonical_u16_show [simp]: "parse_canonical_u16 (show_u16 v) = Some v"
  by (simp add: parse_canonical_u16_Some)

lemma parse_header_Ok: "parse_header line = Ok u \<longleftrightarrow> line = encode_header"
  by (auto simp: parse_header_def result_simps bind_eq_Some_conv strip_prefix_Some encode_header_def
      parse_canonical_u16_Some)

section \<open>Facts about records\<close>

interpretation trusted_label: text_label TrustedPeerLabel_new TrustedPeerLabel_as_str MAX_TRUSTED_PEER_LABEL_CHARS
proof unfold_locales
  fix v n
  show "TrustedPeerLabel_new v = Ok n \<longleftrightarrow> \<not> has_control v \<and> trim v \<noteq> [] \<and>
      length (trim v) \<le> MAX_TRUSTED_PEER_LABEL_CHARS \<and> TrustedPeerLabel_as_str n = trim v"
    by (cases n) (auto simp: TrustedPeerLabel_new_def Let_def)
qed

definition wf_identity :: "PeerKeyIdentity \<Rightarrow> bool" where
  "wf_identity i \<longleftrightarrow> identity_material i \<noteq> [] \<and> length (identity_material i) \<le> MAX_PEER_IDENTITY_BYTES"

definition wf_label :: "TrustedPeerLabel \<Rightarrow> bool" where
  "wf_label l \<longleftrightarrow> TrustedPeerLabel_new (TrustedPeerLabel_as_str l) = Ok l \<and> valid_str (TrustedPeerLabel_as_str l)"

definition wf_record :: "TrustedPeerRecord \<Rightarrow> bool" where
  "wf_record r \<longleftrightarrow> wf_identity (record_identity r) \<and>
     (case record_label r of None \<Rightarrow> True | Some l \<Rightarrow> wf_label l)"

definition label_bytes :: "TrustedPeerRecord \<Rightarrow> nat" where
  "label_bytes r = (case record_label r of None \<Rightarrow> 0 | Some l \<Rightarrow> str_len (TrustedPeerLabel_as_str l))"

text \<open>
  The records the decoder can read: a label of more than 128 bytes has more than 256
  hexadecimal digits, which \<^verbatim>\<open>parse_record\<close> refuses.
\<close>

definition loadable :: "TrustedPeerRecord \<Rightarrow> bool" where
  "loadable r \<longleftrightarrow> wf_record r \<and> 2 * label_bytes r \<le> MAX_TRUSTED_PEER_LABEL_BYTES"

lemma identity_new_Ok: "PeerKeyIdentity_new s m = Ok i \<longleftrightarrow> i = PeerKeyIdentity s m \<and> wf_identity i"
  by (auto simp: PeerKeyIdentity_new_def wf_identity_def)

lemma wf_labelD: "wf_label l \<Longrightarrow> TrustedPeerLabel_as_str l \<noteq> []"
  using trusted_label.accepted_text(3) by (auto simp: wf_label_def)

definition label_text :: "TrustedPeerRecord \<Rightarrow> rstr" where
  "label_text r = (case record_label r of
     None \<Rightarrow> ascii ''-'' | Some l \<Rightarrow> hex (utf8_encode (TrustedPeerLabel_as_str l)))"

lemma encode_record_fields:
  "encode_record r = show_u16 (identity_scheme (record_identity r)) @
     concat (map (Cons 32) [hex (identity_material (record_identity r)), label_text r])"
  by (simp add: encode_record_def push_hex label_text_def ascii_def split: option.split)

lemma hex_no_char: "c < 48 \<Longrightarrow> c \<notin> set (hex bs)"
  using hex_chars [of c bs] by auto

lemma label_text_no_space: "32 \<notin> set (label_text r)" "10 \<notin> set (label_text r)"
  by (auto simp: label_text_def ascii_def hex_no_char split: option.split)

lemma encode_record_split:
  "split_on 32 (encode_record r) =
     [show_u16 (identity_scheme (record_identity r)), hex (identity_material (record_identity r)), label_text r]"
  unfolding encode_record_fields
  by (rule split_on_join) (simp_all add: show_u16_no_char hex_no_char label_text_no_space)

lemma encode_record_one_line: "10 \<notin> set (encode_record r)"
  by (simp add: encode_record_fields show_u16_no_char hex_no_char label_text_no_space)

lemma label_text_len:
  "str_len (label_text r) = (case record_label r of None \<Rightarrow> 1 | Some l \<Rightarrow> 2 * label_bytes r)"
  by (simp add: label_text_def label_bytes_def ascii_def len_utf8_def split: option.split)

lemma encode_record_len:
  "str_len (encode_record r) = str_len (show_u16 (identity_scheme (record_identity r))) +
     2 * length (identity_material (record_identity r)) + str_len (label_text r) + 2"
  by (simp add: encode_record_fields len_utf8_def)

lemma encode_record_len_le:
  assumes "loadable r"
  shows "str_len (encode_record r) \<le> 391"
proof -
  have "str_len (label_text r) \<le> 256"
    using assms by (auto simp: label_text_len loadable_def store_bounds split: option.split)
  moreover have "length (identity_material (record_identity r)) \<le> 64"
    using assms by (simp add: loadable_def wf_record_def wf_identity_def store_bounds)
  ultimately show ?thesis
    using str_len_show_u16 [of "identity_scheme (record_identity r)"] by (simp add: encode_record_len)
qed

lemma valid_encode_record: "valid_str (encode_record r)"
  by (simp add: encode_record_fields label_text_def ascii_def is_scalar_def split: option.split)

lemma hex_not_dash: "hex bs \<noteq> ascii ''-''"
  by (cases bs) (simp_all add: ascii_def)

lemma str_len_trim: "str_len (trim s) \<le> str_len s"
proof -
  have drop: "str_len (dropWhile P t) \<le> str_len t" for P t
    by (induction t) simp_all
  have rev: "str_len (rev t) = str_len t" for t
    by (induction t) simp_all
  show ?thesis
    unfolding trim_def using drop [of is_whitespace s] drop [of is_whitespace "rev (dropWhile is_whitespace s)"]
    by (simp add: rev)
qed

lemma parse_label_sound:
  assumes "parse_label s = Ok l" "valid_str s"
  shows "case l of None \<Rightarrow> True | Some t \<Rightarrow> wf_label t \<and>
    2 * str_len (TrustedPeerLabel_as_str t) \<le> MAX_TRUSTED_PEER_LABEL_BYTES"
proof (cases l)
  case (Some t)
  then obtain bs str where len: "str_len s \<le> MAX_TRUSTED_PEER_LABEL_BYTES"
      and bs: "decode_hex s = Some bs" and str: "from_utf8 bs = Some str" and new: "TrustedPeerLabel_new str = Ok t"
    using assms(1) by (auto simp: parse_label_def result_simps not_less split: if_splits)
  have "2 * length bs \<le> MAX_TRUSTED_PEER_LABEL_BYTES"
    using decode_hex_sound(1) [OF bs assms(2)] len by simp
  moreover have "length bs = str_len str" using from_utf8_sound(2) [OF str] by (metis length_utf8_encode)
  moreover have trimmed: "TrustedPeerLabel_as_str t = trim str"
    by (rule trusted_label.accepted_text(1) [OF new])
  moreover have "wf_label t"
    using trusted_label.validate_idem [OF new] from_utf8_sound(1) [OF str] trimmed
    by (simp add: wf_label_def valid_str_trim)
  ultimately show ?thesis using Some str_len_trim [of str] by simp
qed simp

lemma parse_label_encoded:
  assumes "loadable r"
  shows "parse_label (label_text r) = Ok (record_label r)"
proof (cases "record_label r")
  case None
  then show ?thesis by (simp add: parse_label_def label_text_def)
next
  case (Some l)
  then have l: "wf_label l" "2 * str_len (TrustedPeerLabel_as_str l) \<le> MAX_TRUSTED_PEER_LABEL_BYTES"
    using assms by (simp_all add: loadable_def wf_record_def label_bytes_def)
  have "0 < length (utf8_encode (TrustedPeerLabel_as_str l))"
    using wf_labelD [OF l(1)] length_le_str_len [of "TrustedPeerLabel_as_str l"] by (cases "TrustedPeerLabel_as_str l") simp_all
  then have "utf8_encode (TrustedPeerLabel_as_str l) \<noteq> []" unfolding length_greater_0_conv .
  with Some l show ?thesis
    by (simp add: parse_label_def label_text_def hex_not_dash decode_hex_hex wf_label_def)
qed

lemma parse_record_encoded:
  assumes "loadable r"
  shows "parse_record (encode_record r) = Ok r"
proof -
  have i: "wf_identity (record_identity r)" using assms by (simp add: loadable_def wf_record_def)
  then have "decode_hex (hex (identity_material (record_identity r))) = Some (identity_material (record_identity r))"
    by (intro decode_hex_hex) (simp add: wf_identity_def)
  moreover have "PeerKeyIdentity_new (identity_scheme (record_identity r)) (identity_material (record_identity r))
      = Ok (record_identity r)"
    using i by (simp add: identity_new_Ok)
  moreover have "length (identity_material (record_identity r)) \<le> 64"
    using i by (simp add: wf_identity_def store_bounds)
  moreover have "\<lparr>record_identity = record_identity r, record_label = record_label r\<rparr> = r" by simp
  ultimately show ?thesis
    using encode_record_len_le [OF assms] parse_label_encoded [OF assms]
    by (simp add: parse_record_def encode_record_split store_bounds TrustedPeerRecord_new_def)
qed

lemma parse_record_sound:
  assumes ok: "parse_record line = Ok r" and valid: "valid_str line"
  shows "loadable r"
proof -
  obtain a b c where split: "split_on 32 line = [a, b, c]"
    using ok by (auto simp: parse_record_def split: if_splits list.splits)
  have "set c \<subseteq> set line" using split_on_sound [OF split] by auto
  then have "valid_str c" using valid valid_str_subset by blast
  moreover obtain i l where "parse_label c = Ok l" "wf_identity i" "r = TrustedPeerRecord_new i l"
    using ok split by (auto simp: parse_record_def result_simps identity_new_Ok split: if_splits)
  ultimately show ?thesis
    using parse_label_sound [of c l]
    by (auto simp: loadable_def wf_record_def label_bytes_def TrustedPeerRecord_new_def split: option.splits)
qed

section \<open>Facts about the file\<close>

lemma encode_alt:
  "encode rs = utf8_encode (encode_header @ concat (map (Cons 10) (map encode_record rs)) @ [10])"
proof -
  have "foldl (\<lambda>out r. out @ encode_record r @ [10]) (out @ [10]) rs =
      out @ concat (map (Cons 10) (map encode_record rs)) @ [10]" for out
  proof (induction rs arbitrary: out)
    case (Cons r rs)
    then show ?case using Cons.IH [of "out @ [10] @ encode_record r"] by simp
  qed simp
  then show ?thesis unfolding encode_def by simp
qed

lemma valid_header: "valid_str encode_header"
  by (simp add: encode_header_def STORE_HEADER_def ascii_def is_scalar_def)

lemma header_len: "str_len encode_header \<le> 35"
  using str_len_show_u16 [of STORE_FORMAT_VERSION]
  by (simp add: encode_header_def STORE_HEADER_def ascii_def len_utf8_def)

lemma header_one_line: "10 \<notin> set encode_header"
  by (simp add: encode_header_def STORE_HEADER_def ascii_def show_u16_no_char)

lemma encode_length: "length (encode rs) = str_len encode_header + 1 + (\<Sum>r\<leftarrow>rs. str_len (encode_record r) + 1)"
proof -
  have "str_len (concat (map (Cons 10) (map encode_record rs))) = (\<Sum>r\<leftarrow>rs. str_len (encode_record r) + 1)"
    by (induction rs) (simp_all add: len_utf8_def)
  then show ?thesis by (simp add: encode_alt len_utf8_def)
qed

lemma encode_length_le:
  assumes "\<forall>r\<in>set rs. loadable r"
  shows "length (encode rs) \<le> 36 + 392 * length rs"
proof -
  have "(\<Sum>r\<leftarrow>rs. str_len (encode_record r) + 1) \<le> 392 * length rs"
    using assms encode_record_len_le by (induction rs) force+
  then show ?thesis using header_len by (simp add: encode_length)
qed

lemma adjacent_equal_sorted:
  assumes "sorted (map record_identity rs)"
  shows "adjacent_equal rs \<longleftrightarrow> \<not> distinct (map record_identity rs)"
  using assms
proof (induction rs rule: adjacent_equal.induct)
  case (1 a b rs)
  have "record_identity a \<in> record_identity ` set rs \<Longrightarrow> record_identity a = record_identity b"
    using "1.prems" by fastforce
  then show ?case using 1 by auto
qed simp_all

text \<open>What the decoder makes of the parsed records, in the order of the file.\<close>

definition assemble :: "TrustedPeerRecord list \<Rightarrow> TrustedPeerStoreError + TrustedPeers" where
  "assemble rs =
     (if length rs > MAX_TRUSTED_PEERS then Err (CapacityExceeded (length rs) MAX_TRUSTED_PEERS)
      else if distinct (map record_identity rs)
      then Ok \<lparr>trusted_records = sort_key record_identity rs\<rparr> else Err DuplicateIdentity)"

lemma sort_adjacent: "adjacent_equal (sort_key record_identity rs) \<longleftrightarrow> \<not> distinct (map record_identity rs)"
  by (simp add: adjacent_equal_sorted distinct_sort_key)

lemma store_decode_encode:
  assumes "\<forall>r\<in>set rs. loadable r" "length rs \<le> MAX_TRUSTED_PEERS"
  shows "decode (encode rs) = assemble rs"
proof -
  let ?body = "encode_header @ concat (map (Cons 10) (map encode_record rs))"
  have "length (encode rs) \<le> MAX_TRUSTED_PEERS_STORE_BYTES"
    using encode_length_le [OF assms(1)] assms(2) by (simp add: store_bounds)
  moreover have "from_utf8 (encode rs) = Some (?body @ [10])"
  proof -
    have "valid_str (concat (map (Cons 10) (map encode_record rs)))"
      using valid_encode_record by (induction rs) (simp_all add: is_scalar_def)
    then have "valid_str (?body @ [10])" using valid_header by (simp add: is_scalar_def)
    then show ?thesis unfolding encode_alt append_assoc [symmetric] by (rule from_utf8_encode)
  qed
  moreover have "split_on 10 ?body = encode_header # map encode_record rs"
    by (rule split_on_join) (simp_all add: header_one_line encode_record_one_line)
  moreover have "collect_results parse_record (map encode_record rs) = Ok rs"
    using assms(1) by (induction rs) (simp_all add: parse_record_encoded)
  ultimately show ?thesis
    using assms(2) strip_suffix_char_append [of 10 ?body] parse_header_Ok [of encode_header "()"]
    by (simp add: decode_def assemble_def Let_def sort_adjacent del: append_assoc)
qed

lemma store_decode_sound:
  assumes "decode bytes = Ok tp"
  shows "sorted (map record_identity (trusted_records tp))" "distinct (map record_identity (trusted_records tp))"
    "length (trusted_records tp) \<le> MAX_TRUSTED_PEERS" "\<forall>r\<in>set (trusted_records tp). loadable r"
proof -
  obtain str body header ls parsed where
    str: "from_utf8 bytes = Some str" and body: "strip_suffix_char 10 str = Some body" and
    lines: "split_on 10 body = header # ls" and few: "length ls \<le> MAX_TRUSTED_PEERS" and
    parsed: "collect_results parse_record ls = Ok parsed" and
    adj: "\<not> adjacent_equal (sort_key record_identity parsed)" and
    tp: "tp = \<lparr>trusted_records = sort_key record_identity parsed\<rparr>"
  proof -
    obtain str body where a: "from_utf8 bytes = Some str" "strip_suffix_char 10 str = Some body"
      and rest: "(case split_on 10 body of [] \<Rightarrow> Err (malformed Header)
        | header # record_lines \<Rightarrow> and_then (parse_header header) (\<lambda>_.
          if length record_lines > MAX_TRUSTED_PEERS
          then Err (CapacityExceeded (length record_lines) MAX_TRUSTED_PEERS)
          else and_then (collect_results parse_record record_lines) (\<lambda>parsed.
            let records = sort_key record_identity parsed in
            if adjacent_equal records then Err DuplicateIdentity
            else Ok \<lparr>trusted_records = records\<rparr>))) = Ok tp"
      using assms unfolding decode_def and_then_Ok ok_or_Ok by (auto simp: result_simps split: if_splits)
    obtain header ls where b: "split_on 10 body = header # ls" by (cases "split_on 10 body") auto
    with rest obtain parsed where c: "length ls \<le> MAX_TRUSTED_PEERS"
        "collect_results parse_record ls = Ok parsed" "\<not> adjacent_equal (sort_key record_identity parsed)"
        "tp = \<lparr>trusted_records = sort_key record_identity parsed\<rparr>"
      by (auto simp: result_simps Let_def not_less split: if_splits)
    show thesis by (rule that [OF a b c])
  qed
  show "sorted (map record_identity (trusted_records tp))" by (simp add: tp)
  show "distinct (map record_identity (trusted_records tp))"
    using adj sort_adjacent tp by (simp add: distinct_sort_key)
  show "length (trusted_records tp) \<le> MAX_TRUSTED_PEERS"
    using few collect_results_length [OF parsed] by (simp add: tp)
  have "valid_str str" by (rule from_utf8_sound(1) [OF str])
  then have "valid_str body" using body by (simp add: strip_suffix_char_Some)
  moreover have "set l \<subseteq> set body" if "l \<in> set ls" for l
    using split_on_sound [OF lines] that by auto
  ultimately have "\<forall>l\<in>set ls. valid_str l" using valid_str_subset by blast
  then show "\<forall>r\<in>set (trusted_records tp). loadable r"
    using collect_results_set [OF parsed] parse_record_sound by (fastforce simp: tp)
qed

section \<open>Facts about lookup\<close>

lemma search_base_in:
  assumes "sorted_wrt (<) (map key xs)" "base + sz \<le> length xs" "base \<le> j" "j < base + sz" "key (xs ! j) = k"
  shows "search_base (\<lambda>x. compare_to (key x) k) xs base sz = j"
  using assms
proof (induction "\<lambda>x. compare_to (key x) k" xs base sz rule: search_base.induct)
  case (1 xs base sz)
  show ?case
  proof (cases "sz > 1")
    case True
    let ?half = "sz div 2"
    let ?mid = "base + ?half"
    let ?base = "if compare_to (key (xs ! ?mid)) k = Greater then base else ?mid"
    have mid: "?half < sz" "?mid < length xs" using True "1.prems"(2) by auto
    have order: "i < i' \<Longrightarrow> i' < length xs \<Longrightarrow> key (xs ! i) < key (xs ! i')" for i i'
      using "1.prems"(1) by (auto simp: sorted_wrt_iff_nth_less)
    have j: "j < length xs" using "1.prems" by simp
    have "?base \<le> j \<and> j < ?base + (sz - ?half)"
    proof (cases "compare_to (key (xs ! ?mid)) k = Greater")
      case True
      then have "k < key (xs ! ?mid)" by (auto simp: compare_to_def split: if_splits)
      then have "j < ?mid"
        using order [of ?mid j] j "1.prems"(5) by (metis linorder_neqE_nat order.asym less_irrefl)
      then show ?thesis using True "1.prems"(3) by auto
    next
      case False
      then have "key (xs ! ?mid) \<le> k" by (auto simp: compare_to_def split: if_splits)
      then have "?mid \<le> j"
        using order [of j ?mid] mid "1.prems"(5) by (metis leD leI)
      then show ?thesis using False "1.prems"(4) by auto
    qed
    moreover have "?base + (sz - ?half) \<le> length xs" using "1.prems"(2) mid by auto
    ultimately show ?thesis
      using "1.hyps" [OF True refl refl] "1.prems"(1,5) True by (simp add: search_base.simps [of _ _ _ sz] Let_def)
  qed (use "1.prems" in \<open>simp add: search_base.simps\<close>)
qed

lemma search_base_less: "0 < sz \<Longrightarrow> base + sz \<le> length xs \<Longrightarrow> search_base f xs base sz < length xs"
proof (induction f xs base sz rule: search_base.induct)
  case (1 f xs base sz)
  then show ?case by (cases "sz > 1") (auto simp: search_base.simps [of _ _ _ sz] Let_def)
qed

lemma TrustedPeers_get_Some:
  assumes "sorted_wrt (<) (map record_identity (trusted_records tp))"
  shows "TrustedPeers_get tp i = Some r \<longleftrightarrow> r \<in> set (trusted_records tp) \<and> record_identity r = i"
proof -
  let ?xs = "trusted_records tp" and ?f = "\<lambda>r. compare_to (record_identity r) i"
  have eq: "?f x = Equal \<longleftrightarrow> record_identity x = i" for x
    by (auto simp: compare_to_def)
  show ?thesis
  proof
    assume "TrustedPeers_get tp i = Some r"
    then show "r \<in> set ?xs \<and> record_identity r = i"
      using search_base_less [of "length ?xs" 0 ?xs ?f]
      by (auto simp: TrustedPeers_get_def binary_search_by_def Let_def eq in_set_conv_nth split: if_splits)
  next
    assume r: "r \<in> set ?xs \<and> record_identity r = i"
    then obtain j where j: "j < length ?xs" "?xs ! j = r" by (auto simp: in_set_conv_nth)
    then have "search_base ?f ?xs 0 (length ?xs) = j"
      using r by (intro search_base_in [OF assms]) auto
    then show "TrustedPeers_get tp i = Some r"
      using j r by (auto simp: TrustedPeers_get_def binary_search_by_def Let_def eq)
  qed
qed

text \<open>The map a validated set stands for.\<close>

definition trusted_map :: "TrustedPeers \<Rightarrow> PeerKeyIdentity \<Rightarrow> TrustedPeerRecord option" where
  "trusted_map tp = map_of (map (\<lambda>r. (record_identity r, r)) (trusted_records tp))"

lemma map_of_records:
  "distinct (map record_identity rs) \<Longrightarrow>
     map_of (map (\<lambda>r. (record_identity r, r)) rs) i = Some r \<longleftrightarrow> r \<in> set rs \<and> record_identity r = i"
  by (subst map_of_eq_Some_iff) (auto simp: comp_def)

lemma strictly_sorted: "sorted (map f xs) \<Longrightarrow> distinct (map f xs) \<Longrightarrow> sorted_wrt (<) (map f xs)"
  by (simp add: strict_sorted_iff)

lemma get_trusted_map:
  assumes "decode bytes = Ok tp"
  shows "TrustedPeers_get tp = trusted_map tp"
proof
  fix i
  note D = store_decode_sound [OF assms]
  have "TrustedPeers_get tp i = Some r \<longleftrightarrow> trusted_map tp i = Some r" for r
    by (simp add: TrustedPeers_get_Some [OF strictly_sorted [OF D(1,2)]] trusted_map_def map_of_records [OF D(2)])
  then show "TrustedPeers_get tp i = trusted_map tp i" by (metis option.exhaust)
qed

section \<open>Labels the store cannot read back\<close>

lemma long_label_rejected:
  assumes "wf_record r" "\<not> loadable r"
  shows "\<exists>e. parse_record (encode_record r) = Err e"
proof (rule ccontr)
  assume "\<nexists>e. parse_record (encode_record r) = Err e"
  then obtain r' where ok: "parse_record (encode_record r) = Ok r'" by (cases "parse_record (encode_record r)") auto
  have "MAX_TRUSTED_PEER_LABEL_BYTES < str_len (label_text r)"
    using assms by (auto simp: loadable_def label_text_len label_bytes_def split: option.splits)
  moreover have "label_text r \<noteq> ascii ''-''"
    using assms by (auto simp: loadable_def label_text_def label_bytes_def hex_not_dash split: option.splits)
  ultimately have "parse_label (label_text r) = Err (malformed LabelValue)" by (simp add: parse_label_def)
  then show False
    using ok by (auto simp: parse_record_def encode_record_split result_simps split: if_splits)
qed

lemma decode_encode_long_label:
  assumes "wf_record r" "\<not> loadable r" "r \<in> set rs"
  shows "\<exists>e. decode (encode rs) = Err e"
proof (rule ccontr)
  assume "\<nexists>e. decode (encode rs) = Err e"
  then obtain tp where ok: "decode (encode rs) = Ok tp" by (cases "decode (encode rs)") auto
  let ?body = "encode_header @ concat (map (Cons 10) (map encode_record rs))"
  have "valid_str (concat (map (Cons 10) (map encode_record rs)))"
    using valid_encode_record by (induction rs) (simp_all add: is_scalar_def)
  then have "valid_str (?body @ [10])" using valid_header by (simp add: is_scalar_def)
  then have read: "from_utf8 (encode rs) = Some (?body @ [10])"
    unfolding encode_alt append_assoc [symmetric] by (rule from_utf8_encode)
  have split: "split_on 10 ?body = encode_header # map encode_record rs"
    by (rule split_on_join) (simp_all add: header_one_line encode_record_one_line)
  obtain parsed where "collect_results parse_record (map encode_record rs) = Ok parsed"
    using ok read split strip_suffix_char_append [of 10 ?body]
    by (auto simp: decode_def result_simps simp del: append_assoc split: if_splits)
  then obtain r' where "parse_record (encode_record r) = Ok r'"
    using assms(3) by (induction rs arbitrary: parsed) (auto simp: result_simps)
  then show False using long_label_rejected [OF assms(1,2)] by simp
qed

end
