(* ===== verification/Trusted_Store.thy ===== *)
theory Trusted_Store
  imports Trusted_Codec Value_Store
begin

text \<open>
  The durable trusted-peer store
  (\<^verbatim>\<open>crates/local-transfer-core/src/trusted_peers.rs\<close>, \<^verbatim>\<open>TrustedPeerStore\<close>):
  lock-free validated reads, and mutations that lock, load, modify and replace the file. The guard
  of the lock is the lock's file name; dropping it is \<open>fs_unlock\<close> on every path out of the body.
\<close>

section \<open>Store and errors\<close>

record TrustedPeerStore =
  store_path :: path
  store_harden :: bool

definition TrustedPeerStore_for_current_user :: "path option \<Rightarrow> TrustedPeerStoreError + TrustedPeerStore" where
  "TrustedPeerStore_for_current_user config_dir =
     and_then (ok_or ConfigDirectoryUnavailable config_dir) (\<lambda>dir.
       Ok \<lparr>store_path = path_join dir STORE_FILE_NAME, store_harden = True\<rparr>)"

definition store_io_error_at :: "path \<Rightarrow> string \<Rightarrow> io_error \<Rightarrow> TrustedPeerStoreError" where
  "store_io_error_at p operation source = TrustedPeerStoreError.Io (ascii operation) p source"

definition store_io_error :: "TrustedPeerStore \<Rightarrow> string \<Rightarrow> io_error \<Rightarrow> TrustedPeerStoreError" where
  "store_io_error self operation source = store_io_error_at (store_path self) operation source"

definition lock_path :: "TrustedPeerStore \<Rightarrow> path" where
  "lock_path self =
     (let name = (case file_name (store_path self) of None \<Rightarrow> STORE_FILE_NAME | Some name \<Rightarrow> name)
      in with_file_name (store_path self) (name @ LOCK_FILE_SUFFIX))"

definition lock_io_error :: "TrustedPeerStore \<Rightarrow> string \<Rightarrow> io_error \<Rightarrow> TrustedPeerStoreError" where
  "lock_io_error self operation source = store_io_error_at (lock_path self) operation source"

fun store_operation :: "PersistenceOperation \<Rightarrow> rstr" where
  "store_operation InspectDirectory = ascii ''inspect trusted-peer store directory''"
| "store_operation CreateDirectory = ascii ''create trusted-peer store directory''"
| "store_operation HardenDirectory = ascii ''harden trusted-peer store directory permissions''"
| "store_operation HardenFile = ascii ''harden trusted-peer store file permissions''"
| "store_operation CreateTemporary = ascii ''create temporary trusted-peer store''"
| "store_operation WriteTemporary = ascii ''write temporary trusted-peer store''"
| "store_operation SyncTemporary = ascii ''sync temporary trusted-peer store''"

fun store_persistence_error :: "PersistenceError \<Rightarrow> TrustedPeerStoreError" where
  "store_persistence_error (PersistenceError.InvalidPath p) = InvalidStorePath p"
| "store_persistence_error (PersistenceError.Io operation p source) = TrustedPeerStoreError.Io (store_operation operation) p source"

section \<open>Reading\<close>

text \<open>From \<^verbatim>\<open>File::open\<close> on: the descriptor is pinned, the size is checked, the read is capped.\<close>

definition read_open_store :: "TrustedPeerStore \<Rightarrow> (TrustedPeerStoreError, u8 list option) io" where
  "read_open_store self =
     io_match (fs_open (store_path self)) (\<lambda>r. case r of
         Err e \<Rightarrow> io_return (if io_kind e = NotFound then Ok None
                   else Err (store_io_error self ''open trusted-peer store'' e))
       | Ok opened \<Rightarrow>
           io_bind (io_map_err (store_io_error self ''inspect open trusted-peer store'') (fs_file_metadata opened))
             (\<lambda>(kind, len).
               if kind \<noteq> IsFile then io_return (Err (NotRegularFile (store_path self)))
               else if len > MAX_TRUSTED_PEERS_STORE_BYTES
               then io_return (Err (StoreTooLarge len MAX_TRUSTED_PEERS_STORE_BYTES))
               else io_bind (io_map_err (store_io_error self ''read trusted-peer store'')
                      (fs_take_read (MAX_TRUSTED_PEERS_STORE_BYTES + 1) opened)) (\<lambda>bytes.
                 io_return (if length bytes > MAX_TRUSTED_PEERS_STORE_BYTES
                   then Err (StoreTooLarge (length bytes) MAX_TRUSTED_PEERS_STORE_BYTES)
                   else Ok (Some bytes)))))"

definition read_store_bytes :: "TrustedPeerStore \<Rightarrow> (TrustedPeerStoreError, u8 list option) io" where
  "read_store_bytes self =
     io_match (fs_symlink_metadata (store_path self)) (\<lambda>r. case r of
         Ok kind \<Rightarrow>
           if kind = IsSymlink then io_return (Err (SymlinkNotAllowed (store_path self)))
           else if kind \<noteq> IsFile then io_return (Err (NotRegularFile (store_path self)))
           else read_open_store self
       | Err e \<Rightarrow> io_return (if io_kind e = NotFound then Ok None
                   else Err (store_io_error self ''inspect trusted-peer store'' e)))"

definition TrustedPeerStore_load :: "TrustedPeerStore \<Rightarrow> (TrustedPeerStoreError, TrustedPeers) io" where
  "TrustedPeerStore_load self =
     io_bind (if store_harden self
              then io_bind (io_map_err store_persistence_error (harden_existing_parent (store_path self)))
                (\<lambda>_. io_map_err store_persistence_error (harden_existing_file (store_path self)))
              else io_return (Ok ())) (\<lambda>_.
     io_bind (read_store_bytes self) (\<lambda>contents. io_return (case contents of
         Some bytes \<Rightarrow> decode bytes
       | None \<Rightarrow> Ok TrustedPeers_empty)))"

section \<open>The lock\<close>

definition open_lock_options :: "path \<Rightarrow> (io_error, path \<times> node) io" where
  "open_lock_options p = (\<lambda>w. fs_open_create p (if unix_target w then 384 else 438) w)"

definition open_lock_file :: "TrustedPeerStore \<Rightarrow> (TrustedPeerStoreError, path) io" where
  "open_lock_file self =
     (let lock = lock_path self in
      io_match (fs_symlink_metadata lock) (\<lambda>r.
        io_bind (io_return (case r of
            Ok kind \<Rightarrow> if kind = IsSymlink then Err (SymlinkNotAllowed lock)
                       else if kind \<noteq> IsFile then Err (NotRegularFile lock) else Ok ()
          | Err e \<Rightarrow> if io_kind e = NotFound then Ok ()
                     else Err (store_io_error_at lock ''inspect the trusted-peer lock'' e))) (\<lambda>_.
        io_bind (io_map_err store_persistence_error (ensure_hardened_parent lock (store_harden self))) (\<lambda>_.
        io_bind (io_map_err (store_io_error_at lock ''open the trusted-peer lock'') (open_lock_options lock))
          (\<lambda>(handle, opened).
        io_bind (io_map_err (store_io_error_at lock ''inspect the trusted-peer lock'') (fs_file_metadata opened))
          (\<lambda>(kind, _).
        if kind \<noteq> IsFile then io_return (Err (NotRegularFile lock))
        else io_bind (io_map_err store_persistence_error (harden_existing_file lock)) (\<lambda>_.
          io_return (Ok handle))))))))"

definition lock_exclusive :: "TrustedPeerStore \<Rightarrow> (TrustedPeerStoreError, path) io" where
  "lock_exclusive self =
     io_bind (open_lock_file self) (\<lambda>handle.
     io_match (fs_try_lock handle) (\<lambda>r. io_return (case r of
         Ok _ \<Rightarrow> Ok handle
       | Err WouldBlock \<Rightarrow> Err StoreBusy
       | Err (LockError source) \<Rightarrow> Err (lock_io_error self ''lock the trusted-peer store'' source))))"

text \<open>\<^verbatim>\<open>let _lock = self.lock_exclusive()?;\<close> and the drop of the guard at the end of the scope.\<close>

definition locked ::
  "TrustedPeerStore \<Rightarrow> (TrustedPeerStoreError, 'a) io \<Rightarrow> (TrustedPeerStoreError, 'a) io" where
  "locked self body =
     io_bind (lock_exclusive self) (\<lambda>handle w. case body w of (r, w') \<Rightarrow> (r, fs_unlock handle w'))"

section \<open>Mutations\<close>

definition replace_store :: "tempfile \<Rightarrow> TrustedPeerStore \<Rightarrow> u8 list \<Rightarrow> (TrustedPeerStoreError, unit) io" where
  "replace_store T self bytes =
     io_bind (io_map_err store_persistence_error
       (create_synced_temporary T (store_path self) bytes (store_harden self))) (\<lambda>t.
     io_bind (io_map_err (store_io_error self ''replace trusted-peer store'')
       (temp_persist_with T (persist T) t (store_path self))) (\<lambda>_.
     io_bind (io_map_err (store_io_error self ''sync trusted-peer store'') fs_sync) (\<lambda>_.
     io_map_err (store_io_error self ''sync trusted-peer store directory'')
       (sync_parent_directory (store_path self)))))"

definition write_all ::
  "tempfile \<Rightarrow> TrustedPeerStore \<Rightarrow> TrustedPeerRecord list \<Rightarrow> (TrustedPeerStoreError, unit) io" where
  "write_all T self records =
     (if length records > MAX_TRUSTED_PEERS
      then io_return (Err (CapacityExceeded (length records) MAX_TRUSTED_PEERS))
      else let bytes = encode (sort_key record_identity records) in
        if length bytes > MAX_TRUSTED_PEERS_STORE_BYTES
        then io_return (Err (StoreTooLarge (length bytes) MAX_TRUSTED_PEERS_STORE_BYTES))
        else replace_store T self bytes)"

definition TrustedPeerStore_store ::
  "tempfile \<Rightarrow> TrustedPeerStore \<Rightarrow> TrustedPeerRecord \<Rightarrow> (TrustedPeerStoreError, unit) io" where
  "TrustedPeerStore_store T self rec =
     locked self (io_bind (TrustedPeerStore_load self) (\<lambda>current.
       write_all T self (filter (\<lambda>existing. record_identity existing \<noteq> record_identity rec)
         (TrustedPeers_iter current) @ [rec])))"

definition TrustedPeerStore_remove ::
  "tempfile \<Rightarrow> TrustedPeerStore \<Rightarrow> PeerKeyIdentity \<Rightarrow> (TrustedPeerStoreError, TrustedPeerRemoval) io" where
  "TrustedPeerStore_remove T self i =
     locked self (io_bind (TrustedPeerStore_load self) (\<lambda>current.
       if \<not> TrustedPeers_contains current i then io_return (Ok AlreadyAbsent)
       else io_bind (write_all T self (filter (\<lambda>existing. record_identity existing \<noteq> i)
              (TrustedPeers_iter current))) (\<lambda>_. io_return (Ok Removed))))"

section \<open>Following the store file through an operation\<close>

text \<open>The node at \<open>p\<close> is the one given, up to its permission bits.\<close>

definition holds :: "path \<Rightarrow> node option \<Rightarrow> nodes \<Rightarrow> bool" where
  "holds p x n \<longleftrightarrow> x = None \<and> n p = None \<or> (\<exists>y m. x = Some y \<and> n p = Some (chmod m y))"

lemma holds_self: "holds p (n p) n"
  unfolding holds_def by (metis chmod_same option.exhaust)

lemma holds_chmod: "holds p x n \<Longrightarrow> n q = Some y \<Longrightarrow> holds p x (n(q \<mapsto> chmod m y))"
  by (cases "q = p") (auto simp: holds_def)

definition tracks :: "path \<Rightarrow> nodes \<Rightarrow> nodes \<Rightarrow> bool" where
  "tracks p n n' \<longleftrightarrow> is_temporary p \<or> (\<forall>x. holds p x n \<longrightarrow> holds p x n')"

lemma tracks_other: "q \<noteq> p \<Longrightarrow> tracks p n (n(q := y))"
  by (simp add: tracks_def holds_def)

interpretation track: staging "undisturbed p" "tracks p" "\<lambda>q. q \<noteq> p" for p
proof unfold_locales
  fix n n' a b c t q x y m
  show "undisturbed p n n' \<Longrightarrow> tracks p n n'" by (simp add: undisturbed_def tracks_def holds_def)
  show "tracks p n n" by (simp add: tracks_def)
  show "tracks p a b \<Longrightarrow> tracks p b c \<Longrightarrow> tracks p a c" unfolding tracks_def by blast
  show "undisturbed p n n' \<Longrightarrow> is_temporary t \<Longrightarrow> n' t = n t" by (simp add: undisturbed_def)
  show "is_temporary t \<Longrightarrow> plain y \<Longrightarrow> tracks p n (n(t := y))"
    using tracks_other [of t p n y] by (cases "t = p") (auto simp: tracks_def)
  show "q \<noteq> p \<Longrightarrow> n q = None \<Longrightarrow> plain y \<Longrightarrow> tracks p n (n(q := y))" by (rule tracks_other)
  show "n q = Some x \<Longrightarrow> tracks p n (n(q \<mapsto> chmod m x))"
    unfolding tracks_def using holds_chmod by blast
qed

lemma rg_track:
  assumes "\<not> is_temporary p" "rg R (tracks p) P m Q"
  shows "rg R (\<lambda>_ _. True) (\<lambda>n. P n \<and> holds p x n) m (\<lambda>r n. Q r n \<and> holds p x n)"
  using assms unfolding rg_def tracks_def by blast

lemma rg_track_always:
  assumes "\<not> is_temporary p" "rg R (tracks p) (\<lambda>_. True) m always"
  shows "rg R (\<lambda>_ _. True) (holds p x) m (\<lambda>_. holds p x)"
  using assms unfolding rg_def tracks_def by blast

lemma grows_parent: "p \<noteq> [] \<Longrightarrow> grows (\<lambda>q. q \<noteq> p) (butlast p)"
proof -
  assume "p \<noteq> []"
  then have "0 < length p" by simp
  then have "length (take k (butlast p)) < length p" for k by (simp add: min_less_iff_disj)
  then show ?thesis unfolding grows_def by (metis less_irrefl)
qed

section \<open>Reading\<close>

lemma stable_holds: "stable (undisturbed p) (holds p x)"
  by (rule stableI) (simp add: undisturbed_def holds_def)

lemma type_of_chmod [simp]: "type_of_node (chmod m y) = type_of_node y"
  by (cases y) (simp_all add: chmod_def)

definition read_of :: "node option \<Rightarrow> u8 list option \<Rightarrow> bool" where
  "read_of x b \<longleftrightarrow> (case b of None \<Rightarrow> x = None | Some bs \<Rightarrow> \<exists>m. x = Some (File m bs))"

lemma take_all_bytes: "length (take (k + 1) bs) \<le> k \<Longrightarrow> take (k + 1) bs = bs"
  by (rule take_all) (simp add: min_le_iff_disj)

lemma rg_read_open_store:
  fixes self defines "p \<equiv> store_path self"
  shows "rg (undisturbed p) (\<lambda>_ _. True) (holds p (Some (File m bs))) (read_open_store self)
    (\<lambda>r n. holds p (Some (File m bs)) n \<and> (\<forall>b. r = Ok b \<longrightarrow> read_of (Some (File m bs)) b))"
  unfolding read_open_store_def p_def [symmetric]
proof (rule replace.rg_match [where S = "\<lambda>r n. holds p (Some (File m bs)) n \<and>
    (case r of Ok x \<Rightarrow> \<exists>m. x = File m bs | Err e \<Rightarrow> io_kind e \<noteq> NotFound)"])
  have "target_node n p = Ok (p, File m' bs)" if "n p = Some (File m' bs)" for n m'
    using that by (rule target_node_file)
  then show "rg (undisturbed p) (\<lambda>_ _. True) (holds p (Some (File m bs))) (fs_open p)
      (\<lambda>r n. holds p (Some (File m bs)) n \<and>
        (case r of Ok x \<Rightarrow> \<exists>m. x = File m bs | Err e \<Rightarrow> io_kind e \<noteq> NotFound))"
    unfolding fs_open_def
    by (intro replace.rg_syscall_kind stable_holds) (auto simp: holds_def chmod_def)
next
  fix r :: "io_error + node"
  let ?I = "holds p (Some (File m bs))" and ?Q = "\<lambda>r n. holds p (Some (File m bs)) n \<and> (\<forall>b. r = Ok b \<longrightarrow> read_of (Some (File m bs)) b)"
  show "rg (undisturbed p) (\<lambda>_ _. True) (\<lambda>n. ?I n \<and> (case r of Ok x \<Rightarrow> \<exists>m. x = File m bs | Err e \<Rightarrow> io_kind e \<noteq> NotFound))
    (case r of
         Err e \<Rightarrow> io_return (if io_kind e = NotFound then Ok None
                   else Err (store_io_error self ''open trusted-peer store'' e))
       | Ok opened \<Rightarrow>
           io_bind (io_map_err (store_io_error self ''inspect open trusted-peer store'') (fs_file_metadata opened))
             (\<lambda>(kind, len).
               if kind \<noteq> IsFile then io_return (Err (NotRegularFile p))
               else if len > MAX_TRUSTED_PEERS_STORE_BYTES
               then io_return (Err (StoreTooLarge len MAX_TRUSTED_PEERS_STORE_BYTES))
               else io_bind (io_map_err (store_io_error self ''read trusted-peer store'')
                      (fs_take_read (MAX_TRUSTED_PEERS_STORE_BYTES + 1) opened)) (\<lambda>bytes.
                 io_return (if length bytes > MAX_TRUSTED_PEERS_STORE_BYTES
                   then Err (StoreTooLarge (length bytes) MAX_TRUSTED_PEERS_STORE_BYTES)
                   else Ok (Some bytes))))) ?Q"
  proof (cases r)
    case (Inl e)
    show ?thesis unfolding Inl sum.case by (rule replace.rg_return) auto
  next
    case (Inr x)
    have read: "rg (undisturbed p) (\<lambda>_ _. True) ?I
        (io_bind (io_map_err (store_io_error self ''read trusted-peer store'')
           (fs_take_read (MAX_TRUSTED_PEERS_STORE_BYTES + 1) (File m' bs))) (\<lambda>bytes.
         io_return (if length bytes > MAX_TRUSTED_PEERS_STORE_BYTES
           then Err (StoreTooLarge (length bytes) MAX_TRUSTED_PEERS_STORE_BYTES)
           else Ok (Some bytes)))) ?Q" for m'
      by (rule replace.rg_bind [where S = "\<lambda>r n. ?I n \<and> (\<forall>b. r = Ok b \<longrightarrow> b = take (MAX_TRUSTED_PEERS_STORE_BYTES + 1) bs)"],
          rule replace.rg_map_err, rule replace.rg_take_read [OF stable_holds])
        (auto intro!: replace.rg_return simp: read_of_def not_less dest: take_all_bytes split: if_splits)
    show ?thesis
      unfolding Inr sum.case
    proof (rule replace.rg_bind [where S = "\<lambda>_ n. (\<exists>m. x = File m bs) \<and> ?I n"])
      have "stable (undisturbed p) (\<lambda>n. (\<exists>m. x = File m bs) \<and> ?I n)"
        by (rule stableI) (simp add: undisturbed_def holds_def)
      then have "rg (undisturbed p) (\<lambda>_ _. True) (\<lambda>n. (\<exists>m. x = File m bs) \<and> ?I n)
          (io_map_err (store_io_error self ''inspect open trusted-peer store'') (fs_file_metadata x))
          (\<lambda>_ n. (\<exists>m. x = File m bs) \<and> ?I n)"
        unfolding fs_file_metadata_def by (intro replace.rg_map_err replace.rg_query) auto
      then show "rg (undisturbed p) (\<lambda>_ _. True) (\<lambda>n. ?I n \<and> (\<exists>m. x = File m bs))
          (io_map_err (store_io_error self ''inspect open trusted-peer store'') (fs_file_metadata x))
          (\<lambda>_ n. (\<exists>m. x = File m bs) \<and> ?I n)"
        by (rule rg_conseq) auto
      fix out :: "file_type \<times> nat"
      show "rg (undisturbed p) (\<lambda>_ _. True) (\<lambda>n. (\<exists>m. x = File m bs) \<and> ?I n)
        (case out of (kind, len) \<Rightarrow> if kind \<noteq> IsFile then io_return (Err (NotRegularFile p))
               else if len > MAX_TRUSTED_PEERS_STORE_BYTES
               then io_return (Err (StoreTooLarge len MAX_TRUSTED_PEERS_STORE_BYTES))
               else io_bind (io_map_err (store_io_error self ''read trusted-peer store'')
                      (fs_take_read (MAX_TRUSTED_PEERS_STORE_BYTES + 1) x)) (\<lambda>bytes.
                 io_return (if length bytes > MAX_TRUSTED_PEERS_STORE_BYTES
                   then Err (StoreTooLarge (length bytes) MAX_TRUSTED_PEERS_STORE_BYTES)
                   else Ok (Some bytes)))) ?Q" (is "rg _ _ _ ?prog _")
      proof (rule rg_assume, elim exE)
        fix m' assume "x = File m' bs"
        then show "rg (undisturbed p) (\<lambda>_ _. True) ?I ?prog ?Q"
          using read [of m'] by (cases out) (auto intro!: replace.rg_return)
      qed
    qed auto
  qed
qed
lemma rg_read_store_bytes:
  fixes self defines "p \<equiv> store_path self"
  shows "rg (undisturbed p) (\<lambda>_ _. True) (holds p x) (read_store_bytes self)
    (\<lambda>r n. holds p x n \<and> (\<forall>b. r = Ok b \<longrightarrow> read_of x b))"
    (is "rg ?R ?K ?I _ ?Q")
  unfolding read_store_bytes_def p_def [symmetric]
proof (rule replace.rg_match [where S = "\<lambda>r n. (case r of Ok t \<Rightarrow> \<exists>y. x = Some y \<and> type_of_node y = t
      | Err e \<Rightarrow> io_kind e = NotFound \<longrightarrow> x = None) \<and> ?I n"])
  show "rg ?R ?K ?I (fs_symlink_metadata p) (\<lambda>r n. (case r of Ok t \<Rightarrow> \<exists>y. x = Some y \<and> type_of_node y = t
      | Err e \<Rightarrow> io_kind e = NotFound \<longrightarrow> x = None) \<and> ?I n)"
    unfolding fs_symlink_metadata_def
    by (intro replace.rg_syscall_kind stable_holds) (auto simp: holds_def)
  fix r :: "io_error + file_type"
  show "rg ?R ?K (\<lambda>n. (case r of Ok t \<Rightarrow> \<exists>y. x = Some y \<and> type_of_node y = t
      | Err e \<Rightarrow> io_kind e = NotFound \<longrightarrow> x = None) \<and> ?I n) (case r of
         Ok kind \<Rightarrow>
           if kind = IsSymlink then io_return (Err (SymlinkNotAllowed p))
           else if kind \<noteq> IsFile then io_return (Err (NotRegularFile p))
           else read_open_store self
       | Err e \<Rightarrow> io_return (if io_kind e = NotFound then Ok None
                   else Err (store_io_error self ''inspect trusted-peer store'' e))) ?Q"
    (is "rg _ _ _ ?prog _")
  proof (rule rg_assume)
    assume c: "case r of Ok t \<Rightarrow> \<exists>y. x = Some y \<and> type_of_node y = t
      | Err e \<Rightarrow> io_kind e = NotFound \<longrightarrow> x = None"
    show "rg ?R ?K ?I ?prog ?Q"
    proof (cases r)
      case (Inl e)
      then show ?thesis using c by (auto intro!: replace.rg_return simp: read_of_def)
    next
      case (Inr t)
      then obtain y where y: "x = Some y" "type_of_node y = t" using c by auto
      show ?thesis
      proof (cases y)
        case (File m bs)
        then show ?thesis using Inr y rg_read_open_store [of self m bs] by (simp add: p_def)
      qed (use Inr y in \<open>auto intro!: replace.rg_return\<close>)
    qed
  qed
qed

text \<open>What a load answers, by the node at the store's path.\<close>

definition loads :: "node option \<Rightarrow> TrustedPeers \<Rightarrow> bool" where
  "loads x tp \<longleftrightarrow> x = None \<and> tp = TrustedPeers_empty \<or> (\<exists>m bs. x = Some (File m bs) \<and> decode bs = Ok tp)"

lemma rg_load:
  fixes self defines "p \<equiv> store_path self"
  assumes p: "\<not> is_temporary p"
  shows "rg (undisturbed p) (\<lambda>_ _. True) (holds p x) (TrustedPeerStore_load self)
    (\<lambda>r n. holds p x n \<and> (\<forall>tp. r = Ok tp \<longrightarrow> loads x tp))"
  unfolding TrustedPeerStore_load_def p_def [symmetric]
proof (rule replace.rg_bind [where S = "\<lambda>_. holds p x"])
  have "rg (undisturbed p) (tracks p) (\<lambda>_. True) (if store_harden self
      then io_bind (io_map_err store_persistence_error (harden_existing_parent p))
        (\<lambda>_. io_map_err store_persistence_error (harden_existing_file p)) else io_return (Ok ())) always"
    by (simp add: track.rg_return_always track.rg_bind_always
        [OF track.rg_map_err_always [OF track.rg_harden_existing_parent]
            track.rg_map_err_always [OF track.rg_harden_existing_file]])
  then show "rg (undisturbed p) (\<lambda>_ _. True) (holds p x) (if store_harden self
      then io_bind (io_map_err store_persistence_error (harden_existing_parent p))
        (\<lambda>_. io_map_err store_persistence_error (harden_existing_file p)) else io_return (Ok ())) (\<lambda>_. holds p x)"
    by (rule rg_track_always [OF p])
  show "rg (undisturbed p) (\<lambda>_ _. True) (holds p x) (io_bind (read_store_bytes self) (\<lambda>contents.
      io_return (case contents of Some bytes \<Rightarrow> decode bytes | None \<Rightarrow> Ok TrustedPeers_empty)))
      (\<lambda>r n. holds p x n \<and> (\<forall>tp. r = Ok tp \<longrightarrow> loads x tp))" for u :: unit
    by (rule replace.rg_bind, unfold p_def, rule rg_read_store_bytes)
      (auto intro!: replace.rg_return simp: loads_def read_of_def split: option.splits)
qed auto


section \<open>Replacing the file\<close>

definition written :: "path \<Rightarrow> u8 list \<Rightarrow> nodes \<Rightarrow> bool" where
  "written p bs n \<longleftrightarrow> (\<exists>m. n p = Some (File m bs))"

lemma stable_written: "stable (undisturbed p) (written p bs)"
  by (rule stableI) (simp add: undisturbed_def written_def)

lemma rg_rename:
  assumes T: "tempfile_laws T" and p: "\<not> is_temporary p"
  shows "rg (undisturbed p) (\<lambda>_ _. True) (\<lambda>n. track.staged t bs n \<and> holds p x n) (temp_persist_with T (persist T) t p)
    (\<lambda>r n. if is_ok r then written p bs n else holds p x n)"
  unfolding temp_persist_with_def temp_rename_def
proof (rule replace.rg_match [where S = "\<lambda>r n. is_temporary t \<and> (if is_ok r then written p bs n else holds p x n)"])
  have "stable (undisturbed p) (\<lambda>n. track.staged t bs n \<and> holds p x n)"
    by (rule stableI) (auto simp: undisturbed_def holds_def track.staged_def)
  then show "rg (undisturbed p) (\<lambda>_ _. True) (\<lambda>n. track.staged t bs n \<and> holds p x n)
      (syscall (\<lambda>n. map_ok (\<lambda>n'. ((), n')) (persist T t p n)))
      (\<lambda>r n. is_temporary t \<and> (if is_ok r then written p bs n else holds p x n))"
  proof (rule replace.rg_syscall)
    fix n u n'
    assume st: "track.staged t bs n \<and> holds p x n" and op: "map_ok (\<lambda>n'. ((), n')) (persist T t p n) = Ok (u, n')"
    then have "persist T t p n = Ok n'" by (simp add: result_simps)
    from tempfile_persist [OF T this] have n': "n' = renamed t p n" by simp
    with st show "True \<and> is_temporary t \<and> (if is_ok (Ok u :: io_error + unit) then written p bs n' else holds p x n')"
      by (auto simp: track.staged_def renamed_def written_def)
  qed (auto simp: track.staged_def)
  fix r :: "io_error + unit"
  show "rg (undisturbed p) (\<lambda>_ _. True) (\<lambda>n. is_temporary t \<and> (if is_ok r then written p bs n else holds p x n))
      (case r of Ok u \<Rightarrow> io_return (Ok u) | Err e \<Rightarrow> temp_drop T t (io_return (Err e)))
      (\<lambda>r n. if is_ok r then written p bs n else holds p x n)"
  proof (rule rg_assume)
    assume t: "is_temporary t"
    show "rg (undisturbed p) (\<lambda>_ _. True) (\<lambda>n. if is_ok r then written p bs n else holds p x n)
      (case r of Ok u \<Rightarrow> io_return (Ok u) | Err e \<Rightarrow> temp_drop T t (io_return (Err e)))
      (\<lambda>r n. if is_ok r then written p bs n else holds p x n)"
    proof (cases r)
      case (Inl e)
      have "rg (undisturbed p) (tracks p) (\<lambda>_. True) (temp_drop T t (io_return (Err e :: io_error + unit))) (\<lambda>r _. \<not> is_ok r)"
        by (rule track.rg_temp_drop [OF T t], rule track.rg_return) simp
      from rg_track [OF p this, of x] show ?thesis
        unfolding Inl sum.case by (rule rg_conseq) auto
    qed (auto intro: replace.rg_return)
  qed
qed

lemma rg_replace_store:
  fixes self defines "p \<equiv> store_path self"
  assumes T: "tempfile_laws T" and p: "\<not> is_temporary p" "p \<noteq> []"
  shows "rg (undisturbed p) (\<lambda>_ _. True) (holds p x) (replace_store T self bs)
    (\<lambda>r n. written p bs n \<or> \<not> is_ok r \<and> holds p x n)" (is "rg ?R ?K _ _ ?Q")
  unfolding replace_store_def p_def [symmetric]
proof (rule replace.rg_bind [where S = "\<lambda>r n. (\<forall>t. r = Ok t \<longrightarrow> track.staged t bs n) \<and> holds p x n"])
  have "rg ?R (tracks p) (\<lambda>_. True) (io_map_err store_persistence_error
      (create_synced_temporary T p bs (store_harden self))) (\<lambda>r n. \<forall>t. r = Ok t \<longrightarrow> track.staged t bs n)"
    by (rule track.rg_map_err, rule rg_conseq [OF track.rg_create_synced_temporary [OF T grows_parent [OF p(2)]]])
      (auto simp: result_simps)
  from rg_track [OF p(1) this, of x]
  show "rg ?R ?K (holds p x) (io_map_err store_persistence_error
      (create_synced_temporary T p bs (store_harden self)))
      (\<lambda>r n. (\<forall>t. r = Ok t \<longrightarrow> track.staged t bs n) \<and> holds p x n)"
    by (rule rg_conseq) auto
  have sync: "rg ?R ?K (written p bs) (io_bind (io_map_err (store_io_error self ''sync trusted-peer store'') fs_sync)
      (\<lambda>_. io_map_err (store_io_error self ''sync trusted-peer store directory'') (sync_parent_directory p))) (\<lambda>_. written p bs)"
  proof (rule replace.rg_bind [OF replace.rg_map_err [OF replace.rg_sync [OF stable_written]]], rule replace.rg_map_err)
    have "rg ?R ?K (written p bs) (fs_open d) (\<lambda>_. written p bs)" for d
      unfolding fs_open_def by (rule replace.rg_query [OF stable_written]) (auto simp: result_simps)
    then have "rg ?R ?K (written p bs) (io_bind (fs_open d) (\<lambda>_. fs_sync)) (\<lambda>_. written p bs)" for d
      by (rule replace.rg_bind) (auto intro: replace.rg_sync stable_written)
    then show "rg ?R ?K (written p bs) (sync_parent_directory p) (\<lambda>_. written p bs)"
      unfolding sync_parent_directory_def
      by (intro replace.rg_on_unix) (auto intro: replace.rg_return split: option.split)
  qed auto
  fix t
  show "rg ?R ?K (\<lambda>n. (\<forall>t'. Ok t = Ok t' \<longrightarrow> track.staged t' bs n) \<and> holds p x n)
      (io_bind (io_map_err (store_io_error self ''replace trusted-peer store'') (temp_persist_with T (persist T) t p))
      (\<lambda>_. io_bind (io_map_err (store_io_error self ''sync trusted-peer store'') fs_sync)
      (\<lambda>_. io_map_err (store_io_error self ''sync trusted-peer store directory'') (sync_parent_directory p)))) ?Q"
  proof (rule replace.rg_bind [where S = "\<lambda>r n. if is_ok r then written p bs n else holds p x n"])
    show "rg ?R ?K (\<lambda>n. (\<forall>t'. Ok t = Ok t' \<longrightarrow> track.staged t' bs n) \<and> holds p x n)
        (io_map_err (store_io_error self ''replace trusted-peer store'') (temp_persist_with T (persist T) t p))
        (\<lambda>r n. if is_ok r then written p bs n else holds p x n)"
      by (rule replace.rg_map_err, rule rg_conseq [OF rg_rename [OF T p(1)]]) auto
    show "rg ?R ?K (\<lambda>n. if is_ok (Ok u :: TrustedPeerStoreError + unit) then written p bs n else holds p x n)
        (io_bind (io_map_err (store_io_error self ''sync trusted-peer store'') fs_sync)
        (\<lambda>_. io_map_err (store_io_error self ''sync trusted-peer store directory'') (sync_parent_directory p))) ?Q" for u
      by (rule rg_conseq [OF sync]) auto
  qed auto
qed auto

lemma rg_write_all:
  fixes self defines "p \<equiv> store_path self"
  assumes T: "tempfile_laws T" and p: "\<not> is_temporary p" "p \<noteq> []"
  shows "rg (undisturbed p) (\<lambda>_ _. True) (holds p x) (write_all T self rs)
    (\<lambda>r n. written p (encode (sort_key record_identity rs)) n \<and> length rs \<le> MAX_TRUSTED_PEERS
      \<or> \<not> is_ok r \<and> holds p x n)"
  using rg_replace_store [of T self x] assms
  unfolding write_all_def Let_def
  by (auto intro!: replace.rg_return intro: rg_conseq)

section \<open>Mutations\<close>

text \<open>
  What a mutation leaves when it answers \<open>r\<close>: the set it loaded, changed by \<open>f\<close>, or - when it
  fails or has nothing to change - the file as it was.
\<close>

definition mutated ::
  "path \<Rightarrow> node option \<Rightarrow> (TrustedPeers \<Rightarrow> TrustedPeerRecord list) \<Rightarrow> nodes \<Rightarrow> bool" where
  "mutated p x f n \<longleftrightarrow> (\<exists>tp. loads x tp \<and> length (f tp) \<le> MAX_TRUSTED_PEERS \<and>
     written p (encode (sort_key record_identity (f tp))) n)"

definition stored :: "TrustedPeerRecord \<Rightarrow> TrustedPeers \<Rightarrow> TrustedPeerRecord list" where
  "stored rec tp = filter (\<lambda>existing. record_identity existing \<noteq> record_identity rec) (trusted_records tp) @ [rec]"

definition without :: "PeerKeyIdentity \<Rightarrow> TrustedPeers \<Rightarrow> TrustedPeerRecord list" where
  "without i tp = filter (\<lambda>existing. record_identity existing \<noteq> i) (trusted_records tp)"

definition store_body :: "tempfile \<Rightarrow> TrustedPeerStore \<Rightarrow> TrustedPeerRecord \<Rightarrow> (TrustedPeerStoreError, unit) io" where
  "store_body T self rec = io_bind (TrustedPeerStore_load self) (\<lambda>current. write_all T self (stored rec current))"

definition remove_body ::
  "tempfile \<Rightarrow> TrustedPeerStore \<Rightarrow> PeerKeyIdentity \<Rightarrow> (TrustedPeerStoreError, TrustedPeerRemoval) io" where
  "remove_body T self i = io_bind (TrustedPeerStore_load self) (\<lambda>current.
     if \<not> TrustedPeers_contains current i then io_return (Ok AlreadyAbsent)
     else io_bind (write_all T self (without i current)) (\<lambda>_. io_return (Ok Removed)))"

lemma store_alt: "TrustedPeerStore_store T self rec = locked self (store_body T self rec)"
  by (simp add: TrustedPeerStore_store_def store_body_def stored_def TrustedPeers_iter_def)

lemma remove_alt: "TrustedPeerStore_remove T self i = locked self (remove_body T self i)"
  unfolding TrustedPeerStore_remove_def remove_body_def without_def TrustedPeers_iter_def by (rule refl)

lemma rg_store_body:
  fixes self defines "p \<equiv> store_path self"
  assumes T: "tempfile_laws T" and p: "\<not> is_temporary p" "p \<noteq> []"
  shows "rg (undisturbed p) (\<lambda>_ _. True) (holds p x) (store_body T self rec)
    (\<lambda>r n. mutated p x (stored rec) n \<or> \<not> is_ok r \<and> holds p x n)"
  unfolding store_body_def
proof (rule replace.rg_bind)
  show "rg (undisturbed p) (\<lambda>_ _. True) (holds p x) (TrustedPeerStore_load self)
      (\<lambda>r n. (\<forall>tp. r = Ok tp \<longrightarrow> loads x tp) \<and> holds p x n)"
    using rg_load [of self x] p by (auto simp: p_def intro: rg_conseq)
  fix tp
  show "rg (undisturbed p) (\<lambda>_ _. True) (\<lambda>n. (\<forall>tp'. Ok tp = Ok tp' \<longrightarrow> loads x tp') \<and> holds p x n)
      (write_all T self (stored rec tp)) (\<lambda>r n. mutated p x (stored rec) n \<or> \<not> is_ok r \<and> holds p x n)"
  proof (rule rg_assume)
    assume "\<forall>tp'. Ok tp = Ok tp' \<longrightarrow> loads x tp'"
    then show "rg (undisturbed p) (\<lambda>_ _. True) (holds p x)
      (write_all T self (stored rec tp)) (\<lambda>r n. mutated p x (stored rec) n \<or> \<not> is_ok r \<and> holds p x n)"
      by (intro rg_conseq [OF rg_write_all [OF T, of self x "stored rec tp", folded p_def, OF p]])
        (auto simp: mutated_def)
  qed
qed auto

lemma rg_remove_body:
  fixes self defines "p \<equiv> store_path self"
  assumes T: "tempfile_laws T" and p: "\<not> is_temporary p" "p \<noteq> []"
  shows "rg (undisturbed p) (\<lambda>_ _. True) (holds p x) (remove_body T self i)
    (\<lambda>r n. (r = Ok AlreadyAbsent \<and> (\<exists>tp. loads x tp \<and> \<not> TrustedPeers_contains tp i) \<or> \<not> is_ok r) \<and> holds p x n
      \<or> r \<noteq> Ok AlreadyAbsent \<and> mutated p x (without i) n)" (is "rg ?R ?K _ _ ?Q")
  unfolding remove_body_def
proof (rule replace.rg_bind)
  show "rg ?R ?K (holds p x) (TrustedPeerStore_load self)
      (\<lambda>r n. (\<forall>tp. r = Ok tp \<longrightarrow> loads x tp) \<and> holds p x n)"
    using rg_load [of self x] p by (auto simp: p_def intro: rg_conseq)
  fix tp
  let ?prog = "if \<not> TrustedPeers_contains tp i then io_return (Ok AlreadyAbsent)
     else io_bind (write_all T self (without i tp)) (\<lambda>_. io_return (Ok Removed))"
  have writes: "rg ?R ?K (holds p x) (io_bind (write_all T self (without i tp)) (\<lambda>_. io_return (Ok Removed))) ?Q"
    if "loads x tp"
    by (rule replace.rg_bind [OF rg_write_all [OF T, of self x "without i tp", folded p_def, OF p]])
      (use that in \<open>auto intro!: replace.rg_return simp: mutated_def\<close>)
  show "rg ?R ?K (\<lambda>n. (\<forall>tp'. Ok tp = Ok tp' \<longrightarrow> loads x tp') \<and> holds p x n) ?prog ?Q"
    by (rule rg_assume) (use writes in \<open>auto intro!: replace.rg_return\<close>)
qed auto

section \<open>The lock\<close>

lemma lockedE:
  assumes "locked self body w = (r, w')"
  obtains (refused) e where "lock_exclusive self w = (Err e, w')" "r = Err e"
  | (entered) q w1 w2 where "lock_exclusive self w = (Ok q, w1)" "body w1 = (r, w2)" "w' = fs_unlock q w2"
proof -
  obtain l w1 where l: "lock_exclusive self w = (l, w1)" by fastforce
  show thesis
  proof (cases l)
    case (Inl e)
    then show thesis using assms l by (intro refused [of e]) (simp_all add: locked_def io_bind_def io_match_def io_return_def)
  next
    case (Inr q)
    obtain r2 w2 where "body w1 = (r2, w2)" by fastforce
    then show thesis
      using assms l Inr by (intro entered [of q w1 w2]) (simp_all add: locked_def io_bind_def io_match_def)
  qed
qed

text \<open>Everything but the lock call leaves the locks alone.\<close>

definition lock_free :: "('e, 'a) io \<Rightarrow> bool" where
  "lock_free m \<longleftrightarrow> (\<forall>w. held_locks (snd (m w)) = held_locks w)"

named_theorems lock_free

lemma next_event_locks: "next_event w = (e, w') \<Longrightarrow> held_locks w' = held_locks w"
  by (auto simp: next_event_def split: list.splits)

lemma lock_free_return [lock_free]: "lock_free (io_return r)"
  by (simp add: lock_free_def io_return_def)

lemma lock_free_match [lock_free]:
  assumes "lock_free m" "\<And>r. lock_free (k r)"
  shows "lock_free (io_match m k)"
  using assms by (simp add: lock_free_def io_match_def split_def)

lemma lock_free_map_err [lock_free]: "lock_free m \<Longrightarrow> lock_free (io_map_err g m)"
  unfolding io_map_err_def by (erule lock_free_match) (rule lock_free_return)

lemma lock_free_bind [lock_free]:
  assumes "lock_free m" "\<And>a. lock_free (f a)"
  shows "lock_free (io_bind m f)"
  unfolding io_bind_def
  by (rule lock_free_match [OF assms(1)]) (use assms(2) in \<open>simp add: lock_free_return split: sum.split\<close>)

lemma lock_free_if [lock_free]: "lock_free a \<Longrightarrow> lock_free b \<Longrightarrow> lock_free (if c then a else b)"
  by simp

lemma lock_free_result [lock_free]:
  "(\<And>e. lock_free (f e)) \<Longrightarrow> (\<And>a. lock_free (g a)) \<Longrightarrow> lock_free (case r of Err e \<Rightarrow> f e | Ok a \<Rightarrow> g a)"
  by (simp split: sum.split)

lemma lock_free_option [lock_free]:
  "lock_free f \<Longrightarrow> (\<And>a. lock_free (g a)) \<Longrightarrow> lock_free (case r of None \<Rightarrow> f | Some a \<Rightarrow> g a)"
  by (simp split: option.split)

lemma lock_free_syscall [lock_free]: "lock_free (syscall op)"
  unfolding lock_free_def syscall_def
  by (auto split: prod.split option.split sum.split dest: next_event_locks)

lemma lock_free_take_read [lock_free]: "lock_free (fs_take_read limit x)"
  unfolding lock_free_def fs_take_read_def
  by (auto split: prod.split option.split node.split dest: next_event_locks)

lemma lock_free_on_unix [lock_free]: "lock_free m \<Longrightarrow> lock_free (on_unix m)"
  by (simp add: lock_free_def on_unix_def)

lemmas fs_defs = fs_symlink_metadata_def fs_set_permissions_def fs_create_dir_all_def fs_open_def
  fs_file_metadata_def fs_sync_def fs_open_create_def temp_new_in_def temp_set_permissions_def
  temp_write_all_def temp_drop_def temp_persist_with_def temp_rename_def

lemmas persistence_defs = harden_existing_file_def harden_existing_parent_def existing_directory_def
  prepare_parent_def fill_temporary_def create_synced_temporary_def ensure_hardened_parent_def
  sync_parent_directory_def set_directory_permissions_def set_file_permissions_def
  set_open_file_permissions_def

lemma lock_free_harden [lock_free]:
  "lock_free (harden_existing_file p)" "lock_free (harden_existing_parent p)"
  "lock_free (ensure_hardened_parent p h)" "lock_free (create_synced_temporary T p bs h)"
  "lock_free (sync_parent_directory p)"
  unfolding persistence_defs fs_defs by (intro lock_free)+

lemma lock_free_load [lock_free]: "lock_free (TrustedPeerStore_load self)"
  unfolding TrustedPeerStore_load_def read_store_bytes_def read_open_store_def fs_defs split_def
  by (intro lock_free)+

lemma lock_free_write_all [lock_free]: "lock_free (write_all T self rs)"
  unfolding write_all_def replace_store_def Let_def fs_defs by (intro lock_free)+

lemma lock_free_open_options [lock_free]: "lock_free (open_lock_options p)"
proof -
  have "lock_free (fs_open_create p mode)" for mode unfolding fs_open_create_def by (rule lock_free_syscall)
  then show ?thesis by (simp add: lock_free_def open_lock_options_def)
qed

lemma lock_free_open_lock [lock_free]: "lock_free (open_lock_file self)"
  unfolding open_lock_file_def Let_def fs_symlink_metadata_def fs_file_metadata_def split_def
  by (intro lock_free)+

lemma try_lock_cases:
  assumes "fs_try_lock q w = (r, w')"
  obtains (got) "r = Ok ()" "q \<notin> set (held_locks w)" "held_locks w' = q # held_locks w"
  | (failed) e where "r = Err e" "held_locks w' = held_locks w"
proof -
  obtain e w1 where "next_event w = (e, w1)" by fastforce
  with assms next_event_locks [OF this] show thesis
    by (auto simp: fs_try_lock_def intro: got failed split: option.splits if_splits)
qed

lemma lock_exclusive_cases:
  assumes "lock_exclusive self w = (r, w')"
  obtains (got) q where "r = Ok q" "q \<notin> set (held_locks w)" "held_locks w' = q # held_locks w"
  | (failed) e where "r = Err e" "held_locks w' = held_locks w"
proof -
  obtain l w1 where l: "open_lock_file self w = (l, w1)" by fastforce
  then have w1: "held_locks w1 = held_locks w"
    using lock_free_open_lock [of self] by (metis lock_free_def snd_conv)
  show thesis
  proof (cases l)
    case (Inl e)
    then show thesis
      using assms l w1 by (intro failed [of e]) (simp_all add: lock_exclusive_def io_bind_def io_match_def io_return_def)
  next
    case (Inr q)
    obtain t w2 where t: "fs_try_lock q w1 = (t, w2)" by fastforce
    then show thesis
    proof (cases rule: try_lock_cases)
      case got
      then show thesis
        using assms l w1 Inr t by (intro that(1) [of q]) (simp_all add: lock_exclusive_def io_bind_def io_match_def io_return_def)
    next
      case (failed e)
      then show thesis
        using assms l w1 Inr t
        by (intro that(2) [of "case e of WouldBlock \<Rightarrow> StoreBusy | LockError source \<Rightarrow> lock_io_error self ''lock the trusted-peer store'' source"])
          (cases e; simp add: lock_exclusive_def io_bind_def io_match_def io_return_def)+
    qed
  qed
qed

text \<open>A mutation holds the lock while its body runs, and only then.\<close>

lemma locked_locks:
  assumes "lock_free body"
  shows "held_locks (snd (locked self body w)) = held_locks w"
proof -
  obtain r w' where run: "locked self body w = (r, w')" by fastforce
  then show ?thesis
  proof (cases rule: lockedE)
    case (refused e)
    from refused(1) show ?thesis using run by (cases rule: lock_exclusive_cases) simp_all
  next
    case (entered q w1 w2)
    have "held_locks w2 = held_locks w1" using assms entered(2) by (metis lock_free_def snd_conv)
    with entered(1) show ?thesis
      using run entered(3) by (cases rule: lock_exclusive_cases) (simp_all add: fs_unlock_def)
  qed
qed

lemma lock_free_bodies: "lock_free (store_body T self rec)" "lock_free (remove_body T self i)"
  unfolding store_body_def remove_body_def by (intro lock_free)+

section \<open>Mutations as map updates\<close>

lemma loads_wf:
  assumes "loads x tp"
  shows "distinct (map record_identity (trusted_records tp))" "\<forall>r\<in>set (trusted_records tp). loadable r"
  using assms store_decode_sound by (auto simp: loads_def TrustedPeers_empty_def)

lemma sorted_file_loads:
  assumes "\<forall>r\<in>set rs. loadable r" "length rs \<le> MAX_TRUSTED_PEERS" "distinct (map record_identity rs)"
  shows "decode (encode (sort_key record_identity rs)) = Ok \<lparr>trusted_records = sort_key record_identity rs\<rparr>"
proof -
  have "sort_key record_identity (sort_key record_identity rs) = sort_key record_identity rs"
    by (rule sort_key_id_if_sorted) simp
  then show ?thesis
    using store_decode_encode [of "sort_key record_identity rs"] assms
    by (simp add: assemble_def distinct_sort_key)
qed

lemma trusted_map_sorted:
  assumes "distinct (map record_identity rs)"
  shows "trusted_map \<lparr>trusted_records = sort_key record_identity rs\<rparr> i = Some r \<longleftrightarrow> r \<in> set rs \<and> record_identity r = i"
  using assms by (simp add: trusted_map_def map_of_records distinct_sort_key)

lemma trusted_map_Some:
  "loads x tp \<Longrightarrow> trusted_map tp i = Some r \<longleftrightarrow> r \<in> set (trusted_records tp) \<and> record_identity r = i"
  unfolding trusted_map_def by (rule map_of_records [OF loads_wf(1)])

lemma trusted_map_mutated:
  assumes "mutated p x f n" "\<And>tp. loads x tp \<Longrightarrow> distinct (map record_identity (f tp)) \<and> (\<forall>r\<in>set (f tp). loadable r)"
  obtains tp tp' where "loads x tp" "loads (n p) tp'"
    "\<And>i r. trusted_map tp' i = Some r \<longleftrightarrow> r \<in> set (f tp) \<and> record_identity r = i"
proof -
  obtain tp m where tp: "loads x tp" "length (f tp) \<le> MAX_TRUSTED_PEERS"
      "n p = Some (File m (encode (sort_key record_identity (f tp))))"
    using assms(1) by (auto simp: mutated_def written_def)
  note f = assms(2) [OF tp(1)]
  show thesis
  proof (rule that [OF tp(1)])
    show "loads (n p) \<lparr>trusted_records = sort_key record_identity (f tp)\<rparr>"
      using tp(2,3) f sorted_file_loads by (simp add: loads_def)
    show "trusted_map \<lparr>trusted_records = sort_key record_identity (f tp)\<rparr> i = Some r \<longleftrightarrow>
        r \<in> set (f tp) \<and> record_identity r = i" for i r
      by (rule trusted_map_sorted) (use f in simp)
  qed
qed

lemma distinct_without: "distinct (map record_identity rs) \<Longrightarrow> distinct (map record_identity (filter P rs))"
  by (simp add: distinct_map_filter)

lemma stored_map:
  assumes "mutated p x (stored rec) n" "loadable rec"
  shows "\<exists>tp tp'. loads x tp \<and> loads (n p) tp' \<and> trusted_map tp' = (trusted_map tp)(record_identity rec \<mapsto> rec)"
proof -
  have "distinct (map record_identity (stored rec tp)) \<and> (\<forall>r\<in>set (stored rec tp). loadable r)" if "loads x tp" for tp
    using loads_wf [OF that] assms(2) by (auto simp: stored_def distinct_without)
  from trusted_map_mutated [OF assms(1) this] obtain tp tp' where
    tp: "loads x tp" "loads (n p) tp'" and map: "\<And>i r. trusted_map tp' i = Some r \<longleftrightarrow> r \<in> set (stored rec tp) \<and> record_identity r = i"
    by blast
  have "trusted_map tp' i = Some r \<longleftrightarrow> ((trusted_map tp)(record_identity rec \<mapsto> rec)) i = Some r" for i r
    unfolding map by (auto simp: stored_def trusted_map_Some [OF tp(1)])
  then have "trusted_map tp' = (trusted_map tp)(record_identity rec \<mapsto> rec)"
    by (rule map_eqI)
  with tp show ?thesis by blast
qed

lemma removed_map:
  assumes "mutated p x (without i) n"
  shows "\<exists>tp tp'. loads x tp \<and> loads (n p) tp' \<and> trusted_map tp' = (trusted_map tp)(i := None)"
proof -
  have "distinct (map record_identity (without i tp)) \<and> (\<forall>r\<in>set (without i tp). loadable r)" if "loads x tp" for tp
    using loads_wf [OF that] by (auto simp: without_def distinct_without)
  from trusted_map_mutated [OF assms this] obtain tp tp' where
    tp: "loads x tp" "loads (n p) tp'" and map: "\<And>j r. trusted_map tp' j = Some r \<longleftrightarrow> r \<in> set (without i tp) \<and> record_identity r = j"
    by blast
  have "trusted_map tp' j = Some r \<longleftrightarrow> ((trusted_map tp)(i := None)) j = Some r" for j r
    unfolding map by (auto simp: without_def trusted_map_Some [OF tp(1)])
  then have "trusted_map tp' = (trusted_map tp)(i := None)"
    by (rule map_eqI)
  with tp show ?thesis by blast
qed

section \<open>Taking the lock does not touch the store\<close>

text \<open>
  Opening the lock file could create the store file only through a link from the lock's path to the
  store's path, which the environment is assumed not to make.
\<close>

definition lock_rely :: "path \<Rightarrow> path \<Rightarrow> nodes \<Rightarrow> nodes \<Rightarrow> bool" where
  "lock_rely p l n n' \<longleftrightarrow> undisturbed p n n' \<and> (target n' l = Some p \<longrightarrow> target n l = Some p)"

definition lock_keeps :: "path \<Rightarrow> path \<Rightarrow> nodes \<Rightarrow> nodes \<Rightarrow> bool" where
  "lock_keeps p l n n' \<longleftrightarrow> tracks p n n' \<and> (is_temporary p \<or> (target n' l = Some p \<longrightarrow> target n l = Some p))"

lemma follow_put: "plain y \<Longrightarrow> q \<noteq> p \<Longrightarrow> follow k (n(q := y)) l = Some p \<Longrightarrow> follow k n l = Some p"
  by (induction k arbitrary: l) (auto simp: plain_def split: option.splits node.splits if_splits)

lemma follow_chmod: "n q = Some y \<Longrightarrow> follow k (n(q \<mapsto> chmod m y)) l = follow k n l"
proof (induction k arbitrary: l)
  case (Suc k)
  then show ?case by (cases "l = q"; cases y) (auto simp: chmod_def split: option.split node.split)
qed simp

lemma lock_keeps_put: "q \<noteq> p \<Longrightarrow> plain y \<Longrightarrow> lock_keeps p l n (n(q := y))"
  using tracks_other follow_put unfolding lock_keeps_def target_def by blast

interpretation guard: staging "lock_rely p l" "lock_keeps p l" "\<lambda>q. q \<noteq> p" for p l
proof unfold_locales
  fix n n' a b c t q x y m
  show "lock_rely p l n n' \<Longrightarrow> lock_keeps p l n n'"
    by (simp add: lock_rely_def lock_keeps_def track.R_K)
  show "lock_keeps p l n n" by (simp add: lock_keeps_def track.K_refl)
  show "lock_keeps p l a b \<Longrightarrow> lock_keeps p l b c \<Longrightarrow> lock_keeps p l a c"
    unfolding lock_keeps_def using track.K_trans by blast
  show "lock_rely p l n n' \<Longrightarrow> is_temporary t \<Longrightarrow> n' t = n t"
    by (simp add: lock_rely_def undisturbed_def)
  show "is_temporary t \<Longrightarrow> plain y \<Longrightarrow> lock_keeps p l n (n(t := y))"
    using lock_keeps_put [of t p y] by (cases "t = p") (auto simp: lock_keeps_def tracks_def)
  show "q \<noteq> p \<Longrightarrow> n q = None \<Longrightarrow> plain y \<Longrightarrow> lock_keeps p l n (n(q := y))" by (rule lock_keeps_put)
  show "n q = Some x \<Longrightarrow> lock_keeps p l n (n(q \<mapsto> chmod m x))"
    using track.K_chmod by (simp add: lock_keeps_def target_def follow_chmod)
qed

definition apart :: "path \<Rightarrow> path \<Rightarrow> nodes \<Rightarrow> bool" where
  "apart p l n \<longleftrightarrow> target n l \<noteq> Some p"

lemma stable_apart: "stable (lock_rely p l) (apart p l)"
  by (rule stableI) (auto simp: lock_rely_def apart_def)

lemma rg_apart:
  assumes "\<not> is_temporary p" "rg (lock_rely p l) (lock_keeps p l) (\<lambda>_. True) m always"
  shows "rg (lock_rely p l) (lock_keeps p l) (apart p l) m (\<lambda>_. apart p l)"
  using assms unfolding rg_def lock_keeps_def apart_def by blast

lemma lock_path_parent: "store_path self \<noteq> [] \<Longrightarrow> butlast (lock_path self) = butlast (store_path self)"
  by (simp add: lock_path_def with_file_name_def Let_def)

lemma rg_open_lock_options:
  "rg (lock_rely p l) (lock_keeps p l) (apart p l) (open_lock_options l) always"
proof -
  have "rg (lock_rely p l) (lock_keeps p l) (apart p l) (fs_open_create l mode) always" for mode
    unfolding fs_open_create_def
    by (rule guard.rg_syscall [OF stable_apart])
      (auto simp: apart_def guard.K_refl intro!: guard.K_fresh split: option.splits if_splits node.splits)
  then show ?thesis unfolding rg_def open_lock_options_def by blast
qed

lemma rg_file_metadata: "rg (lock_rely p l) (lock_keeps p l) (\<lambda>_. True) (fs_file_metadata x) always"
  unfolding fs_file_metadata_def by (rule guard.rg_query) auto

lemma rg_open_lock_file:
  fixes self defines "p \<equiv> store_path self" and "l \<equiv> lock_path self"
  assumes p: "\<not> is_temporary p" "p \<noteq> []"
  shows "rg (lock_rely p l) (lock_keeps p l) (apart p l) (open_lock_file self) always"
proof -
  have parent: "grows (\<lambda>q. q \<noteq> p) (butlast l)"
    using grows_parent [OF p(2)] lock_path_parent [of self] p(2) by (simp add: p_def l_def)
  show ?thesis
    unfolding open_lock_file_def Let_def l_def [symmetric]
  proof (rule guard.rg_match [OF rg_apart [OF p(1) guard.rg_symlink_metadata]],
      rule guard.rg_bind [where S = "\<lambda>_. apart p l"])
    fix r :: "io_error + file_type"
    show "rg (lock_rely p l) (lock_keeps p l) (apart p l) (io_return x) (\<lambda>_. apart p l)"
      for x :: "TrustedPeerStoreError + unit"
      by (rule guard.rg_return)
    show "rg (lock_rely p l) (lock_keeps p l) (apart p l)
      (io_bind (io_map_err store_persistence_error (ensure_hardened_parent l (store_harden self))) (\<lambda>_.
        io_bind (io_map_err (store_io_error_at l ''open the trusted-peer lock'') (open_lock_options l))
          (\<lambda>(handle, opened).
        io_bind (io_map_err (store_io_error_at l ''inspect the trusted-peer lock'') (fs_file_metadata opened))
          (\<lambda>(kind, _).
        if kind \<noteq> IsFile then io_return (Err (NotRegularFile l))
        else io_bind (io_map_err store_persistence_error (harden_existing_file l)) (\<lambda>_.
          io_return (Ok handle)))))) always" for u :: unit
    proof (rule guard.rg_bind [OF rg_apart [OF p(1) guard.rg_map_err_always [OF guard.rg_ensure_hardened_parent [OF parent]]]],
        rule guard.rg_bind [where S = always])
      show "rg (lock_rely p l) (lock_keeps p l) (apart p l)
          (io_map_err (store_io_error_at l ''open the trusted-peer lock'') (open_lock_options l)) always"
        by (rule guard.rg_map_err, rule rg_conseq [OF rg_open_lock_options]) simp_all
      fix out :: "path \<times> node"
      obtain handle opened where out: "out = (handle, opened)" by fastforce
      have rest: "rg (lock_rely p l) (lock_keeps p l) (\<lambda>_. True) (case meta of (kind, _) \<Rightarrow>
          if kind \<noteq> IsFile then io_return (Err (NotRegularFile l))
          else io_bind (io_map_err store_persistence_error (harden_existing_file l)) (\<lambda>_.
            io_return (Ok handle))) always" for meta :: "file_type \<times> nat"
        by (cases meta) (simp add: guard.rg_return_always guard.rg_bind_always
            [OF guard.rg_map_err_always [OF guard.rg_harden_existing_file] guard.rg_return_always])
      show "rg (lock_rely p l) (lock_keeps p l) (always (Ok out :: TrustedPeerStoreError + path \<times> node))
        (case out of (handle, opened) \<Rightarrow>
          io_bind (io_map_err (store_io_error_at l ''inspect the trusted-peer lock'') (fs_file_metadata opened))
          (\<lambda>(kind, _). if kind \<noteq> IsFile then io_return (Err (NotRegularFile l))
            else io_bind (io_map_err store_persistence_error (harden_existing_file l)) (\<lambda>_.
              io_return (Ok handle)))) always"
        unfolding out prod.case
        by (rule guard.rg_any, rule guard.rg_bind_always [OF guard.rg_map_err_always [OF rg_file_metadata] rest]) simp
    qed simp_all
  qed simp
qed

lemma rg_lock_exclusive:
  fixes self defines "p \<equiv> store_path self" and "l \<equiv> lock_path self"
  assumes p: "\<not> is_temporary p" "p \<noteq> []"
  shows "rg (lock_rely p l) (lock_keeps p l) (apart p l) (lock_exclusive self) always"
  unfolding lock_exclusive_def
proof (rule guard.rg_bind [OF rg_open_lock_file [of self, folded p_def l_def, OF p]])
  fix q
  show "rg (lock_rely p l) (lock_keeps p l) (always (Ok q :: TrustedPeerStoreError + path))
    (io_match (fs_try_lock q) (\<lambda>r. io_return (f r))) always" for f :: "TryLockError + unit \<Rightarrow> TrustedPeerStoreError + path"
    by (rule guard.rg_any, rule guard.rg_match [OF guard.rg_try_lock [OF stable_const]], rule guard.rg_return) simp
qed simp

text \<open>A mutation that does not get the lock leaves the store file as it was.\<close>

lemma refused_keeps:
  fixes self defines "p \<equiv> store_path self" and "l \<equiv> lock_path self"
  assumes p: "\<not> is_temporary p" "p \<noteq> []" and w: "env_ok (lock_rely p l) w" "apart p l (nodes w)"
    and run: "lock_exclusive self w = (r, w')"
  shows "holds p (nodes w p) (nodes w')"
  using rgD(1) [OF rg_lock_exclusive [of self, folded p_def l_def, OF p] w run] p(1) holds_self
  by (auto simp: lock_keeps_def tracks_def)

end
