(* ===== verification/Trusted_Properties.thy ===== *)
theory Trusted_Properties
  imports Trusted_Store Samples
begin

text \<open>
  What makes the durable trusted-peer set correct (\<^verbatim>\<open>trusted_peers.rs\<close>): its file
  format, lookup, and the locked mutations of its store.
\<close>

section \<open>Sample records\<close>

definition sample_record :: "u8 \<Rightarrow> TrustedPeerRecord" where
  "sample_record b = \<lparr>record_identity = PeerKeyIdentity 1 [b], record_label = None\<rparr>"

definition sample_records :: "TrustedPeerRecord list" where
  "sample_records = [sample_record 9, sample_record 3]"

lemma sample_records_ok:
  "\<forall>r\<in>set sample_records. loadable r" "length sample_records \<le> MAX_TRUSTED_PEERS"
  "distinct (map record_identity sample_records)"
  by (simp_all add: sample_records_def sample_record_def loadable_def wf_record_def wf_identity_def
      label_bytes_def store_bounds)

text \<open>A label of sixty-four four-byte characters.\<close>

definition long_label_record :: TrustedPeerRecord where
  "long_label_record = \<lparr>record_identity = PeerKeyIdentity 1 [9],
     record_label = Some (TrustedPeerLabel (replicate 64 65536))\<rparr>"

lemma long_label_record_ok: "wf_record long_label_record" "\<not> loadable long_label_record"
proof -
  have len: "str_len (replicate n 65536) = 4 * n" for n
    by (induction n) (simp_all add: len_utf8_def)
  have "valid_str (replicate 64 65536)" "\<not> has_control (replicate 64 65536)"
    by (simp_all add: valid_str_def list_all_iff list_ex_iff is_scalar_def has_control_def is_control_def)
  moreover have "trim (replicate 64 65536) = replicate 64 65536"
    by (simp add: trim_def is_whitespace_def dropWhile_eq_self_iff)
  ultimately show "wf_record long_label_record"
    by (simp add: long_label_record_def wf_record_def wf_identity_def wf_label_def
        TrustedPeerLabel_new_def Let_def store_bounds)
  show "\<not> loadable long_label_record"
    by (simp add: long_label_record_def loadable_def label_bytes_def len store_bounds)
qed

lemma long_label_length: "length (encode [long_label_record]) \<le> MAX_TRUSTED_PEERS_STORE_BYTES"
proof -
  have "str_len (replicate n 65536) = 4 * n" for n
    by (induction n) (simp_all add: len_utf8_def)
  moreover have "str_len (show_u16 1) \<le> 5" by (rule str_len_show_u16)
  ultimately have "str_len (encode_record long_label_record) \<le> 600"
    by (simp add: encode_record_fields label_text_len label_bytes_def long_label_record_def len_utf8_def)
  then show ?thesis using header_len by (simp add: encode_length store_bounds)
qed

text \<open>A store in the sample directory.\<close>

definition sample_store :: TrustedPeerStore where
  "sample_store = \<lparr>store_path = [[46], [47]], store_harden = True\<rparr>"

lemma sample_store_sel [simp]:
  "store_path sample_store = [[46], [47]]" "store_harden sample_store"
  "lock_path sample_store = [[46], 47 # LOCK_FILE_SUFFIX]"
  by (simp_all add: lock_path_def sample_store_def file_name_def with_file_name_def)

lemma sample_names [simp]: "LOCK_FILE_SUFFIX \<noteq> []" "[] \<noteq> LOCK_FILE_SUFFIX" "ascii ''.tmp'' @ x \<noteq> 47 # y" "47 # y \<noteq> ascii ''.tmp'' @ x"
  by (simp_all add: LOCK_FILE_SUFFIX_def ascii_def)

lemma target_absent: "n p = None \<Longrightarrow> target n p = Some p"
  by (simp add: target_def numeral_eq_Suc)

lemma is_dir_dir: "n p = Some (Dir m) \<Longrightarrow> is_dir n p"
  by (simp add: is_dir_def target_node_dir)

lemma sample_lock:
  "\<exists>w m. lock_exclusive sample_store sample_directory = (Ok [[46], 47 # LOCK_FILE_SUFFIX], w) \<and>
     script w = [] \<and> nodes w = [[[46]] \<mapsto> Dir 448, [[46], 47 # LOCK_FILE_SUFFIX] \<mapsto> File m []] \<and> unix_target w"
  by (simp add: lock_exclusive_def open_lock_file_def Let_def io_run sample_directory_def
     open_lock_options_def fs_open_create_def ensure_hardened_parent_def target_absent is_dir_dir
     harden_existing_file_def fs_file_metadata_def fs_try_lock_def next_event_def quiet_def)
    (rule exI, rule refl)

text \<open>A disk without room for a temporary file.\<close>

definition full_tempfile :: tempfile where
  "full_tempfile = sample_tempfile\<lparr>new_in := \<lambda>d n. Err (os_error OtherKind ''No space left on device'')\<rparr>"

lemma full_tempfile_laws: "tempfile_laws full_tempfile"
  using sample_tempfile_laws by (simp add: tempfile_laws_def full_tempfile_def)

text \<open>What a mutation finds when it enters the sample directory's store, and how it comes out.\<close>

definition sample_entry :: "world \<Rightarrow> bool" where
  "sample_entry w \<longleftrightarrow> script w = [] \<and> unix_target w \<and> nodes w [[46]] = Some (Dir 448) \<and>
     nodes w [[46], [47]] = None \<and> nodes w [[46], ascii ''.tmp'' @ ascii ''a''] = None"

lemma sample_mutation:
  assumes "\<And>w1. sample_entry w1 \<Longrightarrow> \<exists>w2. body w1 = (r, w2) \<and> script w2 = [] \<and> Q (nodes w2)"
  obtains q w1 w' where "lock_exclusive sample_store sample_directory = (Ok q, w1)" "env_ok R w1"
    "locked sample_store body sample_directory = (r, w')" "nodes w1 [[46], [47]] = None" "script w' = []"
    "Q (nodes w')"
proof -
  obtain w1 m where w1: "lock_exclusive sample_store sample_directory = (Ok [[46], 47 # LOCK_FILE_SUFFIX], w1)"
      "script w1 = []" "nodes w1 = [[[46]] \<mapsto> Dir 448, [[46], 47 # LOCK_FILE_SUFFIX] \<mapsto> File m []]" "unix_target w1"
    using sample_lock by blast
  then have "sample_entry w1" by (simp add: sample_entry_def)
  then obtain w2 where "body w1 = (r, w2)" "script w2 = []" "Q (nodes w2)" using assms by blast
  then show thesis
    using w1 by (intro that [of _ w1 "fs_unlock [[46], 47 # LOCK_FILE_SUFFIX] w2"])
      (simp_all add: locked_def io_bind_def io_match_def env_ok_def fs_unlock_def)
qed

lemmas sample_run_defs = store_body_def remove_body_def TrustedPeerStore_load_def io_run harden_existing_file_def
  read_store_bytes_def TrustedPeers_empty_def stored_def write_all_def MAX_TRUSTED_PEERS_def Let_def
  replace_store_def sync_parent_directory_def fs_open_def sample_entry_def

lemma sample_store_run:
  assumes "sample_entry w" "length (encode [rec]) \<le> MAX_TRUSTED_PEERS_STORE_BYTES"
  shows "\<exists>w'. store_body sample_tempfile sample_store rec w = (Ok (), w') \<and> script w' = [] \<and>
    nodes w' [[46]] = Some (Dir 448) \<and> nodes w' [[46], [47]] = Some (File 384 (encode [rec]))"
  using assms by (simp add: sample_run_defs sample_tempfile_def)

definition disk_full :: TrustedPeerStoreError where
  "disk_full = TrustedPeerStoreError.Io (ascii ''create temporary trusted-peer store'') [[46]]
     (os_error OtherKind ''No space left on device'')"

lemma full_store_run:
  assumes "sample_entry w" "length (encode [rec]) \<le> MAX_TRUSTED_PEERS_STORE_BYTES"
  shows "\<exists>w'. store_body full_tempfile sample_store rec w = (Err disk_full, w') \<and> script w' = [] \<and> True"
  using assms by (simp add: sample_run_defs full_tempfile_def disk_full_def)

lemma sample_remove_run:
  assumes "sample_entry w"
  shows "\<exists>w'. remove_body sample_tempfile sample_store i w = (Ok AlreadyAbsent, w') \<and> script w' = [] \<and> True"
  using assms
  by (simp add: sample_run_defs TrustedPeers_contains_def TrustedPeers_get_def binary_search_by_def)

lemma sample_load:
  assumes "script w = []" "nodes w [[46]] = Some (Dir 448)" "nodes w [[46], [47]] = Some (File 384 bytes)"
    "length bytes \<le> MAX_TRUSTED_PEERS_STORE_BYTES"
  shows "\<exists>w'. TrustedPeerStore_load sample_store w = (decode bytes, w')"
  using assms
  by (cases "unix_target w") (simp_all add: TrustedPeerStore_load_def read_open_store_def fs_file_metadata_def
      fs_take_read_def next_event_def quiet_def sample_run_defs)

lemma sample_store_paths: "\<not> is_temporary (store_path sample_store)" "store_path sample_store \<noteq> []"
  by (auto simp: is_temporary_def temporary_in_def ascii_def)

lemma sample_record_loadable: "loadable (sample_record 9)"
  using sample_records_ok(1) by (simp add: sample_records_def)

lemma sample_encode_length:
  "length (encode [sample_record 9]) \<le> MAX_TRUSTED_PEERS_STORE_BYTES"
  "decode (encode [sample_record 9]) = Ok \<lparr>trusted_records = [sample_record 9]\<rparr>"
  using encode_length_le [of "[sample_record 9]"] sample_records_ok(1) sorted_file_loads [of "[sample_record 9]"]
  by (simp_all add: sample_records_def store_bounds)

section \<open>After a mutation\<close>

lemma loads_unique: "loads x tp \<Longrightarrow> loads x tp' \<Longrightarrow> tp = tp'"
  by (auto simp: loads_def)

lemma loads_get: "loads x tp \<Longrightarrow> TrustedPeers_get tp = trusted_map tp"
  by (auto simp: loads_def get_trusted_map) (auto simp: TrustedPeers_empty_def TrustedPeers_get_def
      binary_search_by_def trusted_map_def)

lemma stored_run:
  assumes "tempfile_laws T" "\<not> is_temporary (store_path self)" "store_path self \<noteq> []"
    and "lock_exclusive self w = (Ok q, w1)" "env_ok (undisturbed (store_path self)) w1"
    and "TrustedPeerStore_store T self rec w = (Ok (), w')"
  shows "mutated (store_path self) (nodes w1 (store_path self)) (stored rec) (nodes w')"
    "env_ok (undisturbed (store_path self)) w'"
proof -
  obtain w2 where body: "store_body T self rec w1 = (Ok (), w2)" "w' = fs_unlock q w2"
    using assms(6) unfolding store_alt by (cases rule: lockedE) (use assms(4) in auto)
  note run = rgD [OF rg_store_body [OF assms(1-3)] assms(5) holds_self body(1)]
  show "mutated (store_path self) (nodes w1 (store_path self)) (stored rec) (nodes w')"
    using run(3) by (simp add: body(2) fs_unlock_def)
  show "env_ok (undisturbed (store_path self)) w'"
    using run(2) by (simp add: body(2) fs_unlock_def env_ok_def)
qed

section \<open>The file format\<close>

text \<open>C15. A store file holds what was written: up to 128 records with distinct identities, whose
  labels have at most 128 bytes, are read back from their encoding as the same records, sorted by
  identity.\<close>

theorem trusted_store_roundtrip:
  assumes "\<forall>r\<in>set rs. loadable r" "length rs \<le> MAX_TRUSTED_PEERS" "distinct (map record_identity rs)"
  shows "decode (encode rs) = Ok \<lparr>trusted_records = sort_key record_identity rs\<rparr>"
  using store_decode_encode [OF assms(1,2)] assms(2,3) by (simp add: assemble_def)

theorem trusted_store_roundtrip_witness:
  "decode (encode sample_records) = Ok \<lparr>trusted_records = sort_key record_identity sample_records\<rparr>"
  by (rule trusted_store_roundtrip [OF sample_records_ok])

text \<open>C33. Whatever bytes are in the store file, an accepted set is well formed: sorted by identity,
  without duplicates, within the capacity, and every record has a bounded nonempty identity and a
  valid label.\<close>

theorem accepted_trusted_set_wf:
  assumes "decode bytes = Ok tp"
  shows "sorted_wrt (<) (map record_identity (trusted_records tp)) \<and>
    TrustedPeers_len tp \<le> 128 \<and> (\<forall>r\<in>set (TrustedPeers_iter tp). wf_record r)"
  using store_decode_sound [OF assms] strictly_sorted
  by (auto simp: TrustedPeers_len_def TrustedPeers_iter_def store_bounds loadable_def)

theorem accepted_trusted_set_wf_witness:
  "TrustedPeers_len \<lparr>trusted_records = sort_key record_identity sample_records\<rparr> \<le> 128"
  using accepted_trusted_set_wf [of "encode sample_records"] store_decode_encode [OF sample_records_ok(1,2)]
    sample_records_ok(2,3) by (simp add: assemble_def)

text \<open>C34. The binary search of a decoded set is the lookup in the map the set stands for: it finds
  the record with the identity exactly when there is one.\<close>

theorem trusted_lookup_is_map:
  assumes "decode bytes = Ok tp"
  shows "TrustedPeers_get tp = trusted_map tp \<and> TrustedPeers_contains tp i = (i \<in> dom (trusted_map tp))"
  using get_trusted_map [OF assms] by (simp add: TrustedPeers_contains_def dom_def)

theorem trusted_lookup_is_map_witness:
  "TrustedPeers_get \<lparr>trusted_records = sort_key record_identity sample_records\<rparr> =
     trusted_map \<lparr>trusted_records = sort_key record_identity sample_records\<rparr>"
  using trusted_lookup_is_map [of "encode sample_records"] store_decode_encode [OF sample_records_ok(1,2)]
    sample_records_ok(2,3) by (simp add: assemble_def)

section \<open>The store\<close>





text \<open>C11. Removal: \<open>Removed\<close> means the file now holds the old map without the identity;
  \<open>AlreadyAbsent\<close> means the old map did not bind it and the file is unchanged; an error never
  loses a record other than, at most, the one that was to be removed.\<close>

theorem remove_is_map_update:
  assumes "tempfile_laws T" "\<not> is_temporary (store_path self)" "store_path self \<noteq> []"
    and "lock_exclusive self w = (Ok q, w1)" "env_ok (undisturbed (store_path self)) w1"
    and "TrustedPeerStore_remove T self i w = (r, w')"
  shows "case r of
      Ok Removed \<Rightarrow> \<exists>tp tp'. loads (nodes w1 (store_path self)) tp \<and> loads (nodes w' (store_path self)) tp' \<and>
        trusted_map tp' = (trusted_map tp)(i := None)
    | Ok AlreadyAbsent \<Rightarrow> holds (store_path self) (nodes w1 (store_path self)) (nodes w') \<and>
        (\<exists>tp. loads (nodes w1 (store_path self)) tp \<and> \<not> TrustedPeers_contains tp i)
    | Err e \<Rightarrow> holds (store_path self) (nodes w1 (store_path self)) (nodes w') \<or>
        (\<exists>tp tp'. loads (nodes w1 (store_path self)) tp \<and> loads (nodes w' (store_path self)) tp' \<and>
           trusted_map tp' = (trusted_map tp)(i := None))"
proof -
  obtain w2 where body: "remove_body T self i w1 = (r, w2)" "w' = fs_unlock q w2"
    using assms(6) unfolding remove_alt by (cases rule: lockedE) (use assms(4) in auto)
  from rgD(3) [OF rg_remove_body [OF assms(1-3)] assms(5) holds_self body(1)]
  show ?thesis
    by (auto simp: body(2) fs_unlock_def dest: removed_map split: sum.split TrustedPeerRemoval.split)
qed

theorem remove_is_map_update_witness:
  "\<exists>w'. TrustedPeerStore_remove sample_tempfile sample_store (PeerKeyIdentity 1 [9]) sample_directory = (Ok AlreadyAbsent, w') \<and>
     nodes w' [[46], [47]] = None"
proof -
  obtain q w1 w' where run: "lock_exclusive sample_store sample_directory = (Ok q, w1)"
      "env_ok (undisturbed (store_path sample_store)) w1"
      "TrustedPeerStore_remove sample_tempfile sample_store (PeerKeyIdentity 1 [9]) sample_directory = (Ok AlreadyAbsent, w')"
      "nodes w1 [[46], [47]] = None"
    unfolding remove_alt by (rule sample_mutation [OF sample_remove_run])
  show ?thesis
    using remove_is_map_update [OF sample_tempfile_laws sample_store_paths run(1-3)] run(3,4)
    by (simp add: holds_def)
qed

text \<open>C23. What is stored is found: after a successful store, a load that succeeds while nobody
  writes the file returns a set in which the binary search finds exactly the stored record.\<close>

theorem stored_peer_is_found:
  assumes "tempfile_laws T" "\<not> is_temporary (store_path self)" "store_path self \<noteq> []" "loadable rec"
    and "lock_exclusive self w = (Ok q, w1)" "env_ok (undisturbed (store_path self)) w1"
    and "TrustedPeerStore_store T self rec w = (Ok (), w')" "TrustedPeerStore_load self w' = (Ok tp, w'')"
  shows "TrustedPeers_get tp (record_identity rec) = Some rec"
proof -
  note run = stored_run [OF assms(1-3,5-7)]
  from stored_map [OF run(1) assms(4)] obtain tp' where
    tp': "loads (nodes w' (store_path self)) tp'" "trusted_map tp' (record_identity rec) = Some rec"
    by fastforce
  have "loads (nodes w' (store_path self)) tp"
    using rgD(3) [OF rg_load [OF assms(2)] run(2) holds_self assms(8)] by simp
  with tp' show ?thesis by (metis loads_unique loads_get)
qed

theorem stored_peer_is_found_witness:
  "\<exists>tp. fst (TrustedPeerStore_load sample_store
      (snd (TrustedPeerStore_store sample_tempfile sample_store (sample_record 9) sample_directory))) = Ok tp \<and>
     TrustedPeers_get tp (PeerKeyIdentity 1 [9]) = Some (sample_record 9)"
proof -
  obtain q w1 w' where run: "lock_exclusive sample_store sample_directory = (Ok q, w1)"
      "env_ok (undisturbed (store_path sample_store)) w1"
      "TrustedPeerStore_store sample_tempfile sample_store (sample_record 9) sample_directory = (Ok (), w')"
      "script w' = []" "nodes w' [[46]] = Some (Dir 448)" "nodes w' [[46], [47]] = Some (File 384 (encode [sample_record 9]))"
    unfolding store_alt
    by (rule sample_mutation [OF sample_store_run [OF _ sample_encode_length(1)],
        where R = "undisturbed (store_path sample_store)"]) blast+
  obtain w'' where load: "TrustedPeerStore_load sample_store w' = (Ok \<lparr>trusted_records = [sample_record 9]\<rparr>, w'')"
    using sample_load [OF run(4-6)] sample_encode_length by auto
  show ?thesis
    using stored_peer_is_found [OF sample_tempfile_laws sample_store_paths sample_record_loadable run(1-3) load] run(3) load
    by (simp add: sample_record_def)
qed

text \<open>C14. A load fails closed and is read-only: whatever other processes do to other files, an
  answer \<open>Ok\<close> is the empty set when there was no file, or the validated contents of a regular file
  at the store's own path (never of a link); a load changes the file's permission bits at most.\<close>

theorem load_fails_closed:
  assumes "\<not> is_temporary (store_path self)" "env_ok (undisturbed (store_path self)) w"
    and "TrustedPeerStore_load self w = (r, w')"
  shows "holds (store_path self) (nodes w (store_path self)) (nodes w') \<and>
    (\<forall>tp. r = Ok tp \<longrightarrow> (case nodes w (store_path self) of
        None \<Rightarrow> tp = TrustedPeers_empty
      | Some (File m bytes) \<Rightarrow> decode bytes = Ok tp
      | Some other \<Rightarrow> False))"
  using rgD(3) [OF rg_load [OF assms(1)] assms(2) holds_self assms(3)]
  by (auto simp: loads_def)

theorem load_fails_closed_witness:
  "\<exists>w'. TrustedPeerStore_load sample_store sample_directory = (Ok TrustedPeers_empty, w') \<and> nodes w' [[46], [47]] = None"
proof -
  have run: "\<exists>w'. TrustedPeerStore_load sample_store sample_directory = (Ok TrustedPeers_empty, w')"
    by (simp add: sample_run_defs sample_directory_def)
  then obtain w' where "TrustedPeerStore_load sample_store sample_directory = (Ok TrustedPeers_empty, w')" by blast
  with load_fails_closed [OF sample_store_paths(1) sample_directory_quiet(2) this] show ?thesis
    by (simp add: holds_def sample_directory_def)
qed


text \<open>C24. A mutation that does not get the lock, because it is busy or its file cannot be opened
  safely, answers that error and leaves the store file as it was.\<close>

theorem refused_mutation_keeps_store:
  assumes "\<not> is_temporary (store_path self)" "store_path self \<noteq> []"
    and "env_ok (lock_rely (store_path self) (lock_path self)) w" "target (nodes w) (lock_path self) \<noteq> Some (store_path self)"
    and "lock_exclusive self w = (Err e, w')"
  shows "TrustedPeerStore_store T self rec w = (Err e, w') \<and> TrustedPeerStore_remove T self i w = (Err e, w') \<and>
    holds (store_path self) (nodes w (store_path self)) (nodes w')"
  using refused_keeps [OF assms(1-3) _ assms(5)] assms(4,5)
  by (simp add: apart_def store_alt remove_alt locked_def io_bind_def io_match_def io_return_def)

definition busy_directory :: world where
  "busy_directory = sample_directory\<lparr>held_locks := [[[46], 47 # LOCK_FILE_SUFFIX]]\<rparr>"

theorem refused_mutation_keeps_store_witness:
  "\<exists>w'. TrustedPeerStore_store sample_tempfile sample_store (sample_record 9) busy_directory = (Err StoreBusy, w') \<and>
     nodes w' [[46], [47]] = None"
proof -
  have "\<exists>w'. lock_exclusive sample_store busy_directory = (Err StoreBusy, w')"
    by (simp add: busy_directory_def lock_exclusive_def open_lock_file_def Let_def io_run sample_directory_def
       open_lock_options_def fs_open_create_def ensure_hardened_parent_def target_absent is_dir_dir
       harden_existing_file_def fs_file_metadata_def fs_try_lock_def next_event_def quiet_def)
  then obtain w' where run: "lock_exclusive sample_store busy_directory = (Err StoreBusy, w')" by blast
  have "env_ok R busy_directory" for R using sample_directory_quiet by (simp add: busy_directory_def env_ok_def)
  moreover have "target (nodes busy_directory) (lock_path sample_store) \<noteq> Some (store_path sample_store)"
    by (simp add: busy_directory_def sample_directory_def target_absent)
  ultimately show ?thesis
    using refused_mutation_keeps_store [OF sample_store_paths _ _ run] run
    by (simp add: holds_def busy_directory_def sample_directory_def)
qed

text \<open>C12. A defect: a valid record whose label has more than 128 bytes of UTF-8 (up to 256 are
  allowed) is stored successfully, but no later load of the file succeeds, because the bound on the
  label is compared with the length of its hexadecimal text.\<close>

theorem stored_long_label_blocks_loading:
  assumes "tempfile_laws T" "\<not> is_temporary (store_path self)" "store_path self \<noteq> []"
    and "wf_record rec" "128 < label_bytes rec"
    and "lock_exclusive self w = (Ok q, w1)" "env_ok (undisturbed (store_path self)) w1"
    and "TrustedPeerStore_store T self rec w = (Ok (), w')" "TrustedPeerStore_load self w' = (r, w'')"
  shows "\<exists>e. r = Err e"
proof (rule ccontr)
  assume "\<nexists>e. r = Err e"
  then obtain tp where r: "r = Ok tp" by (cases r) auto
  note run = stored_run [OF assms(1-3,6-8)]
  from run(1) obtain tp0 m where after: "nodes w' (store_path self) = Some (File m (encode (sort_key record_identity (stored rec tp0))))"
    by (auto simp: mutated_def written_def)
  have "loads (nodes w' (store_path self)) tp"
    using rgD(3) [OF rg_load [OF assms(2)] run(2) holds_self assms(9)] r by simp
  moreover have "\<exists>e. decode (encode (sort_key record_identity (stored rec tp0))) = Err e"
    by (rule decode_encode_long_label [OF assms(4)]) (use assms(5) in \<open>simp_all add: loadable_def store_bounds stored_def\<close>)
  ultimately show False by (auto simp: loads_def after)
qed

theorem stored_long_label_blocks_loading_witness:
  "\<exists>e. fst (TrustedPeerStore_load sample_store
      (snd (TrustedPeerStore_store sample_tempfile sample_store long_label_record sample_directory))) = Err e"
proof -
  obtain q w1 w' where run: "lock_exclusive sample_store sample_directory = (Ok q, w1)"
      "env_ok (undisturbed (store_path sample_store)) w1"
      "TrustedPeerStore_store sample_tempfile sample_store long_label_record sample_directory = (Ok (), w')"
    unfolding store_alt by (rule sample_mutation [OF sample_store_run [OF _ long_label_length]])
  obtain r w'' where load: "TrustedPeerStore_load sample_store w' = (r, w'')" by fastforce
  show ?thesis
    using stored_long_label_blocks_loading [OF sample_tempfile_laws sample_store_paths long_label_record_ok(1) _ run load]
      long_label_record_ok run(3) load by (simp add: loadable_def store_bounds)
qed

text \<open>A file with such a record is rejected whatever else it holds.\<close>

theorem long_label_file_unreadable:
  assumes "wf_record r" "128 < label_bytes r" "r \<in> set rs"
  shows "\<exists>e. decode (encode rs) = Err e"
  by (rule decode_encode_long_label [OF assms(1) _ assms(3)])
    (use assms(2) in \<open>simp add: loadable_def store_bounds\<close>)

theorem long_label_file_unreadable_witness: "\<exists>e. decode (encode [long_label_record]) = Err e"
  by (rule long_label_file_unreadable [OF long_label_record_ok(1)])
    (use long_label_record_ok in \<open>simp_all add: loadable_def store_bounds\<close>)

end
