(* ===== verification/Net_Text.thy ===== *)
theory Net_Text
  imports Browser
begin

text \<open>
  How the standard library writes the addresses the command line prints: \<^verbatim>\<open>Ipv4Addr\<close> as
  four decimal octets, \<^verbatim>\<open>Ipv6Addr\<close> as eight hexadecimal segments in which the first
  longest run of at least two zeros is written \<open>::\<close>, and mapped IPv4 addresses in the mixed form.
\<close>

definition octets :: "u32 \<Rightarrow> nat list" where
  "octets a = map (\<lambda>k. unat a div 256 ^ k mod 256) [3, 2, 1, 0]"

definition segments :: "128 word \<Rightarrow> nat list" where
  "segments a = map (\<lambda>k. unat a div 65536 ^ k mod 65536) [7, 6, 5, 4, 3, 2, 1, 0]"

fun show_hex :: "nat \<Rightarrow> rstr" where
  "show_hex n =
     (let d = n mod 16; c = (if d < 10 then 48 + d else 87 + d)
      in if n < 16 then [c] else show_hex (n div 16) @ [c])"

declare show_hex.simps [simp del]

fun join :: "rstr \<Rightarrow> rstr list \<Rightarrow> rstr" where
  "join sep [] = []"
| "join sep [s] = s"
| "join sep (s # t # ss) = s @ sep @ join sep (t # ss)"

definition display_Ipv4Addr :: "u32 \<Rightarrow> rstr" where
  "display_Ipv4Addr a = join (ascii ''.'') (map show_nat (octets a))"

text \<open>The first longest run of zeros, as its start and length.\<close>

fun zero_run :: "nat \<Rightarrow> nat \<times> nat \<Rightarrow> nat \<times> nat \<Rightarrow> nat list \<Rightarrow> nat \<times> nat" where
  "zero_run i longest current [] = longest"
| "zero_run i (ls, ll) (cs, cl) (s # ss) =
     (if s = 0 then
        let cs = (if cl = 0 then i else cs); cl = cl + 1
        in zero_run (Suc i) (if cl > ll then (cs, cl) else (ls, ll)) (cs, cl) ss
      else zero_run (Suc i) (ls, ll) (0, 0) ss)"

definition fmt_subslice :: "nat list \<Rightarrow> rstr" where
  "fmt_subslice chunk = join (ascii '':'') (map show_hex chunk)"

definition to_ipv4_mapped :: "128 word \<Rightarrow> u32 option" where
  "to_ipv4_mapped a = (if take 6 (segments a) = [0, 0, 0, 0, 0, 65535] then Some (ucast a) else None)"

definition display_Ipv6Addr :: "128 word \<Rightarrow> rstr" where
  "display_Ipv6Addr a = (case to_ipv4_mapped a of
     Some v4 \<Rightarrow> ascii ''::ffff:'' @ display_Ipv4Addr v4
   | None \<Rightarrow>
       (let segs = segments a; (start, len) = zero_run 0 (0, 0) (0, 0) segs
        in if len > 1 then fmt_subslice (take start segs) @ ascii ''::'' @ fmt_subslice (drop (start + len) segs)
           else fmt_subslice segs))"

end
