(* ===== verification/Cli_Discovery.thy ===== *)
theory Cli_Discovery
  imports Net_Text Discovered_Peers Filesystem
begin

text \<open>
  The command \<^verbatim>\<open>discover\<close> (\<^verbatim>\<open>apps/cli/src/discovery.rs\<close>): an observation pass
  that drives a browser session into the discovered-peer state, and its report. A trait object is
  the record of its operations; the process around the pass (clock, interrupt flag, sleep) is an
  opaque state \<open>'e\<close> with the operations of \<open>runtime\<close>; the writer is a function on its own state
  \<open>'o\<close>. The two loops may run forever, so they are \<open>partial_function (option)\<close>: \<open>None\<close> is a pass
  that does not return, or a panic of the peer state.
\<close>

section \<open>Arguments and errors\<close>

definition POLL_INTERVAL :: duration where
  "POLL_INTERVAL = 20000000"

definition ADVISORY_NOTICE :: rstr where
  "ADVISORY_NOTICE = ascii ''Discovery is advisory and unauthenticated: a device listed here is currently advertising on the local network but is not paired, trusted, or authenticated, and its name and addresses are unverified hints.''"

record DiscoverArgs =
  args_events :: bool
  args_window :: nat
  args_stale_after :: "nat option"

datatype DiscoveryCliError =
    Interrupt io_error
  | Start DiscoveryBrowserError
  | Shutdown DiscoveryBrowserError
  | Output io_error

fun display_DiscoveryCliError :: "DiscoveryCliError \<Rightarrow> rstr" where
  "display_DiscoveryCliError (Interrupt source) =
     ascii ''failed to install the interrupt handler: '' @ io_text source"
| "display_DiscoveryCliError (Start source) =
     ascii ''failed to start discovery: '' @ display_DiscoveryBrowserError source"
| "display_DiscoveryCliError (Shutdown source) =
     ascii ''failed to stop discovery cleanly: '' @ display_DiscoveryBrowserError source"
| "display_DiscoveryCliError (Output source) =
     ascii ''failed to write command output: '' @ io_text source"

datatype cli_source = IoSource io_error | BrowserSource DiscoveryBrowserError

fun cli_error_source :: "DiscoveryCliError \<Rightarrow> cli_source" where
  "cli_error_source (Interrupt source) = IoSource source"
| "cli_error_source (Output source) = IoSource source"
| "cli_error_source (Start source) = BrowserSource source"
| "cli_error_source (Shutdown source) = BrowserSource source"

section \<open>The process\<close>

datatype interrupt_target = UnixSignals | WindowsConsole | NoInterrupts

text \<open>\<open>register_handler\<close> is the call of the operating system, whose outcome is whether it succeeded.\<close>

record 'e runtime =
  instant_now :: "'e \<Rightarrow> nat \<times> 'e"
  interrupted :: "'e \<Rightarrow> bool \<times> 'e"
  sleep :: "duration \<Rightarrow> 'e \<Rightarrow> 'e"
  interrupt_support :: interrupt_target
  register_handler :: "'e \<Rightarrow> bool \<times> 'e"
  last_os_error :: "'e \<Rightarrow> io_error"

definition install_interrupt_handler :: "'e runtime \<Rightarrow> 'e \<Rightarrow> (io_error + unit) \<times> 'e" where
  "install_interrupt_handler R e = (case interrupt_support R of
     NoInterrupts \<Rightarrow> (Ok (), e)
   | _ \<Rightarrow> (case register_handler R e of
        (success, e) \<Rightarrow> (if success then Ok () else Err (last_os_error R e), e)))"

text \<open>The unit type stands for the field-less \<^verbatim>\<open>SignalCancellation\<close>.\<close>

definition SignalCancellation_install :: "'e runtime \<Rightarrow> 'e \<Rightarrow> (io_error + unit) \<times> 'e" where
  "SignalCancellation_install R e = (case install_interrupt_handler R e of
     (Err source, e) \<Rightarrow> (Err source, e) | (Ok _, e) \<Rightarrow> (Ok (), e))"

definition is_cancelled :: "'e runtime \<Rightarrow> 'e \<Rightarrow> bool \<times> 'e" where
  "is_cancelled R e = interrupted R e"

section \<open>Rendering\<close>

type_synonym 'o writer = "rstr \<Rightarrow> 'o \<Rightarrow> (io_error + unit) \<times> 'o"

text \<open>\<open>and_do m k\<close> is \<^verbatim>\<open>m?; k\<close>.\<close>

definition and_do :: "('o \<Rightarrow> ('x + unit) \<times> 'o) \<Rightarrow> ('o \<Rightarrow> ('x + unit) \<times> 'o) \<Rightarrow> 'o \<Rightarrow> ('x + unit) \<times> 'o" where
  "and_do m k out = (case m out of (Err e, out) \<Rightarrow> (Err e, out) | (Ok _, out) \<Rightarrow> k out)"

definition put :: "'o writer \<Rightarrow> rstr \<Rightarrow> 'o \<Rightarrow> (DiscoveryCliError + unit) \<times> 'o" where
  "put W txt out = (case W (txt @ [10]) out of (r, out) \<Rightarrow> (map_err Output r, out))"

fun put_all :: "'o writer \<Rightarrow> rstr list \<Rightarrow> 'o \<Rightarrow> (DiscoveryCliError + unit) \<times> 'o" where
  "put_all W [] out = (Ok (), out)"
| "put_all W (line # lines) out = and_do (put W line) (put_all W lines) out"

record DeviceCard =
  card_session :: rstr
  card_name :: "rstr option"
  card_platform :: "DiscoveryPlatformHint option"
  card_protocol_major :: u16
  card_addresses :: "rstr list"

fun socket_address :: "IpAddr \<Rightarrow> u32 option \<Rightarrow> u16 \<Rightarrow> rstr" where
  "socket_address (V4 v4) scope_id port = display_Ipv4Addr v4 @ ascii '':'' @ show_u16 port"
| "socket_address (V6 v6) (Some scope) port =
     ascii ''['' @ display_Ipv6Addr v6 @ ascii ''%'' @ show_nat (unat scope) @ ascii '']:'' @ show_u16 port"
| "socket_address (V6 v6) None port = ascii ''['' @ display_Ipv6Addr v6 @ ascii '']:'' @ show_u16 port"

definition DeviceCard_from_peer :: "DiscoveredPeer \<Rightarrow> DeviceCard" where
  "DeviceCard_from_peer peer =
     \<lparr>card_session = key_as_str (peer_key peer),
      card_name = map_option DiscoveryNameHint_as_str (md_name (peer_metadata peer)),
      card_platform = md_platform (peer_metadata peer),
      card_protocol_major = peer_protocol_major peer,
      card_addresses = map (\<lambda>endpoint. socket_address (endpoint_address endpoint)
         (endpoint_scope_id endpoint) (peer_port peer)) (peer_endpoints peer)\<rparr>"

fun render_transition :: "DiscoveredPeerTransition \<Rightarrow> rstr" where
  "render_transition (Appeared key) = ascii ''appeared   '' @ key_as_str key"
| "render_transition (Refreshed key) = ascii ''refreshed  '' @ key_as_str key"
| "render_transition (Updated key) = ascii ''updated    '' @ key_as_str key"
| "render_transition (Removed key Explicit) =
     ascii ''removed    '' @ key_as_str key @ ascii ''  (no longer advertised)''"
| "render_transition (Removed key Expired) =
     ascii ''expired    '' @ key_as_str key @ ascii ''  (not re-observed)''"
| "render_transition (Noop key AlreadyAbsent) =
     ascii ''ignored    '' @ key_as_str key @ ascii ''  (already absent)''"
| "render_transition (Noop key Stale) =
     ascii ''ignored    '' @ key_as_str key @ ascii ''  (superseded observation)''"
| "render_transition (Rejected e) = ascii ''rejected   '' @ display_DiscoveryBrowserError e"

fun hint_label :: "DiscoveryPlatformHint option \<Rightarrow> rstr" where
  "hint_label (Some DiscoveryPlatformHint.MacOs) = ascii ''macOS''"
| "hint_label (Some DiscoveryPlatformHint.Windows) = ascii ''Windows''"
| "hint_label (Some DiscoveryPlatformHint.Linux) = ascii ''Linux''"
| "hint_label None = ascii ''unknown platform''"

definition card_line :: "DeviceCard \<Rightarrow> rstr" where
  "card_line c = ascii ''- '' @ (case card_name c of None \<Rightarrow> ascii ''unnamed'' | Some name \<Rightarrow> name) @
     ascii '' ('' @ hint_label (card_platform c) @ ascii '')''"

fun render_cards :: "'o writer \<Rightarrow> DeviceCard list \<Rightarrow> 'o \<Rightarrow> (DiscoveryCliError + unit) \<times> 'o" where
  "render_cards W [] out = (Ok (), out)"
| "render_cards W (c # cards) out =
     and_do (put W []) (and_do (put W (card_line c))
       (and_do (put W (ascii ''  session:  '' @ card_session c))
       (and_do (put W (ascii ''  protocol: '' @ show_u16 (card_protocol_major c)))
       (and_do (put W (ascii ''  address:  '' @ join (ascii '', '') (card_addresses c)))
         (render_cards W cards))))) out"

definition render_snapshot :: "'o writer \<Rightarrow> DeviceCard list \<Rightarrow> 'o \<Rightarrow> (DiscoveryCliError + unit) \<times> 'o" where
  "render_snapshot W cards out =
     (if cards = [] then put W (ascii ''No nearby devices are currently visible.'') out
      else let ordered = sort_key card_session cards
        in and_do (put W (show_nat (length ordered) @ ascii '' nearby device(s) currently visible:''))
             (render_cards W ordered) out)"

definition write_report ::
  "'o writer \<Rightarrow> bool \<Rightarrow> rstr list \<Rightarrow> DeviceCard list \<Rightarrow> 'o \<Rightarrow> (DiscoveryCliError + unit) \<times> 'o" where
  "write_report W show_events events cards out =
     and_do (put W ADVISORY_NOTICE)
       (and_do (if show_events
          then and_do (put W [])
            (if events = [] then put W (ascii ''No discovery events were observed.'') else put_all W events)
          else (\<lambda>out. (Ok (), out)))
       (and_do (put W []) (render_snapshot W cards))) out"

definition record_event :: "bool \<Rightarrow> rstr list \<Rightarrow> DiscoveredPeerTransition \<Rightarrow> rstr list" where
  "record_event show_events events transition =
     (if show_events then events @ [render_transition transition] else events)"

section \<open>The observation pass\<close>

text \<open>The trait \<^verbatim>\<open>DiscoverySession\<close>, with the process beside the session where it is used.\<close>

record ('s, 'e) DiscoverySession =
  next_transition :: "duration \<Rightarrow> 's \<Rightarrow> 'e \<Rightarrow> (DiscoveredPeerTransition option \<times> 's \<times> 'e) option"
  session_expire :: "duration \<Rightarrow> duration \<Rightarrow> 's \<Rightarrow> (DiscoveredPeerTransition list \<times> 's) option"
  session_stop :: "'s \<Rightarrow> (DiscoveryBrowserError + unit) \<times> 's"
  session_snapshot :: "'s \<Rightarrow> DeviceCard list"

definition sweep ::
  "('s, 'e) DiscoverySession \<Rightarrow> ('e \<Rightarrow> duration \<times> 'e) \<Rightarrow> bool \<Rightarrow> duration option \<Rightarrow> rstr list \<Rightarrow> 's \<Rightarrow> 'e \<Rightarrow>
     (rstr list \<times> 's \<times> 'e) option" where
  "sweep S clock show_events stale_after events s e = (case stale_after of
     None \<Rightarrow> Some (events, s, e)
   | Some window \<Rightarrow> (case clock e of (now, e) \<Rightarrow>
       map_option (\<lambda>(expired, s). (foldl (record_event show_events) events expired, s, e))
         (session_expire S now window s)))"

partial_function (option) observe_loop ::
  "('s, 'e) DiscoverySession \<Rightarrow> ('e \<Rightarrow> duration \<times> 'e) \<Rightarrow> ('e \<Rightarrow> bool \<times> 'e) \<Rightarrow> bool \<Rightarrow> duration option \<Rightarrow>
     rstr list \<Rightarrow> 's \<Rightarrow> 'e \<Rightarrow> (rstr list \<times> 's \<times> 'e) option" where
  "observe_loop S clock cancel show_events stale_after events s e =
     (case cancel e of (cancelled, e) \<Rightarrow>
        if cancelled then Some (events, s, e)
        else case clock e of (now, e) \<Rightarrow>
          Option.bind (next_transition S now s e) (\<lambda>(t, s, e).
            case t of
              None \<Rightarrow> Some (events, s, e)
            | Some transition \<Rightarrow>
                Option.bind (sweep S clock show_events stale_after (record_event show_events events transition) s e)
                  (\<lambda>(events, s, e). observe_loop S clock cancel show_events stale_after events s e)))"

definition observe ::
  "('s, 'e) DiscoverySession \<Rightarrow> ('e \<Rightarrow> duration \<times> 'e) \<Rightarrow> ('e \<Rightarrow> bool \<times> 'e) \<Rightarrow> 'o writer \<Rightarrow> DiscoverArgs \<Rightarrow>
     's \<Rightarrow> 'e \<Rightarrow> 'o \<Rightarrow> ((DiscoveryCliError + unit) \<times> 's \<times> 'e \<times> 'o) option" where
  "observe S clock cancel W args s e out =
     (let stale_after = map_option from_secs (args_stale_after args) in
      Option.bind (observe_loop S clock cancel (args_events args) stale_after [] s e) (\<lambda>(events, s, e).
      Option.bind (sweep S clock (args_events args) stale_after events s e) (\<lambda>(events, s, e).
        case session_stop S s of (stop_result, s) \<Rightarrow>
          let cards = session_snapshot S s in
          (case write_report W (args_events args) events cards out of
             (Err err, out) \<Rightarrow> Some (Err err, s, e, out)
           | (Ok _, out) \<Rightarrow> Some (map_err Shutdown stop_result, s, e, out)))))"

section \<open>The production session\<close>

record ('w, 'd) CliBrowserSession =
  cli_browser :: "('w, 'd) DiscoveryBrowser"
  cli_state :: DiscoveredPeerState
  cli_deadline :: nat

definition CliBrowserSession_start ::
  "('w, 'd, 'i) mdns \<Rightarrow> 'e runtime \<Rightarrow> duration \<Rightarrow> 'w \<Rightarrow> 'e \<Rightarrow>
     (DiscoveryBrowserError + ('w, 'd) CliBrowserSession) \<times> 'w \<times> 'e" where
  "CliBrowserSession_start M R window w e = (case DiscoveryBrowser_start M w of
     (Err err, w) \<Rightarrow> (Err err, w, e)
   | (Ok browser, w) \<Rightarrow> (case instant_now R e of (now, e) \<Rightarrow>
       (Ok \<lparr>cli_browser = browser, cli_state = DiscoveredPeerState_new, cli_deadline = now + window\<rparr>, w, e)))"

partial_function (option) CliBrowserSession_next_transition ::
  "('w, 'd, 'i) mdns \<Rightarrow> 'e runtime \<Rightarrow> duration \<Rightarrow> ('w, 'd) CliBrowserSession \<Rightarrow> 'e \<Rightarrow>
     (DiscoveredPeerTransition option \<times> ('w, 'd) CliBrowserSession \<times> 'e) option" where
  "CliBrowserSession_next_transition M R now s e =
     (case DiscoveryBrowser_poll_event M (cli_browser s) of
        (Some event, browser) \<Rightarrow>
          map_option (\<lambda>(t, st). (Some t, s\<lparr>cli_browser := browser, cli_state := st\<rparr>, e))
            (DiscoveredPeerState_apply (cli_state s) event now)
      | (None, browser) \<Rightarrow> (case is_cancelled R e of (cancelled, e) \<Rightarrow>
          if cancelled then Some (None, s\<lparr>cli_browser := browser\<rparr>, e)
          else case instant_now R e of (instant, e) \<Rightarrow>
            if instant \<ge> cli_deadline s then Some (None, s\<lparr>cli_browser := browser\<rparr>, e)
            else CliBrowserSession_next_transition M R now (s\<lparr>cli_browser := browser\<rparr>) (sleep R POLL_INTERVAL e)))"

definition CliBrowserSession_expire ::
  "duration \<Rightarrow> duration \<Rightarrow> ('w, 'd) CliBrowserSession \<Rightarrow>
     (DiscoveredPeerTransition list \<times> ('w, 'd) CliBrowserSession) option" where
  "CliBrowserSession_expire now stale_after s =
     map_option (\<lambda>(ts, st). (ts, s\<lparr>cli_state := st\<rparr>)) (DiscoveredPeerState_expire (cli_state s) now stale_after)"

definition CliBrowserSession_stop ::
  "('w, 'd, 'i) mdns \<Rightarrow> ('w, 'd) CliBrowserSession \<Rightarrow>
     (DiscoveryBrowserError + unit) \<times> ('w, 'd) CliBrowserSession" where
  "CliBrowserSession_stop M s =
     (case DiscoveryBrowser_stop M (cli_browser s) of (r, browser) \<Rightarrow> (r, s\<lparr>cli_browser := browser\<rparr>))"

definition CliBrowserSession_snapshot :: "('w, 'd) CliBrowserSession \<Rightarrow> DeviceCard list" where
  "CliBrowserSession_snapshot s = map DeviceCard_from_peer (DiscoveredPeerState_iter (cli_state s))"

definition cli_session :: "('w, 'd, 'i) mdns \<Rightarrow> 'e runtime \<Rightarrow> (('w, 'd) CliBrowserSession, 'e) DiscoverySession" where
  "cli_session M R =
     \<lparr>next_transition = CliBrowserSession_next_transition M R, session_expire = CliBrowserSession_expire,
      session_stop = CliBrowserSession_stop M, session_snapshot = CliBrowserSession_snapshot\<rparr>"

end
