(* ===== verification/Cli_Main.thy ===== *)
theory Cli_Main
  imports Cli_Discovery Local_Device
begin

text \<open>
  The command line (\<^verbatim>\<open>apps/cli/src/main.rs\<close>): dispatch, the command
  \<^verbatim>\<open>device\<close>, the set-up of \<^verbatim>\<open>discover\<close>, and the exit code. The argument
  parser is generated by \<^verbatim>\<open>clap\<close> and a parameter; so are the writers, the loader
  \<^verbatim>\<open>run_from\<close> is generic in, the mDNS daemon and the process.
\<close>

section \<open>Commands, views and errors\<close>

datatype Command = Device | Discover DiscoverArgs

record Cli =
  cli_command :: Command

record 'u DeviceView =
  view_id :: "'u DeviceId"
  view_name :: DeviceName
  view_platform :: Platform

definition DeviceView_from :: "'u LocalDevice \<Rightarrow> 'u DeviceView" where
  "DeviceView_from device =
     \<lparr>view_id = device_id device, view_name = device_name device, view_platform = device_platform device\<rparr>"

datatype CliError = Load LocalDeviceError | Output io_error | DiscoveryFailed DiscoveryCliError

fun display_CliError :: "CliError \<Rightarrow> rstr" where
  "display_CliError (Load source) = ascii ''failed to load local device: '' @ display_LocalDeviceError source"
| "display_CliError (CliError.Output source) = ascii ''failed to write command output: '' @ io_text source"
| "display_CliError (DiscoveryFailed source) = display_DiscoveryCliError source"

datatype cli_cause = DeviceCause LocalDeviceError | OutputCause io_error | DiscoveryCause DiscoveryCliError

fun CliError_source :: "CliError \<Rightarrow> cli_cause" where
  "CliError_source (Load source) = DeviceCause source"
| "CliError_source (CliError.Output source) = OutputCause source"
| "CliError_source (DiscoveryFailed source) = DiscoveryCause source"

fun platform_label :: "Platform \<Rightarrow> rstr" where
  "platform_label Platform.MacOs = ascii ''macOS''"
| "platform_label Platform.Windows = ascii ''Windows''"
| "platform_label Platform.Linux = ascii ''Linux''"

section \<open>The program's surroundings\<close>

record clap_error =
  clap_text :: rstr
  clap_exit_code :: "32 word"

record ('u, 'w, 'd, 'i, 'e, 'o) surroundings =
  try_parse_from :: "rstr list \<Rightarrow> clap_error + Cli"
  the_uuid :: "'u uuid_ops"
  the_mdns :: "('w, 'd, 'i) mdns"
  the_runtime :: "'e runtime"
  the_writer :: "'o writer"

record ('w, 'e, 'o) system =
  files :: world
  network :: 'w
  process :: 'e
  standard_output :: 'o
  standard_error :: 'o

type_synonym ExitCode = u8

definition SUCCESS :: ExitCode where "SUCCESS = 0"

definition FAILURE :: ExitCode where "FAILURE = 1"

section \<open>Running a command\<close>

definition load_current_device ::
  "path option \<Rightarrow> rstr \<Rightarrow> tempfile \<Rightarrow> 'u uuid_ops \<Rightarrow> 'u \<Rightarrow> (LocalDeviceError, 'u DeviceView) io" where
  "load_current_device config_dir consts_OS T U new_v4 =
     io_bind (io_return (LocalDeviceManager_for_current_user config_dir)) (\<lambda>manager.
     io_bind (LocalDeviceManager_load consts_OS T U new_v4 manager) (\<lambda>device.
       io_return (Ok (DeviceView_from device))))"

text \<open>The session is dropped when \<^verbatim>\<open>run_discovery\<close> returns.\<close>

definition run_discovery ::
  "('w, 'd, 'i) mdns \<Rightarrow> 'e runtime \<Rightarrow> 'o writer \<Rightarrow> DiscoverArgs \<Rightarrow> 'w \<Rightarrow> 'e \<Rightarrow> 'o \<Rightarrow>
     ((DiscoveryCliError + unit) \<times> 'w \<times> 'e \<times> 'o) option" where
  "run_discovery M R W args net e out =
     (case SignalCancellation_install R e of
        (Err source, e) \<Rightarrow> Some (Err (Interrupt source), net, e, out)
      | (Ok _, e) \<Rightarrow>
     (case CliBrowserSession_start M R (from_secs (args_window args)) net e of
        (Err source, net, e) \<Rightarrow> Some (Err (Start source), net, e, out)
      | (Ok session, net, e) \<Rightarrow>
     (case instant_now R e of (start, e) \<Rightarrow>
        map_option (\<lambda>(r, session, e, out).
            (r, snd (session_backend (BrowserSession_drop (mdns_browser_backend M) (cli_browser session))), e, out))
          (observe (cli_session M R) (\<lambda>e. case instant_now R e of (now, e) \<Rightarrow> (now - start, e))
             (is_cancelled R) W args session e out))))"

definition write_line :: "'o writer \<Rightarrow> rstr \<Rightarrow> 'o \<Rightarrow> (CliError + unit) \<times> 'o" where
  "write_line W txt out = (case W (txt @ [10]) out of (r, out) \<Rightarrow> (map_err CliError.Output r, out))"

definition write_device :: "'u uuid_ops \<Rightarrow> 'o writer \<Rightarrow> 'u DeviceView \<Rightarrow> 'o \<Rightarrow> (CliError + unit) \<times> 'o" where
  "write_device U W device =
     and_do (write_line W (ascii ''ID:       '' @ display_DeviceId U (view_id device)))
       (and_do (write_line W (ascii ''Name:     '' @ display_DeviceName (view_name device)))
          (write_line W (ascii ''Platform: '' @ platform_label (view_platform device))))"

fun execute ::
  "('u, 'w, 'd, 'i, 'e, 'o) surroundings \<Rightarrow> (LocalDeviceError, 'u DeviceView) io \<Rightarrow> Command \<Rightarrow>
     ('w, 'e, 'o) system \<Rightarrow> ((CliError + unit) \<times> ('w, 'e, 'o) system) option" where
  "execute A load Device sys =
     (case load (files sys) of
        (Err source, fs) \<Rightarrow> Some (Err (Load source), sys\<lparr>files := fs\<rparr>)
      | (Ok device, fs) \<Rightarrow>
          (case write_device (the_uuid A) (the_writer A) device (standard_output sys) of
             (r, out) \<Rightarrow> Some (r, sys\<lparr>files := fs, standard_output := out\<rparr>)))"
| "execute A load (Discover args) sys =
     map_option (\<lambda>(r, net, e, out).
         (map_err DiscoveryFailed r, sys\<lparr>network := net, process := e, standard_output := out\<rparr>))
       (run_discovery (the_mdns A) (the_runtime A) (the_writer A) args (network sys) (process sys)
          (standard_output sys))"

definition complain :: "'o writer \<Rightarrow> rstr \<Rightarrow> ('w, 'e, 'o) system \<Rightarrow> ('w, 'e, 'o) system" where
  "complain W txt sys = sys\<lparr>standard_error := snd (W txt (standard_error sys))\<rparr>"

definition run_from ::
  "('u, 'w, 'd, 'i, 'e, 'o) surroundings \<Rightarrow> (LocalDeviceError, 'u DeviceView) io \<Rightarrow> rstr list \<Rightarrow>
     ('w, 'e, 'o) system \<Rightarrow> (ExitCode \<times> ('w, 'e, 'o) system) option" where
  "run_from A load args sys =
     (case try_parse_from A args of
        Err e \<Rightarrow> Some (ucast (clap_exit_code e), complain (the_writer A) (clap_text e) sys)
      | Ok cli \<Rightarrow>
          map_option (\<lambda>(r, sys). case r of
              Ok _ \<Rightarrow> (SUCCESS, sys)
            | Err e \<Rightarrow> (FAILURE, complain (the_writer A) (ascii ''error: '' @ display_CliError e @ [10]) sys))
            (execute A load (cli_command cli) sys))"

definition main_program ::
  "('u, 'w, 'd, 'i, 'e, 'o) surroundings \<Rightarrow> path option \<Rightarrow> rstr \<Rightarrow> tempfile \<Rightarrow> 'u \<Rightarrow> rstr list \<Rightarrow>
     ('w, 'e, 'o) system \<Rightarrow> (ExitCode \<times> ('w, 'e, 'o) system) option" where
  "main_program A config_dir consts_OS T new_v4 args sys =
     run_from A (load_current_device config_dir consts_OS T (the_uuid A) new_v4) args sys"

end
