(* ===== verification/Cli_Pass.thy ===== *)
theory Cli_Pass
  imports Cli_Main Presence
begin

text \<open>
  Why an observation pass returns. \<open>observation\<close> is the contract of the trait
  \<^verbatim>\<open>DiscoverySession\<close>: its operations return, keep an invariant, and each
  transition consumes pending input. The production session meets it on every process whose
  clock does not go back and whose sleeps last at least as long as asked.
\<close>

section \<open>The contract of a session\<close>

locale observation =
  fixes S :: "('s, 'e) DiscoverySession" and clock :: "'e \<Rightarrow> duration \<times> 'e" and cancel :: "'e \<Rightarrow> bool \<times> 'e"
    and stale :: "duration option" and inv :: "'s \<Rightarrow> 'e \<Rightarrow> bool" and pending :: "'s \<Rightarrow> nat"
  assumes cancel_keeps: "inv s e \<Longrightarrow> cancel e = (c, e') \<Longrightarrow> inv s e'"
    and next_returns: "inv s e \<Longrightarrow> clock e = (now, e1) \<Longrightarrow>
      \<exists>t s' e'. next_transition S now s e1 = Some (t, s', e') \<and> inv s' e' \<and> (t \<noteq> None \<longrightarrow> pending s' < pending s)"
    and expire_returns: "stale = Some a \<Longrightarrow> inv s e \<Longrightarrow> clock e = (now, e1) \<Longrightarrow>
      \<exists>ts s'. session_expire S now a s = Some (ts, s') \<and> inv s' e1 \<and> pending s' \<le> pending s"
begin

lemma sweep_returns:
  assumes "inv s e"
  shows "\<exists>evs s' e'. sweep S clock show stale events s e = Some (evs, s', e') \<and> inv s' e' \<and> pending s' \<le> pending s"
proof (cases stale)
  case None
  then show ?thesis using assms by (simp add: sweep_def)
next
  case (Some a)
  obtain now e1 where clock: "clock e = (now, e1)" by fastforce
  obtain ts s' where "session_expire S now a s = Some (ts, s')" "inv s' e1" "pending s' \<le> pending s"
    using expire_returns [OF Some assms clock] by blast
  then show ?thesis using Some clock by (simp add: sweep_def)
qed

lemma loop_returns:
  "inv s e \<Longrightarrow> \<exists>evs s' e'. observe_loop S clock cancel show stale events s e = Some (evs, s', e') \<and> inv s' e'"
proof (induction "pending s" arbitrary: events s e rule: less_induct)
  case less
  obtain c e1 where cancel: "cancel e = (c, e1)" by fastforce
  note inv1 = cancel_keeps [OF less.prems cancel]
  obtain now e2 where clock: "clock e1 = (now, e2)" by fastforce
  obtain t s1 e3 where step: "next_transition S now s e2 = Some (t, s1, e3)" "inv s1 e3"
      "t \<noteq> None \<longrightarrow> pending s1 < pending s"
    using next_returns [OF inv1 clock] by blast
  show ?case
  proof (cases "c \<or> t = None")
    case True
    then show ?thesis
      using cancel clock step inv1 by (subst observe_loop.simps) auto
  next
    case False
    then obtain tr where t: "t = Some tr" "\<not> c" by auto
    obtain evs s2 e4 where "sweep S clock show stale (record_event show events tr) s1 e3 = Some (evs, s2, e4)"
        "inv s2 e4" "pending s2 \<le> pending s1"
      using sweep_returns [OF step(2)] by blast
    moreover then have "pending s2 < pending s" using step(3) t(1) by simp
    ultimately show ?thesis
      using less.hyps [of s2 e4 evs] cancel clock step t by (subst observe_loop.simps) simp
  qed
qed

lemma observe_returns:
  assumes "inv s e" "map_option from_secs (args_stale_after args) = stale"
  shows "\<exists>events cards s1 e' r out'. observe S clock cancel W args s e out =
      Some (r, snd (session_stop S s1), e', out') \<and> inv s1 e' \<and> cards = session_snapshot S (snd (session_stop S s1)) \<and>
      (r, out') = (case write_report W (args_events args) events cards out of
         (Err err, out) \<Rightarrow> (Err err, out) | (Ok _, out) \<Rightarrow> (map_err Shutdown (fst (session_stop S s1)), out))"
proof -
  obtain evs1 s1 e1 where loop: "observe_loop S clock cancel (args_events args) stale [] s e = Some (evs1, s1, e1)" "inv s1 e1"
    using loop_returns [OF assms(1)] by blast
  obtain evs2 s2 e2 where sweep: "sweep S clock (args_events args) stale evs1 s1 e1 = Some (evs2, s2, e2)" "inv s2 e2"
    using sweep_returns [OF loop(2)] by blast
  obtain r s3 where stop: "session_stop S s2 = (r, s3)" by fastforce
  obtain q out' where report: "write_report W (args_events args) evs2 (session_snapshot S s3) out = (q, out')" by fastforce
  show ?thesis
    by (rule exI [of _ evs2], rule exI [of _ "session_snapshot S s3"], rule exI [of _ s2])
      (use loop sweep stop report assms(2) in \<open>cases q; simp add: observe_def Let_def\<close>)
qed

end

section \<open>The production session\<close>

text \<open>The documented behaviour of \<^verbatim>\<open>Instant\<close> and \<^verbatim>\<open>thread::sleep\<close>, by the time \<open>\<tau>\<close>
  of the process.\<close>

definition advancing :: "'e runtime \<Rightarrow> ('e \<Rightarrow> nat) \<Rightarrow> bool" where
  "advancing R \<tau> \<longleftrightarrow>
     (\<forall>e t e'. instant_now R e = (t, e') \<longrightarrow> \<tau> e \<le> t \<and> t \<le> \<tau> e') \<and>
     (\<forall>e c e'. interrupted R e = (c, e') \<longrightarrow> \<tau> e \<le> \<tau> e') \<and>
     (\<forall>d e. \<tau> e + d \<le> \<tau> (sleep R d e))"

definition backlog :: "('w, 'd) CliBrowserSession \<Rightarrow> nat" where
  "backlog s = (let b = fst (session_backend (cli_browser s))
     in length (mb_services b) + length (mb_daemon_events b))"

text \<open>What a running session keeps: its peers, its daemon, and that it is running.\<close>

definition running :: "'d \<Rightarrow> ('w, 'd) CliBrowserSession \<Rightarrow> bool" where
  "running d s \<longleftrightarrow> peers_ok (cli_state s) \<and> session_active (cli_browser s) \<and>
     mb_daemon (fst (session_backend (cli_browser s))) = d"

lemma poll_daemon_error_shorter:
  "poll_daemon_error rs = (r, rs') \<Longrightarrow> length rs' \<le> length rs \<and> (r \<noteq> None \<longrightarrow> length rs' < length rs)"
  by (induction rs arbitrary: r rs') (fastforce split: sum.splits DaemonEvent.splits TryRecvError.splits)+

lemma poll_services_shorter:
  "poll_services rs = (r, rs') \<Longrightarrow> length rs' \<le> length rs \<and> (r \<noteq> None \<longrightarrow> length rs' < length rs)"
  by (induction rs arbitrary: r rs') (fastforce split: sum.splits ServiceEvent.splits TryRecvError.splits)+

lemma poll_event_running:
  assumes "DiscoveryBrowser_poll_event M b = (ev, b')"
  shows "session_active b' = session_active b"
    "mb_daemon (fst (session_backend b')) = mb_daemon (fst (session_backend b))"
    "length (mb_services (fst (session_backend b'))) + length (mb_daemon_events (fst (session_backend b'))) +
       (if ev = None then 0 else 1) \<le>
     length (mb_services (fst (session_backend b))) + length (mb_daemon_events (fst (session_backend b)))"
proof -
  obtain mb w where backend: "session_backend b = (mb, w)" by fastforce
  obtain r1 ds where ds: "poll_daemon_error (mb_daemon_events mb) = (r1, ds)" by fastforce
  obtain r2 ss where ss: "poll_services (mb_services mb) = (r2, ss)" by fastforce
  note shorter = poll_daemon_error_shorter [OF ds] poll_services_shorter [OF ss]
  note defs = DiscoveryBrowser_poll_event_def BrowserSession_poll_event_def mdns_browser_backend_def
    MdnsBrowserBackend_poll_event_def
  show "session_active b' = session_active b"
    "mb_daemon (fst (session_backend b')) = mb_daemon (fst (session_backend b))"
    "length (mb_services (fst (session_backend b'))) + length (mb_daemon_events (fst (session_backend b'))) +
       (if ev = None then 0 else 1) \<le>
     length (mb_services (fst (session_backend b))) + length (mb_daemon_events (fst (session_backend b)))"
    using assms backend ds ss shorter
    by (auto simp: defs split: if_splits option.splits prod.splits)
qed

text \<open>Polls that report nothing.\<close>

inductive silent :: "('w, 'd, 'i) mdns \<Rightarrow> ('w, 'd) DiscoveryBrowser \<Rightarrow> ('w, 'd) DiscoveryBrowser \<Rightarrow> bool" for M where
  silent_refl: "silent M b b"
| silent_step: "DiscoveryBrowser_poll_event M b = (None, b1) \<Longrightarrow> silent M b1 b2 \<Longrightarrow> silent M b b2"

lemma silent_running:
  "silent M b b' \<Longrightarrow> session_active b' = session_active b \<and>
     mb_daemon (fst (session_backend b')) = mb_daemon (fst (session_backend b)) \<and>
     length (mb_services (fst (session_backend b'))) + length (mb_daemon_events (fst (session_backend b'))) \<le>
     length (mb_services (fst (session_backend b))) + length (mb_daemon_events (fst (session_backend b)))"
proof (induction rule: silent.induct)
  case (silent_step b b1 b2)
  then show ?case using poll_event_running [OF silent_step.hyps(1)] by simp
qed simp

text \<open>How \<open>next_transition\<close> returns: after some silent polls, with nothing, or with the first event
  applied at the time it was given.\<close>

definition outcome ::
  "('w, 'd, 'i) mdns \<Rightarrow> duration \<Rightarrow> ('w, 'd) CliBrowserSession \<Rightarrow> 'e \<Rightarrow>
     (DiscoveredPeerTransition option \<times> ('w, 'd) CliBrowserSession \<times> 'e) option \<Rightarrow> bool" where
  "outcome M now s e' res \<longleftrightarrow> (\<exists>b. silent M (cli_browser s) b \<and>
     (res = Some (None, s\<lparr>cli_browser := b\<rparr>, e') \<or>
      (\<exists>ev b'. DiscoveryBrowser_poll_event M b = (Some ev, b') \<and>
         res = map_option (\<lambda>(t, st). (Some t, s\<lparr>cli_browser := b', cli_state := st\<rparr>, e'))
           (DiscoveredPeerState_apply (cli_state s) ev now))))"

lemma outcome_silent:
  "DiscoveryBrowser_poll_event M (cli_browser s) = (None, b) \<Longrightarrow> outcome M now (s\<lparr>cli_browser := b\<rparr>) e' res \<Longrightarrow>
     outcome M now s e' res"
  unfolding outcome_def using silent_step by fastforce

lemma next_transition_outcome:
  assumes "advancing R \<tau>"
  shows "\<exists>e'. \<tau> e \<le> \<tau> e' \<and> outcome M now s e' (CliBrowserSession_next_transition M R now s e)"
proof (induction "cli_deadline s - \<tau> e" arbitrary: s e rule: less_induct)
  case less
  obtain r b where poll: "DiscoveryBrowser_poll_event M (cli_browser s) = (r, b)" by fastforce
  note unfold = CliBrowserSession_next_transition.simps [of M R now s e]
  show ?case
  proof (cases r)
    case (Some ev)
    then have "outcome M now s e (CliBrowserSession_next_transition M R now s e)"
      unfolding outcome_def using poll by (intro exI [of _ "cli_browser s"] conjI silent_refl) (simp add: unfold)
    then show ?thesis by blast
  next
    case None
    note quiet = outcome_silent [OF poll [unfolded None]]
    obtain c e1 where c: "interrupted R e = (c, e1)" by fastforce
    obtain t e2 where t: "instant_now R e1 = (t, e2)" by fastforce
    let ?e = "sleep R POLL_INTERVAL e2" and ?s = "s\<lparr>cli_browser := b\<rparr>"
    have time: "\<tau> e \<le> \<tau> e1" "\<tau> e1 \<le> t" "t \<le> \<tau> e2" "\<tau> e2 + POLL_INTERVAL \<le> \<tau> ?e"
      using assms c t by (auto simp: advancing_def)
    let ?o = "if c then e1 else e2"
    have over: "outcome M now ?s ?o (Some (None, ?s, ?o))"
      unfolding outcome_def by (rule exI [of _ b]) (simp add: silent_refl)
    show ?thesis
    proof (cases "c \<or> cli_deadline s \<le> t")
      case True
      then have "CliBrowserSession_next_transition M R now s e = Some (None, ?s, ?o)"
        using None poll c t unfold by (auto simp: is_cancelled_def)
      then show ?thesis
        using quiet [OF over] time by (intro exI [of _ ?o]) simp
    next
      case False
      have eq: "CliBrowserSession_next_transition M R now s e = CliBrowserSession_next_transition M R now ?s ?e"
        using None poll c t False unfold by (simp add: is_cancelled_def)
      have "cli_deadline s - \<tau> ?e < cli_deadline s - \<tau> e"
        using False time diff_less_mono2 [of "\<tau> e" "\<tau> ?e" "cli_deadline s"] by (simp add: POLL_INTERVAL_def)
      then obtain e' where "\<tau> ?e \<le> \<tau> e'" "outcome M now ?s e' (CliBrowserSession_next_transition M R now ?s ?e)"
        using less.hyps [of ?s ?e] by auto
      then show ?thesis
        using quiet time by (intro exI [of _ e']) (simp add: eq)
    qed
  qed
qed

lemma next_transition_returns:
  assumes "advancing R \<tau>" "running d s"
  shows "\<exists>t s' e'. CliBrowserSession_next_transition M R now s e = Some (t, s', e') \<and> running d s' \<and>
    (t \<noteq> None \<longrightarrow> backlog s' < backlog s) \<and> (t = None \<longrightarrow> cli_state s' = cli_state s)"
proof -
  obtain b e' where b: "silent M (cli_browser s) b" and
    res: "CliBrowserSession_next_transition M R now s e = Some (None, s\<lparr>cli_browser := b\<rparr>, e') \<or>
      (\<exists>ev b'. DiscoveryBrowser_poll_event M b = (Some ev, b') \<and> CliBrowserSession_next_transition M R now s e =
         map_option (\<lambda>(t, st). (Some t, s\<lparr>cli_browser := b', cli_state := st\<rparr>, e'))
           (DiscoveredPeerState_apply (cli_state s) ev now))"
    using next_transition_outcome [OF assms(1), of e M now s] unfolding outcome_def by blast
  from res show ?thesis
  proof (elim disjE exE conjE)
    assume "CliBrowserSession_next_transition M R now s e = Some (None, s\<lparr>cli_browser := b\<rparr>, e')"
    then show ?thesis using silent_running [OF b] assms(2) by (simp add: running_def)
  next
    fix ev b'
    assume poll: "DiscoveryBrowser_poll_event M b = (Some ev, b')" and "CliBrowserSession_next_transition M R now s e =
         map_option (\<lambda>(t, st). (Some t, s\<lparr>cli_browser := b', cli_state := st\<rparr>, e'))
           (DiscoveredPeerState_apply (cli_state s) ev now)"
    moreover obtain t st where "DiscoveredPeerState_apply (cli_state s) ev now = Some (t, st)" "peers_ok st"
      using apply_effect [of "cli_state s" ev now] assms(2) by (auto simp: running_def)
    ultimately show ?thesis
      using silent_running [OF b] poll_event_running [OF poll] assms(2)
      by (simp add: running_def backlog_def Let_def)
  qed
qed

lemma expire_running:
  assumes "running d s"
  shows "\<exists>ts s'. CliBrowserSession_expire now a s = Some (ts, s') \<and> running d s' \<and> backlog s' \<le> backlog s"
  using expire_effect [of "cli_state s" now a] assms
  by (fastforce simp: running_def CliBrowserSession_expire_def backlog_def peers_ok_def)

interpretation cli: observation "cli_session M R" clock "is_cancelled R" stale
  "\<lambda>s e. running d s \<and> (\<exists>\<tau>. advancing R \<tau>)" backlog
  for M :: "('w, 'd, 'i) mdns" and R :: "'e runtime" and clock and stale and d :: 'd
proof unfold_locales
  fix s :: "('w, 'd) CliBrowserSession" and e e1 :: 'e and now a
  assume s: "running d s \<and> (\<exists>\<tau>. advancing R \<tau>)"
  show "\<exists>t s' e'. next_transition (cli_session M R) now s e1 = Some (t, s', e') \<and>
      (running d s' \<and> (\<exists>\<tau>. advancing R \<tau>)) \<and> (t \<noteq> None \<longrightarrow> backlog s' < backlog s)"
    using next_transition_returns s by (fastforce simp: cli_session_def)
  show "\<exists>ts s'. session_expire (cli_session M R) now a s = Some (ts, s') \<and>
      (running d s' \<and> (\<exists>\<tau>. advancing R \<tau>)) \<and> backlog s' \<le> backlog s"
    using expire_running s by (fastforce simp: cli_session_def)
qed

section \<open>A run of the command\<close>

lemma start_running:
  assumes "CliBrowserSession_start M R window net e = (Ok s, net', e')"
  shows "\<exists>d n1. daemon_new M net = (Ok d, n1) \<and> running d s \<and> cli_state s = DiscoveredPeerState_new \<and>
    session_state (cli_browser s) = BrowserState_default"
  using assms peers_ok_new
  by (auto simp: CliBrowserSession_start_def DiscoveryBrowser_start_def MdnsBrowserBackend_start_def
      BrowserSession_start_def running_def result_simps split: prod.splits sum.splits)

text \<open>Stopping a running session and dropping it ends with a shutdown request to its daemon.\<close>

lemma stop_drop_shuts_down:
  assumes "running d s"
  shows "\<exists>u. snd (session_backend (BrowserSession_drop (mdns_browser_backend M)
      (cli_browser (snd (CliBrowserSession_stop M s))))) = snd (daemon_shutdown M d u)"
proof -
  obtain b w where backend: "session_backend (cli_browser s) = (b, w)" by fastforce
  have run: "session_active (cli_browser s)" "mb_daemon b = d" using assms backend by (simp_all add: running_def)
  obtain r w' where stop: "MdnsBrowserBackend_stop M b w = (r, w')" by fastforce
  note shut = mdns_stop_shuts_down [OF stop]
  show ?thesis
  proof (cases r)
    case (Inl err)
    then show ?thesis
      using backend run stop
      by (auto simp: CliBrowserSession_stop_def DiscoveryBrowser_stop_def BrowserSession_stop_def mdns_browser_backend_def
          BrowserSession_drop_def MdnsBrowserBackend_best_effort_stop_def)
  next
    case (Inr u)
    then show ?thesis
      using backend run stop shut
      by (auto simp: CliBrowserSession_stop_def DiscoveryBrowser_stop_def BrowserSession_stop_def mdns_browser_backend_def
          BrowserSession_drop_def)
  qed
qed

lemma run_discovery_returns:
  assumes "advancing R \<tau>"
  shows "\<exists>r net' e' out'. run_discovery M R W args net e out = Some (r, net', e', out') \<and>
    (\<forall>d n1. daemon_new M net = (Ok d, n1) \<and> is_ok (fst (SignalCancellation_install R e)) \<longrightarrow>
       (\<exists>u. net' = snd (daemon_shutdown M d u)))"
proof -
  obtain i e1 where install: "SignalCancellation_install R e = (i, e1)" by fastforce
  obtain st net1 e2 where start: "CliBrowserSession_start M R (from_secs (args_window args)) net e1 = (st, net1, e2)"
    by (cases "CliBrowserSession_start M R (from_secs (args_window args)) net e1") auto
  show ?thesis
  proof (cases i)
    case (Inl source)
    then show ?thesis using install by (simp add: run_discovery_def)
  next
    case (Inr ok)
    note i = Inr
    show ?thesis
    proof (cases st)
      case (Inl source)
      have "\<exists>u. net1 = snd (daemon_shutdown M d u)" if "daemon_new M net = (Ok d, n1)" for d n1
        using start Inl browse_failure_shuts_down [OF _ that]
        by (auto simp: CliBrowserSession_start_def DiscoveryBrowser_start_def BrowserSession_start_def result_simps
            split: prod.splits sum.splits)
      then show ?thesis using install i start Inl by (auto simp: run_discovery_def)
    next
      case (Inr s)
      obtain d n1 where run: "daemon_new M net = (Ok d, n1)" "running d s"
        using start_running start Inr by metis
      obtain t e3 where now: "instant_now R e2 = (t, e3)" by fastforce
      have inv: "running d s \<and> (\<exists>\<tau>. advancing R \<tau>)" using run(2) assms by blast
      obtain r s1 e' out' where pass: "observe (cli_session M R) (\<lambda>e. case instant_now R e of (now, e) \<Rightarrow> (now - t, e))
          (is_cancelled R) W args s e3 out = Some (r, snd (session_stop (cli_session M R) s1), e', out')" "running d s1"
        using cli.observe_returns [OF inv refl, where M = M and args = args and W = W and out = out
            and clock = "\<lambda>e. case instant_now R e of (now, e) \<Rightarrow> (now - t, e)"] by blast
      have stop: "session_stop (cli_session M R) s1 = CliBrowserSession_stop M s1" by (simp add: cli_session_def)
      obtain u where "snd (session_backend (BrowserSession_drop (mdns_browser_backend M)
          (cli_browser (snd (CliBrowserSession_stop M s1))))) = snd (daemon_shutdown M d u)"
        using stop_drop_shuts_down [OF pass(2)] by blast
      then show ?thesis
        using install i start Inr now run(1) pass(1) unfolding stop
        by (simp add: run_discovery_def) blast
    qed
  qed
qed

section \<open>A pass without expiry mirrors the browser\<close>

text \<open>A clock that moves between any two readings.\<close>

definition ticking :: "'e runtime \<Rightarrow> ('e \<Rightarrow> nat) \<Rightarrow> bool" where
  "ticking R \<tau> \<longleftrightarrow> advancing R \<tau> \<and> (\<forall>e t e'. instant_now R e = (t, e') \<longrightarrow> t < \<tau> e')"

definition elapsed :: "'e runtime \<Rightarrow> nat \<Rightarrow> 'e \<Rightarrow> duration \<times> 'e" where
  "elapsed R start e = (case instant_now R e of (now, e) \<Rightarrow> (now - start, e))"

text \<open>The peer table shows the browser's peers, and everything in it is older than now.\<close>

definition mirrored :: "('e \<Rightarrow> nat) \<Rightarrow> nat \<Rightarrow> ('w, 'd) CliBrowserSession \<Rightarrow> 'e \<Rightarrow> bool" where
  "mirrored \<tau> start s e \<longleftrightarrow> in_step (session_state (cli_browser s)) (cli_state s) \<and>
     settled_before (cli_state s) (\<tau> e - start) \<and> start \<le> \<tau> e"

lemma mirrored_later:
  assumes "mirrored \<tau> start s e" "\<tau> e \<le> \<tau> e'"
  shows "mirrored \<tau> start s e'"
  using assms settled_before_mono [of "cli_state s" "\<tau> e - start" "\<tau> e' - start"]
  by (simp add: mirrored_def diff_le_mono)

lemma poll_event_effect:
  assumes "DiscoveryBrowser_poll_event M b = (ev, b')" "browser_inv (session_state b)"
  shows "browser_inv (session_state b')"
    "event_effect ev (hm_get (peers (session_state b))) (hm_get (peers (session_state b')))"
proof -
  have "b' = b\<lparr>session_backend := session_backend b'\<rparr> \<and> ev = None \<or>
      (\<exists>raw. BrowserState_translate (session_state b) raw = (ev, session_state b'))"
    using assms(1) by (auto simp: DiscoveryBrowser_poll_event_def BrowserSession_poll_event_def split: if_splits prod.splits option.splits)
  then consider (nothing) "session_state b' = session_state b" "ev = None"
    | (raw) raw where "BrowserState_translate (session_state b) raw = (ev, session_state b')"
    by (metis (no_types, lifting) BrowserSession.ext_inject BrowserSession.surjective BrowserSession.update_convs(1))
  then show "browser_inv (session_state b')"
    "event_effect ev (hm_get (peers (session_state b))) (hm_get (peers (session_state b')))"
    using assms(2) browser_inv_translate [OF assms(2)] translate_effect [OF assms(2)] by (cases; auto)+
qed

lemma silent_effect:
  "silent M b b' \<Longrightarrow> browser_inv (session_state b) \<Longrightarrow>
     browser_inv (session_state b') \<and> hm_get (peers (session_state b')) = hm_get (peers (session_state b))"
proof (induction rule: silent.induct)
  case (silent_step b b1 b2)
  then show ?case using poll_event_effect [OF silent_step.hyps(1) silent_step.prems] by simp
qed simp

lemma mirrored_next:
  assumes R: "ticking R \<tau>" and inv: "mirrored \<tau> start s e" and clock: "elapsed R start e = (now, e1)"
  shows "\<exists>t s' e'. CliBrowserSession_next_transition M R now s e1 = Some (t, s', e') \<and> mirrored \<tau> start s' e' \<and>
    (t \<noteq> None \<longrightarrow> backlog s' < backlog s)"
proof -
  obtain i where i: "instant_now R e = (i, e1)" "now = i - start"
    using clock by (auto simp: elapsed_def split: prod.splits)
  have time: "\<tau> e \<le> i" "i < \<tau> e1" and adv: "advancing R \<tau>" using R i(1) by (auto simp: ticking_def advancing_def)
  have step: "browser_inv (session_state (cli_browser s))" "peers_ok (cli_state s)"
    "DiscoveredPeerState_get (cli_state s) = hm_get (peers (session_state (cli_browser s)))"
    and started: "start \<le> \<tau> e" and settled: "settled_before (cli_state s) (\<tau> e - start)"
    using inv by (simp_all add: mirrored_def in_step_def)
  obtain b e' where later: "\<tau> e1 \<le> \<tau> e'" and b: "silent M (cli_browser s) b" and
    res: "CliBrowserSession_next_transition M R now s e1 = Some (None, s\<lparr>cli_browser := b\<rparr>, e') \<or>
      (\<exists>ev b'. DiscoveryBrowser_poll_event M b = (Some ev, b') \<and> CliBrowserSession_next_transition M R now s e1 =
         map_option (\<lambda>(t, st). (Some t, s\<lparr>cli_browser := b', cli_state := st\<rparr>, e'))
           (DiscoveredPeerState_apply (cli_state s) ev now))"
    using next_transition_outcome [OF adv, of e1 M now s] unfolding outcome_def by blast
  note silent = silent_effect [OF b step(1)]
  from res show ?thesis
  proof (elim disjE exE conjE)
    assume "CliBrowserSession_next_transition M R now s e1 = Some (None, s\<lparr>cli_browser := b\<rparr>, e')"
    moreover have "mirrored \<tau> start (s\<lparr>cli_browser := b\<rparr>) e"
      using silent step settled started by (simp add: mirrored_def in_step_def)
    ultimately show ?thesis using mirrored_later later time by fastforce
  next
    fix ev b'
    assume poll: "DiscoveryBrowser_poll_event M b = (Some ev, b')" and eq: "CliBrowserSession_next_transition M R now s e1 =
         map_option (\<lambda>(t, st). (Some t, s\<lparr>cli_browser := b', cli_state := st\<rparr>, e'))
           (DiscoveredPeerState_apply (cli_state s) ev now)"
    note eff = poll_event_effect [OF poll conjunct1 [OF silent]]
    have "settled_before (cli_state s) now"
      by (rule settled_before_mono [OF settled]) (use time(1) in \<open>simp add: i(2) diff_le_mono\<close>)
    from apply_settled [OF step(2) this, of ev "hm_get (peers (session_state b'))"] eff(2) silent step(3)
    obtain t st where st: "DiscoveredPeerState_apply (cli_state s) ev now = Some (t, st)" "peers_ok st"
        "settled_before st (Suc now)" "DiscoveredPeerState_get st = hm_get (peers (session_state b'))" by auto
    have "Suc now \<le> \<tau> e' - start" using time started later i(2) by arith
    then have "mirrored \<tau> start (s\<lparr>cli_browser := b', cli_state := st\<rparr>) e'"
      using st eff(1) settled_before_mono [OF st(3)] started time later by (simp add: mirrored_def in_step_def)
    moreover have "backlog (s\<lparr>cli_browser := b', cli_state := st\<rparr>) < backlog s"
      using silent_running [OF b] poll_event_running [OF poll] by (simp add: backlog_def Let_def)
    ultimately show ?thesis using eq st(1) by simp
  qed
qed

interpretation mirror: observation "cli_session M R" "elapsed R start" "is_cancelled R" None
  "\<lambda>s e. ticking R \<tau> \<and> mirrored \<tau> start s e" backlog
  for M :: "('w, 'd, 'i) mdns" and R :: "'e runtime" and \<tau> start
proof unfold_locales
  fix s :: "('w, 'd) CliBrowserSession" and e e1 :: 'e and now c
  assume s: "ticking R \<tau> \<and> mirrored \<tau> start s e"
  show "is_cancelled R e = (c, e1) \<Longrightarrow> ticking R \<tau> \<and> mirrored \<tau> start s e1"
    using s mirrored_later [of \<tau> start s e e1] by (auto simp: is_cancelled_def ticking_def advancing_def)
  show "elapsed R start e = (now, e1) \<Longrightarrow> \<exists>t s' e'. next_transition (cli_session M R) now s e1 = Some (t, s', e') \<and>
      (ticking R \<tau> \<and> mirrored \<tau> start s' e') \<and> (t \<noteq> None \<longrightarrow> backlog s' < backlog s)"
    using mirrored_next s by (fastforce simp: cli_session_def)
qed simp

lemma start_mirrored:
  assumes "CliBrowserSession_start M R window net e = (Ok s, net', e')" "start \<le> \<tau> e'"
  shows "mirrored \<tau> start s e'"
  using start_running [OF assms(1)] in_step_start assms(2)
  by (auto simp: mirrored_def settled_before_def DiscoveredPeerState_new_def)

lemma stop_keeps_state:
  "cli_state (snd (CliBrowserSession_stop M s)) = cli_state s"
  "session_state (cli_browser (snd (CliBrowserSession_stop M s))) = session_state (cli_browser s)"
  by (auto simp: CliBrowserSession_stop_def DiscoveryBrowser_stop_def BrowserSession_stop_def split: prod.split sum.split)

end
