(* ===== verification/Cli_Properties.thy ===== *)
theory Cli_Properties
  imports Cli_Pass Presence Store_Properties
begin

text \<open>
  What makes the command line correct (\<^verbatim>\<open>apps/cli\<close>): its report, the end of a pass,
  the release of the daemon, the exit code, and two places where it does not do what it means to.
\<close>

section \<open>Sample surroundings\<close>

text \<open>A process in which only sleeping takes time, and nobody interrupts.\<close>

definition tick_runtime :: "nat runtime" where
  "tick_runtime = \<lparr>instant_now = \<lambda>e. (e, e), interrupted = \<lambda>e. (False, e), sleep = \<lambda>d e. e + d,
     interrupt_support = UnixSignals, register_handler = \<lambda>e. (True, e),
     last_os_error = \<lambda>_. os_error OtherKind ''Invalid argument''\<rparr>"

lemma tick_advancing: "advancing tick_runtime id"
  by (simp add: advancing_def tick_runtime_def)

lemma tick_simps [simp]:
  "instant_now tick_runtime e = (e, e)" "is_cancelled tick_runtime e = (False, e)"
  "sleep tick_runtime d e = e + d" "SignalCancellation_install tick_runtime e = (Ok (), e)"
  by (simp_all add: tick_runtime_def is_cancelled_def SignalCancellation_install_def install_interrupt_handler_def)

text \<open>A quiet daemon that counts the shutdown requests it gets, and a writer that keeps the lines.\<close>

definition quiet_daemon :: "(nat, unit, unit) mdns" where
  "quiet_daemon = \<lparr>daemon_new = \<lambda>w. (Ok (), w), daemon_monitor = \<lambda>_ w. (Ok [], w),
     daemon_browse = \<lambda>_ _ w. (Ok [], w), daemon_stop_browse = \<lambda>_ _ w. (Ok (), w),
     daemon_register = \<lambda>_ _ w. (Ok (), w), daemon_unregister = \<lambda>_ _ w. (Ok (\<lambda>_. Ok UnregisterOK), w),
     daemon_shutdown = \<lambda>_ w. (Ok (\<lambda>_. Ok DaemonShutdown), Suc w), service_info_new = \<lambda>_ _ _ _ _. Err [],
     enable_addr_auto = id\<rparr>"

definition keep_lines :: "rstr list writer" where
  "keep_lines txt out = (Ok (), out @ [txt])"

text \<open>A service on the network.\<close>

definition sample_service :: ResolvedService where
  "sample_service = \<lparr>get_fullname = ascii ''desk'' @ TRANSIENT_KEY_SUFFIX, get_port = 4242,
     get_properties = [\<lparr>property_key = KEY_DISCOVERY_VERSION, property_val = Some [49]\<rparr>,
       \<lparr>property_key = KEY_PROTOCOL_MIN, property_val = Some [49]\<rparr>,
       \<lparr>property_key = KEY_PROTOCOL_MAX, property_val = Some [49]\<rparr>],
     get_addresses = [ScopedV4 7]\<rparr>"
definition sample_raw :: RawResolvedService where
  "sample_raw = \<lparr>raw_fullname = ascii ''desk'' @ TRANSIENT_KEY_SUFFIX, raw_port = 4242,
     raw_endpoints = [DiscoveryEndpoint_ipv4 7],
     raw_txt = to_txt_entries \<lparr>md_protocols = DiscoveryProtocolRange_initial, md_name = None, md_platform = None\<rparr>\<rparr>"

lemma sample_service_key: "TransientDiscoveryKey_new (ascii ''desk'' @ TRANSIENT_KEY_SUFFIX) = Ok (TransientDiscoveryKey (ascii ''desk'' @ TRANSIENT_KEY_SUFFIX))"
  unfolding key_new_Ok using suffix_no_control
    by (intro exI [of _ "ascii ''desk''"] exI [of _ TRANSIENT_KEY_SUFFIX])
      (auto simp: eq_ignore_ascii_case_def TRANSIENT_KEY_SUFFIX_def MAX_TRANSIENT_DISCOVERY_KEY_BYTES_def
        text_simps)
lemma sample_service_raw: "raw_service sample_service = Ok sample_raw"
proof -
  have "DiscoveryTxtEntry_new KEY_DISCOVERY_VERSION [49] = Ok (emitted KEY_DISCOVERY_VERSION [49])"
   "DiscoveryTxtEntry_new KEY_PROTOCOL_MIN [49] = Ok (emitted KEY_PROTOCOL_MIN [49])"
   "DiscoveryTxtEntry_new KEY_PROTOCOL_MAX [49] = Ok (emitted KEY_PROTOCOL_MAX [49])"
    by (simp_all add: DiscoveryTxtEntry_new_def emitted_def KEY_DISCOVERY_VERSION_def KEY_PROTOCOL_MIN_def KEY_PROTOCOL_MAX_def
      text_simps discovery_bounds utf8_encode_Cons)
  moreover have "utf8_encode (show_u16 1) = [49]" by (simp add: show_u16_def show_nat.simps utf8_encode_Cons utf8_units_def)
  ultimately show ?thesis
   by (simp add: raw_service_def sample_service_def sample_raw_def sample_service_key to_txt_entries_def
       DISCOVERY_SCHEMA_VERSION_def DiscoveryProtocolRange_initial_def INITIAL_PROTOCOL_MAJOR_def List.map_filter_simps)
qed
lemma sample_service_valid: "is_ok (validate_service sample_raw)"
  using from_txt_to_txt [of "\<lparr>md_protocols = DiscoveryProtocolRange_initial, md_name = None, md_platform = None\<rparr>"]
  by (simp add: sample_raw_def validate_service_def sample_service_key wf_metadata_def DiscoveryProtocolRange_initial_def MAX_DISCOVERED_ENDPOINTS_def in_range_def)

section \<open>The report\<close>

definition card_lines :: "DeviceCard \<Rightarrow> rstr list" where
  "card_lines c = [[], card_line c, ascii ''  session:  '' @ card_session c,
     ascii ''  protocol: '' @ show_u16 (card_protocol_major c),
     ascii ''  address:  '' @ join (ascii '', '') (card_addresses c)]"

definition report_lines :: "bool \<Rightarrow> rstr list \<Rightarrow> DeviceCard list \<Rightarrow> rstr list" where
  "report_lines show_events events cards =
     [ADVISORY_NOTICE] @
     (if show_events then [] # (if events = [] then [ascii ''No discovery events were observed.''] else events) else []) @
     [[]] @
     (if cards = [] then [ascii ''No nearby devices are currently visible.'']
      else (show_nat (length cards) @ ascii '' nearby device(s) currently visible:'') #
        concat (map card_lines (sort_key card_session cards)))"

lemma and_do_assoc: "and_do (and_do a b) c = and_do a (and_do b c)"
  by (rule ext) (simp add: and_do_def split: prod.split sum.split)

lemma put_all_Nil: "put_all W [] = (\<lambda>out. (Ok (), out))"
  by (rule ext) simp

lemma put_all_Cons: "put_all W (l # ls) = and_do (put W l) (put_all W ls)"
  by (rule ext) simp

lemma and_do_return: "and_do (\<lambda>out. (Ok (), out)) k = k" "and_do m (\<lambda>out. (Ok (), out)) = m"
  by (rule ext, simp add: and_do_def split: prod.split sum.split)+

lemma put_all_append: "put_all W (xs @ ys) = and_do (put_all W xs) (put_all W ys)"
  by (induction xs) (simp_all add: put_all_Nil put_all_Cons and_do_return and_do_assoc)

lemma put_all_one: "put_all W [l] = put W l"
  by (simp add: put_all_Cons put_all_Nil and_do_return)

lemma render_card_lines: "render_cards W (c # cards) = and_do (put_all W (card_lines c)) (render_cards W cards)"
  by (rule ext) (simp add: card_lines_def put_all_Cons put_all_Nil and_do_return and_do_assoc)

lemma render_cards_lines: "render_cards W cards = put_all W (concat (map card_lines cards))"
proof (induction cards)
  case Nil
  show ?case by (rule ext) simp
next
  case (Cons c cards)
  then show ?case by (simp only: render_card_lines list.map concat.simps put_all_append)
qed

lemma write_report_lines: "write_report W show_events events cards = put_all W (report_lines show_events events cards)"
proof
  fix out
  have snapshot: "render_snapshot W cards = put_all W (if cards = [] then [ascii ''No nearby devices are currently visible.'']
      else (show_nat (length cards) @ ascii '' nearby device(s) currently visible:'') #
        concat (map card_lines (sort_key card_session cards)))"
    by (rule ext) (simp add: render_snapshot_def put_all_Cons put_all_Nil and_do_return render_cards_lines Let_def)
  show "write_report W show_events events cards out = put_all W (report_lines show_events events cards) out"
    by (simp add: write_report_def report_lines_def put_all_append put_all_Cons put_all_Nil and_do_return
        and_do_assoc snapshot put_all_one)
qed


lemma set_iter: "set (DiscoveredPeerState_iter st) = {visible_peer v |k r v. (k, r) \<in> set (records st) \<and> visible r = Some v}"
  by (force simp: DiscoveredPeerState_iter_def List.map_filter_def)

lemma iter_mem:
  assumes "peers_inv st"
  shows "p \<in> set (DiscoveredPeerState_iter st) \<longleftrightarrow> DiscoveredPeerState_get st (peer_key p) = Some p"
proof -
  note D = peers_invD [OF assms]
  have filed: "peer_key (visible_peer v) = k" if "(k, r) \<in> set (records st)" "visible r = Some v" for k r v
    using D(3) [of k r] D(1) that by (simp add: hm_get_Some record_ok_def)
  have "DiscoveredPeerState_get st k = Some p \<longleftrightarrow> (\<exists>r v. (k, r) \<in> set (records st) \<and> visible r = Some v \<and> visible_peer v = p)" for k
    using D(1) by (auto simp: DiscoveredPeerState_get_def bind_eq_Some_conv hm_get_Some)
  then show ?thesis
    using filed unfolding set_iter by blast
qed

lemma iter_distinct:
  assumes "peers_inv st"
  shows "distinct (map peer_key (DiscoveredPeerState_iter st))"
proof -
  have "\<forall>(k, r)\<in>set (records st). record_ok k r"
    using peers_invD(1,3) [OF assms] by (auto simp: hm_get_Some)
  then have "distinct (map fst m) \<Longrightarrow> set m \<subseteq> set (records st) \<Longrightarrow>
      distinct (map peer_key (List.map_filter (\<lambda>(_, r). map_option visible_peer (visible r)) m))" for m
    by (induction m) (force simp: List.map_filter_simps record_ok_def List.map_filter_def split: option.splits)+
  then show ?thesis
    using peers_invD(1) [OF assms] by (simp add: DiscoveredPeerState_iter_def hm_invar_def)
qed

lemma card_session_key [simp]: "card_session (DeviceCard_from_peer p) = key_as_str (peer_key p)"
  by (simp add: DeviceCard_from_peer_def)

lemma snapshot_distinct:
  assumes "peers_inv (cli_state s)"
  shows "distinct (map card_session (CliBrowserSession_snapshot s))"
proof -
  have "map card_session (CliBrowserSession_snapshot s) = map key_as_str (map peer_key (DiscoveredPeerState_iter (cli_state s)))"
    by (simp add: CliBrowserSession_snapshot_def)
  moreover have "inj key_as_str" by (rule injI) (simp add: TransientDiscoveryKey.expand)
  ultimately show ?thesis
    using iter_distinct [OF assms] by (simp add: distinct_map inj_on_def)
qed

lemma set_iter_get:
  assumes "peers_inv st"
  shows "set (DiscoveredPeerState_iter st) = ran (DiscoveredPeerState_get st)"
proof -
  have "peer_key p = k" if "DiscoveredPeerState_get st k = Some p" for k p
    using that peers_invD(3) [OF assms, of k]
    by (auto simp: DiscoveredPeerState_get_def bind_eq_Some_conv record_ok_def)
  then show ?thesis using iter_mem [OF assms] by (fastforce simp: ran_def)
qed

lemma same_state_inv: "same_state a b \<Longrightarrow> peers_inv a \<Longrightarrow> peers_inv b"
  by (simp add: same_state_def peers_inv_def visible_keys_def)

text \<open>C28. The report shows every visible peer once and nothing else, in strictly increasing order of
  session key, and does not depend on the iteration order of the hash table the peers are kept in.\<close>

theorem report_shows_visible_peers:
  assumes "peers_inv (cli_state s)" "same_state (cli_state s) (cli_state s')"
  shows "set (CliBrowserSession_snapshot s) = DeviceCard_from_peer ` ran (DiscoveredPeerState_get (cli_state s)) \<and>
    sorted_wrt (<) (map card_session (sort_key card_session (CliBrowserSession_snapshot s))) \<and>
    write_report W show_events events (CliBrowserSession_snapshot s') = write_report W show_events events (CliBrowserSession_snapshot s)"
proof -
  note inv' = same_state_inv [OF assms(2,1)]
  have get: "DiscoveredPeerState_get (cli_state s') = DiscoveredPeerState_get (cli_state s)"
    using assms(2) by (simp add: same_state_def DiscoveredPeerState_get_def fun_eq_iff)
  have cards: "set (CliBrowserSession_snapshot x) = DeviceCard_from_peer ` ran (DiscoveredPeerState_get (cli_state x))"
    if "peers_inv (cli_state x)" for x
    using set_iter_get [OF that] by (simp add: CliBrowserSession_snapshot_def)
  note dist = snapshot_distinct [OF assms(1)] snapshot_distinct [OF inv']
  have same: "set (CliBrowserSession_snapshot s') = set (CliBrowserSession_snapshot s)"
    using cards [OF assms(1)] cards [OF inv'] get by simp
  then have order: "sort_key card_session (CliBrowserSession_snapshot s') = sort_key card_session (CliBrowserSession_snapshot s)"
    by (rule sort_key_set_unique [OF _ dist(2,1)])
  then have "length (CliBrowserSession_snapshot s') = length (CliBrowserSession_snapshot s)"
    by (metis length_sort)
  then have "report_lines show_events events (CliBrowserSession_snapshot s') = report_lines show_events events (CliBrowserSession_snapshot s)"
    using same order by (cases "CliBrowserSession_snapshot s"; cases "CliBrowserSession_snapshot s'") (simp_all add: report_lines_def)
  then show ?thesis
    using cards [OF assms(1)] dist(1) by (simp add: write_report_lines strict_sorted_iff distinct_sort_key)
qed

definition no_peers :: "(nat, unit) CliBrowserSession" where
  "no_peers = \<lparr>cli_browser = \<lparr>session_backend = (\<lparr>mb_daemon = (), mb_services = [], mb_daemon_events = []\<rparr>, 0),
     session_state = BrowserState_default, session_active = True\<rparr>, cli_state = DiscoveredPeerState_new, cli_deadline = 0\<rparr>"

theorem report_shows_visible_peers_witness:
  "set (CliBrowserSession_snapshot no_peers) = DeviceCard_from_peer ` ran (DiscoveredPeerState_get (cli_state no_peers))"
  using report_shows_visible_peers [of no_peers no_peers] peers_inv_new
  by (simp add: same_state_def no_peers_def DiscoveredPeerState_new_def)

section \<open>The end of a pass\<close>

text \<open>C7. The command \<open>discover\<close> always returns: with a clock that does not go back and sleeps
  that last at least as long as asked, every run over a daemon that reports finitely many results
  ends, whatever the network sends, and without a panic of the peer state.\<close>

theorem discovery_run_returns:
  assumes "advancing R \<tau>"
  shows "\<exists>r net' e' out'. run_discovery M R W args net e out = Some (r, net', e', out')"
  using run_discovery_returns [OF assms, of M W args net e out] by blast

definition sample_args :: DiscoverArgs where
  "sample_args = \<lparr>args_events = True, args_window = 3, args_stale_after = None\<rparr>"

theorem discovery_run_returns_witness:
  "\<exists>r net' e' out'. run_discovery quiet_daemon tick_runtime keep_lines sample_args 0 0 [] = Some (r, net', e', out')"
  by (rule discovery_run_returns [OF tick_advancing])

text \<open>C13. The daemon is never left running: once the interrupt handler is installed and the daemon created,
  a run of \<open>discover\<close> ends with a shutdown request to the daemon, whether the start, the pass, the
  report or the stop failed.\<close>

theorem discovery_releases_daemon:
  assumes "advancing R \<tau>" "run_discovery M R W args net e out = Some (r, net', e', out')"
    and "daemon_new M net = (Ok d, n1)" "SignalCancellation_install R e = (Ok (), e1)"
  shows "\<exists>u. net' = snd (daemon_shutdown M d u)"
  using run_discovery_returns [OF assms(1), of M W args net e out] assms(2-4) by auto

theorem discovery_releases_daemon_witness:
  "\<exists>r net' e' out'. run_discovery quiet_daemon tick_runtime keep_lines sample_args 0 0 [] = Some (r, Suc net', e', out')"
proof -
  obtain r net' e' out' where run: "run_discovery quiet_daemon tick_runtime keep_lines sample_args 0 0 [] = Some (r, net', e', out')"
    using run_discovery_returns [OF tick_advancing, of quiet_daemon keep_lines sample_args 0 0 "[]"] by blast
  have "daemon_new quiet_daemon 0 = (Ok (), 0)" "SignalCancellation_install tick_runtime 0 = (Ok (), 0)"
    by (simp_all add: quiet_daemon_def)
  from discovery_releases_daemon [OF tick_advancing run this] run show ?thesis
    by (auto simp: quiet_daemon_def)
qed

section \<open>The report mirrors the browser\<close>


text \<open>A daemon that announces a service, and a process whose clock counts its own readings.\<close>

definition announcing_daemon :: "(nat, unit, unit) mdns" where
  "announcing_daemon = quiet_daemon\<lparr>daemon_browse := \<lambda>_ _ w. (Ok [Ok (ServiceResolved sample_service)], w)\<rparr>"

definition counting_runtime :: "nat runtime" where
  "counting_runtime = tick_runtime\<lparr>instant_now := \<lambda>e. (e, Suc e)\<rparr>"


section \<open>The device command\<close>

lemma load_current_device_keeps:
  assumes "tempfile_laws T" "env_ok (calm p) w" "load_current_device config os T U v4 w = (r, w')"
  shows "keeps p (nodes w) (nodes w')"
proof (cases config)
  case (Some dir)
  obtain q w1 where load: "LocalDeviceManager_load os T U v4 (LocalDeviceManager_in_app_config dir) w = (q, w1)" by fastforce
  have "load_current_device config os T U v4 =
      io_bind (LocalDeviceManager_load os T U v4 (LocalDeviceManager_in_app_config dir)) (\<lambda>d. io_return (Ok (DeviceView_from d)))"
    by (simp add: load_current_device_def Some LocalDeviceManager_for_current_user_def)
  then have "w' = w1"
    using assms(3) load by (cases q) (auto simp: io_bind_def io_match_def io_return_def)
  then show ?thesis using load_keeps [OF assms(1,2) load] by simp
next
  case None
  then have "w' = w"
    using assms(3) by (simp add: load_current_device_def LocalDeviceManager_for_current_user_def) (simp add: io_return_def)
  then show ?thesis by (simp add: keep.K_refl)
qed

lemma map_err_Ok_unit: "map_err f (r :: 'x + unit) = Ok u \<longleftrightarrow> r = Ok ()"
  by (cases r) simp_all

lemma write_device_error: "write_device U W v out = (Err e, out') \<Longrightarrow> e \<noteq> Load source"
  by (auto simp: write_device_def and_do_def write_line_def result_simps split: prod.splits sum.splits)


definition sample_surroundings :: "(unit, nat, unit, unit, nat, rstr list) surroundings" where
  "sample_surroundings = \<lparr>try_parse_from = \<lambda>_. Ok \<lparr>cli_command = Device\<rparr>, the_uuid = sample_uuid,
     the_mdns = quiet_daemon, the_runtime = tick_runtime, the_writer = keep_lines\<rparr>"

definition sample_system :: "(nat, nat, rstr list) system" where
  "sample_system = \<lparr>files = sample_world, network = 0, process = 0, standard_output = [], standard_error = []\<rparr>"


section \<open>Waiting for an event\<close>

text \<open>A running session before its daemon has reported anything but \<open>services\<close>.\<close>

definition awaiting :: "'d \<Rightarrow> 'w \<Rightarrow> nat \<Rightarrow> ServiceEvent receiver \<Rightarrow> ('w, 'd) CliBrowserSession" where
  "awaiting d w deadline services = \<lparr>cli_browser = \<lparr>session_backend =
       (\<lparr>mb_daemon = d, mb_services = services, mb_daemon_events = []\<rparr>, w),
     session_state = BrowserState_default, session_active = True\<rparr>,
     cli_state = DiscoveredPeerState_new, cli_deadline = deadline\<rparr>"

lemmas poll_event_defs = DiscoveryBrowser_poll_event_def BrowserSession_poll_event_def mdns_browser_backend_def
  MdnsBrowserBackend_poll_event_def

lemma awaiting_empty:
  "DiscoveryBrowser_poll_event M (cli_browser (awaiting d w dl (Err RecvEmpty # rs))) =
     (None, cli_browser (awaiting d w dl rs))"
  by (simp add: poll_event_defs awaiting_def)

lemma waits:
  "(\<forall>i<n. e + i * POLL_INTERVAL < dl) \<Longrightarrow>
     CliBrowserSession_next_transition M tick_runtime now (awaiting d w dl (replicate n (Err RecvEmpty) @ rs)) e =
     CliBrowserSession_next_transition M tick_runtime now (awaiting d w dl rs) (e + n * POLL_INTERVAL)"
proof (induction n arbitrary: e)
  case (Suc n)
  have "e < dl" using Suc.prems by (metis add.right_neutral mult_0 zero_less_Suc)
  moreover have "\<forall>i<n. e + POLL_INTERVAL + i * POLL_INTERVAL < dl"
    using Suc.prems by (metis Suc_less_eq add.assoc mult_Suc)
  moreover have "awaiting d w dl rs'\<lparr>cli_browser := cli_browser (awaiting d w dl rs'')\<rparr> = awaiting d w dl rs''" for rs' rs''
    by (simp add: awaiting_def)
  ultimately show ?case
    using Suc.IH [of "e + POLL_INTERVAL"]
    by (subst CliBrowserSession_next_transition.simps)
      (simp add: awaiting_empty add.assoc, simp add: awaiting_def)
qed simp

lemma awaiting_resolved:
  assumes "raw_service svc = Ok r" "validate_service r = Ok p"
  obtains s' where "CliBrowserSession_next_transition M R now (awaiting d w dl [Ok (ServiceResolved svc)]) e =
      Some (Some (Appeared (peer_key p)), s', e)" "running d s'" "backlog s' = 0"
    "cli_state s' = \<lparr>records = [(peer_key p, \<lparr>visible = Some \<lparr>visible_peer = p, last_observed_at = now\<rparr>,
       last_transition_at = now\<rparr>)], visible_count = 1\<rparr>"
proof -
  have new: "DiscoveredPeerState_apply DiscoveredPeerState_new (Added p) now =
      Some (Appeared (peer_key p), \<lparr>records = [(peer_key p, \<lparr>visible = Some \<lparr>visible_peer = p, last_observed_at = now\<rparr>,
       last_transition_at = now\<rparr>)], visible_count = 1\<rparr>)" (is "_ = Some (_, ?st)")
    by (simp add: DiscoveredPeerState_new_def prune_tombstones_def hm_retain_def Discovered_Peers.observe_def Let_def)
  have ok: "peers_ok ?st"
    using apply_effect [OF peers_ok_new, of "Added p" now] new by auto
  have "DiscoveryBrowser_poll_event M (cli_browser (awaiting d w dl [Ok (ServiceResolved svc)])) =
      (Some (Added p), (cli_browser (awaiting d w dl []))\<lparr>session_state :=
         snd (BrowserState_translate BrowserState_default (Resolved r))\<rparr>)"
    using assms by (simp add: poll_event_defs awaiting_def resolve_spec BrowserState_default_def presence_event_def)
  then show thesis
    by (intro that [of "(awaiting d w dl [Ok (ServiceResolved svc)])\<lparr>cli_browser := (cli_browser (awaiting d w dl []))\<lparr>session_state :=
         snd (BrowserState_translate BrowserState_default (Resolved r))\<rparr>, cli_state := ?st\<rparr>"])
      (use new ok in \<open>simp_all add: CliBrowserSession_next_transition.simps [of _ _ _ "awaiting d w dl [Ok (ServiceResolved svc)]"]
         running_def backlog_def Let_def, simp_all add: awaiting_def\<close>)
qed

text \<open>With no peer visible, expiry finds nothing to do.\<close>

lemma expire_nothing:
  assumes "running d s" "DiscoveredPeerState_get (cli_state s) = Map.empty"
  shows "\<exists>s'. CliBrowserSession_expire now a s = Some ([], s') \<and> running d s' \<and> backlog s' = backlog s \<and>
    DiscoveredPeerState_get (cli_state s') = Map.empty"
proof -
  have inv: "peers_inv (cli_state s)" using assms(1) by (simp add: running_def peers_ok_def)
  have "visible_keys (cli_state s) = {}" using get_dom [of "cli_state s"] assms(2) by auto
  then have "expired_keys (cli_state s) now a = {}"
    using is_expired_visible by (fastforce simp: expired_keys_def hits_def visible_keys_def is_visible_def)
  with expire_effect [OF inv, of now a] assms show ?thesis
    by (auto simp: CliBrowserSession_expire_def running_def backlog_def)
qed

lemma snapshot_nothing:
  assumes "running d s" "DiscoveredPeerState_get (cli_state s) = Map.empty"
  shows "CliBrowserSession_snapshot s = []"
  using set_iter_get [of "cli_state s"] assms
  by (simp add: CliBrowserSession_snapshot_def running_def peers_ok_def)

text \<open>A pass over a session with nothing pending and nobody visible.\<close>

lemma idle_loop:
  assumes "advancing R \<tau>" "running d s" "backlog s = 0"
  shows "\<exists>s' e'. observe_loop (cli_session M R) clock (is_cancelled R) show stale events s e = Some (events, s', e') \<and>
    running d s' \<and> cli_state s' = cli_state s"
proof -
  obtain c e1 where c: "is_cancelled R e = (c, e1)" by fastforce
  obtain now e2 where t: "clock e1 = (now, e2)" by fastforce
  obtain tr s' e' where "CliBrowserSession_next_transition M R now s e2 = Some (tr, s', e')" "running d s'"
      "tr \<noteq> None \<longrightarrow> backlog s' < backlog s" "tr = None \<longrightarrow> cli_state s' = cli_state s"
    using next_transition_returns [OF assms(1,2), of M now e2] by blast
  then show ?thesis
    using c t assms(2,3) by (subst observe_loop.simps) (auto simp: cli_session_def)
qed

lemma expire_fresh_peer:
  assumes "running d s" "cli_state s = \<lparr>records = [(k, \<lparr>visible = Some \<lparr>visible_peer = p, last_observed_at = t\<rparr>,
       last_transition_at = t\<rparr>)], visible_count = 1\<rparr>" "t + a \<le> now"
  shows "\<exists>s'. CliBrowserSession_expire now a s = Some ([Removed k Expired], s') \<and> running d s' \<and>
    backlog s' = backlog s \<and> DiscoveredPeerState_get (cli_state s') = Map.empty"
proof -
  have inv: "peers_inv (cli_state s)" using assms(1) by (simp add: running_def peers_ok_def)
  have keys: "expired_keys (cli_state s) now a = {k}"
    using assms(3) by (auto simp: assms(2) expired_keys_def hits_def hm_get_def is_expired_def)
  obtain ks st' where run: "DiscoveredPeerState_expire (cli_state s) now a = Some (map (\<lambda>k. Removed k Expired) ks, st')"
      "peers_ok st'" "distinct ks" "set ks = {k}"
      "DiscoveredPeerState_get st' = DiscoveredPeerState_get (cli_state s) |` (- {k})"
    using expire_effect [OF inv, of now a] keys by auto
  have "ks = [k]" using run(3,4) by (cases ks; cases "tl ks") auto
  moreover have "DiscoveredPeerState_get st' = Map.empty"
    by (rule ext) (simp add: run(5) assms(2) DiscoveredPeerState_get_def hm_get_def restrict_map_def)
  ultimately show ?thesis
    using run(1,2) assms(1) by (simp add: CliBrowserSession_expire_def running_def backlog_def)
qed

section \<open>Where the pass goes wrong\<close>



definition late_args :: "nat \<Rightarrow> DiscoverArgs" where
  "late_args stale = \<lparr>args_events = True, args_window = 60, args_stale_after = Some stale\<rparr>"

text \<open>C9. A defect: the observation time is read before the wait for the event, not after it. When a
  device appears after the pass has waited for \<open>n\<close> polls of 20 milliseconds, and \<open>--stale-after\<close> is
  no longer than that wait, the device is expired the moment it appears, and the report says that
  nobody is visible although the device was observed just now.\<close>

theorem late_arrival_expires_at_once:
  assumes "raw_service svc = Ok r" "validate_service r = Ok p" "start \<le> t0"
    and "\<forall>i<n. t0 + i * POLL_INTERVAL < deadline" "from_secs stale \<le> n * POLL_INTERVAL"
  shows "\<exists>q s' e'. observe (cli_session M tick_runtime) (elapsed tick_runtime start) (is_cancelled tick_runtime) W
      (late_args stale) (awaiting d w deadline (replicate n (Err RecvEmpty) @ [Ok (ServiceResolved svc)])) t0 out =
    Some (q, s', e', snd (write_report W True
      [render_transition (Appeared (peer_key p)), render_transition (Removed (peer_key p) Expired)] [] out))"
proof -
  let ?S = "cli_session M tick_runtime" and ?t = "t0 + n * POLL_INTERVAL"
  let ?events = "[render_transition (Appeared (peer_key p)), render_transition (Removed (peer_key p) Expired)]"
  have clock: "elapsed tick_runtime start e = (e - start, e)" for e by (simp add: elapsed_def)
  obtain s1 where s1: "CliBrowserSession_next_transition M tick_runtime (t0 - start)
      (awaiting d w deadline (replicate n (Err RecvEmpty) @ [Ok (ServiceResolved svc)])) t0 =
      Some (Some (Appeared (peer_key p)), s1, ?t)" "running d s1" "backlog s1 = 0"
      "cli_state s1 = \<lparr>records = [(peer_key p, \<lparr>visible = Some \<lparr>visible_peer = p, last_observed_at = t0 - start\<rparr>,
       last_transition_at = t0 - start\<rparr>)], visible_count = 1\<rparr>"
    by (rule awaiting_resolved [OF assms(1,2), of M tick_runtime "t0 - start" d w deadline ?t])
      (simp add: waits [OF assms(4)])
  have late: "(t0 - start) + from_secs stale \<le> ?t - start" using assms(3,5) by arith
  obtain s2 where s2: "CliBrowserSession_expire (?t - start) (from_secs stale) s1 = Some ([Removed (peer_key p) Expired], s2)"
      "running d s2" "backlog s2 = 0" "DiscoveredPeerState_get (cli_state s2) = Map.empty"
    using expire_fresh_peer [OF s1(2,4) late] s1(3) by auto
  obtain s3 e3 where s3: "observe_loop ?S (elapsed tick_runtime start) (is_cancelled tick_runtime) True (Some (from_secs stale))
      ?events s2 ?t = Some (?events, s3, e3)" "running d s3" "cli_state s3 = cli_state s2"
    using idle_loop [OF tick_advancing s2(2,3)] by blast
  obtain s4 where s4: "CliBrowserSession_expire (e3 - start) (from_secs stale) s3 = Some ([], s4)"
      "running d s4" "DiscoveredPeerState_get (cli_state s4) = Map.empty"
    using expire_nothing [OF s3(2), of "e3 - start" "from_secs stale"] s2(4) s3(3) by auto
  obtain q s5 where stop: "CliBrowserSession_stop M s4 = (q, s5)" by fastforce
  then have "cli_state s5 = cli_state s4" by (auto simp: CliBrowserSession_stop_def split: prod.splits)
  then have none: "CliBrowserSession_snapshot s5 = []"
    using snapshot_nothing [OF s4(2,3)] by (simp add: CliBrowserSession_snapshot_def)
  have sel: "next_transition ?S = CliBrowserSession_next_transition M tick_runtime" "session_expire ?S = CliBrowserSession_expire"
    "session_stop ?S = CliBrowserSession_stop M" "session_snapshot ?S = CliBrowserSession_snapshot"
    by (simp_all add: cli_session_def)
  have loop: "observe_loop ?S (elapsed tick_runtime start) (is_cancelled tick_runtime) True (Some (from_secs stale)) []
      (awaiting d w deadline (replicate n (Err RecvEmpty) @ [Ok (ServiceResolved svc)])) t0 = Some (?events, s3, e3)"
    using s1(1) s2(1) s3(1) by (subst observe_loop.simps) (simp add: sel clock sweep_def record_event_def)
  show ?thesis
    by (cases "write_report W True ?events [] out"; cases "fst (write_report W True ?events [] out)")
      (auto simp: observe_def Let_def late_args_def loop sweep_def clock sel s4(1) stop none)
qed

theorem late_arrival_expires_at_once_witness:
  "\<exists>p q s' e'. validate_service sample_raw = Ok p \<and>
    observe (cli_session quiet_daemon tick_runtime) (elapsed tick_runtime 0) (is_cancelled tick_runtime) keep_lines (late_args 1)
      (awaiting () 0 (from_secs 60) (replicate 50 (Err RecvEmpty) @ [Ok (ServiceResolved sample_service)])) 0 [] =
    Some (q, s', e', snd (write_report keep_lines True
      [render_transition (Appeared (peer_key p)), render_transition (Removed (peer_key p) Expired)] [] []))"
proof -
  obtain p where p: "validate_service sample_raw = Ok p" using sample_service_valid by (auto simp: is_ok_iff)
  have wait: "\<forall>i<50. 0 + i * POLL_INTERVAL < from_secs 60" "from_secs 1 \<le> 50 * POLL_INTERVAL"
    by (auto simp: POLL_INTERVAL_def from_secs_def)
  show ?thesis
    using p late_arrival_expires_at_once [OF sample_service_raw p order_refl wait, of quiet_daemon keep_lines "()" 0 "[]"]
    by blast
qed

end
