(* ===== verification/Error_Chain.thy ===== *)
theory Error_Chain
  imports Cli_Main Pairing_Request Pairing_Response Trusted_Codec Advertisement "HOL-Library.Sublist"
begin

text \<open>
  The causes of an error: \<^verbatim>\<open>Error::source\<close> of every error type of the workspace, with
  a \<^verbatim>\<open>&dyn Error\<close> as a value of \<open>dyn_error\<close>. An error of the standard library or of
  another crate ends the chain here: what is behind it is not the program's.
\<close>

section \<open>One type for all errors\<close>

datatype dyn_error =
    IoErr io_error
  | ForeignErr foreign_error
  | Utf8Err "u8 list"
  | ParseDeviceIdErr ParseDeviceIdError
  | DeviceNameValidationErr DeviceNameValidationError
  | UnsupportedPlatformErr UnsupportedPlatformError
  | DeviceIdErr DeviceIdError
  | DeviceNameErr DeviceNameError
  | LocalDeviceErr LocalDeviceError
  | TrustedPeerStoreErr TrustedPeerStoreError
  | PairingMessageErr PairingMessageError
  | PairingRequestErr PairingRequestFailure
  | PairingResponseErr PairingResponseError
  | ProtocolRangeErr DiscoveryProtocolRangeError
  | MetadataErr DiscoveryMetadataError
  | AdvertisementErr DiscoveryAdvertisementError
  | BrowserErr DiscoveryBrowserError
  | DiscoveryCliErr DiscoveryCliError
  | CliErr CliError

section \<open>The immediate cause\<close>

fun DeviceIdError_source :: "DeviceIdError \<Rightarrow> dyn_error option" where
  "DeviceIdError_source (DeviceIdError.Invalid path source) = Some (ParseDeviceIdErr source)"
| "DeviceIdError_source (DeviceIdError.Io operation path source) = Some (IoErr source)"
| "DeviceIdError_source DeviceIdError.ConfigDirectoryUnavailable = None"
| "DeviceIdError_source (DeviceIdError.InvalidPath path) = None"

fun DeviceNameError_source :: "DeviceNameError \<Rightarrow> dyn_error option" where
  "DeviceNameError_source (Validation source) = Some (DeviceNameValidationErr source)"
| "DeviceNameError_source (DeviceNameError.Invalid path source) = Some (DeviceNameValidationErr source)"
| "DeviceNameError_source (DeviceNameError.Io operation path source) = Some (IoErr source)"
| "DeviceNameError_source DeviceNameError.ConfigDirectoryUnavailable = None"
| "DeviceNameError_source (DeviceNameError.InvalidPath path) = None"

fun LocalDeviceError_source :: "LocalDeviceError \<Rightarrow> dyn_error option" where
  "LocalDeviceError_source (DeviceIdFailed source) = Some (DeviceIdErr source)"
| "LocalDeviceError_source (DeviceNameFailed source) = Some (DeviceNameErr source)"
| "LocalDeviceError_source (PlatformFailed source) = Some (UnsupportedPlatformErr source)"
| "LocalDeviceError_source LocalDeviceError.ConfigDirectoryUnavailable = None"

definition TrustedPeerStoreError_source :: "TrustedPeerStoreError \<Rightarrow> dyn_error option" where
  "TrustedPeerStoreError_source e =
     (case e of TrustedPeerStoreError.Io operation path source \<Rightarrow> Some (IoErr source) | _ \<Rightarrow> None)"

fun PairingRequestFailure_source :: "PairingRequestFailure \<Rightarrow> dyn_error option" where
  "PairingRequestFailure_source (PairingRequestFailure.Protocol source) = Some (PairingMessageErr source)"
| "PairingRequestFailure_source PairingRequestFailure.UnexpectedMessage = None"
| "PairingRequestFailure_source PairingRequestFailure.TransportFailure = None"

fun PairingResponseError_source :: "PairingResponseError \<Rightarrow> dyn_error option" where
  "PairingResponseError_source (PairingResponseError.Protocol source) = Some (PairingMessageErr source)"
| "PairingResponseError_source NotARequest = None"

definition DiscoveryMetadataError_source :: "DiscoveryMetadataError \<Rightarrow> dyn_error option" where
  "DiscoveryMetadataError_source e =
     (case e of InvalidProtocolRange source \<Rightarrow> Some (ProtocolRangeErr source) | _ \<Rightarrow> None)"

definition AdvertisementError_source :: "DiscoveryAdvertisementError \<Rightarrow> dyn_error option" where
  "AdvertisementError_source e = map_option
     (\<lambda>source. case source of advertisement_source.ForeignSource f \<Rightarrow> ForeignErr f | Utf8Source bs \<Rightarrow> Utf8Err bs)
     (DiscoveryAdvertisementError.error_cause e)"

definition BrowserError_source :: "DiscoveryBrowserError \<Rightarrow> dyn_error option" where
  "BrowserError_source e = map_option
     (\<lambda>source. case source of error_source.ForeignSource f \<Rightarrow> ForeignErr f | MetadataSource m \<Rightarrow> MetadataErr m)
     (DiscoveryBrowserError.error_cause e)"

definition DiscoveryCliError_source :: "DiscoveryCliError \<Rightarrow> dyn_error" where
  "DiscoveryCliError_source e =
     (case cli_error_source e of IoSource source \<Rightarrow> IoErr source | BrowserSource source \<Rightarrow> BrowserErr source)"

definition CliError_cause :: "CliError \<Rightarrow> dyn_error" where
  "CliError_cause e = (case CliError_source e of DeviceCause source \<Rightarrow> LocalDeviceErr source
     | OutputCause source \<Rightarrow> IoErr source | DiscoveryCause source \<Rightarrow> DiscoveryCliErr source)"

text \<open>The \<^verbatim>\<open>vtable\<close> of the trait: types with an empty implementation have no cause.\<close>

fun error_source_of :: "dyn_error \<Rightarrow> dyn_error option" where
  "error_source_of (DeviceIdErr e) = DeviceIdError_source e"
| "error_source_of (DeviceNameErr e) = DeviceNameError_source e"
| "error_source_of (LocalDeviceErr e) = LocalDeviceError_source e"
| "error_source_of (TrustedPeerStoreErr e) = TrustedPeerStoreError_source e"
| "error_source_of (PairingRequestErr e) = PairingRequestFailure_source e"
| "error_source_of (PairingResponseErr e) = PairingResponseError_source e"
| "error_source_of (MetadataErr e) = DiscoveryMetadataError_source e"
| "error_source_of (AdvertisementErr e) = AdvertisementError_source e"
| "error_source_of (BrowserErr e) = BrowserError_source e"
| "error_source_of (DiscoveryCliErr e) = Some (DiscoveryCliError_source e)"
| "error_source_of (CliErr e) = Some (CliError_cause e)"
| "error_source_of _ = None"

section \<open>The chain\<close>

text \<open>How far an error can be from the end of its chain.\<close>

fun height :: "dyn_error \<Rightarrow> nat" where
  "height (CliErr _) = 5"
| "height (DiscoveryCliErr _) = 4"
| "height (LocalDeviceErr _) = 4"
| "height (BrowserErr _) = 3"
| "height (AdvertisementErr _) = 3"
| "height (MetadataErr _) = 2"
| "height (DeviceIdErr _) = 2"
| "height (DeviceNameErr _) = 2"
| "height (TrustedPeerStoreErr _) = 2"
| "height (PairingRequestErr _) = 2"
| "height (PairingResponseErr _) = 2"
| "height _ = 1"

lemma boxed_source:
  "AdvertisementError_source a = Some c \<Longrightarrow> (\<exists>f. c = ForeignErr f) \<or> (\<exists>bs. c = Utf8Err bs)"
  "BrowserError_source b = Some c \<Longrightarrow> (\<exists>f. c = ForeignErr f) \<or> (\<exists>m. c = MetadataErr m)"
  by (cases "DiscoveryAdvertisementError.error_cause a"; auto simp: AdvertisementError_source_def split: advertisement_source.splits)
    (cases "DiscoveryBrowserError.error_cause b"; auto simp: BrowserError_source_def split: error_source.splits)

lemma source_lower: "error_source_of e = Some c \<Longrightarrow> height c < height e"
  by (cases e rule: error_source_of.cases)
    (auto simp: TrustedPeerStoreError_source_def DiscoveryMetadataError_source_def
      DiscoveryCliError_source_def CliError_cause_def dest!: boxed_source
      split: DeviceIdError.splits TrustedPeerStoreError.splits DiscoveryMetadataError.splits
        cli_source.splits cli_cause.splits
      elim: DeviceIdError_source.elims DeviceNameError_source.elims LocalDeviceError_source.elims
        PairingRequestFailure_source.elims PairingResponseError_source.elims)

function causes :: "dyn_error \<Rightarrow> dyn_error list" where
  "causes e = (case error_source_of e of None \<Rightarrow> [] | Some c \<Rightarrow> c # causes c)"
  by pat_completeness auto
termination
  by (relation "measure height") (simp_all add: source_lower)

declare causes.simps [simp del]

lemma causes_length: "length (causes e) < height e"
proof (induction e rule: causes.induct)
  case (1 e)
  show ?case
  proof (cases "error_source_of e")
    case None
    then show ?thesis by (subst causes.simps) (cases e; simp)
  next
    case (Some c)
    then show ?thesis using 1 [OF Some] source_lower [OF Some] by (subst causes.simps) simp
  qed
qed

section \<open>What is shown of the causes\<close>

text \<open>\<^verbatim>\<open>Display\<close> of a \<^verbatim>\<open>&dyn Error\<close>; the text of the standard library's UTF-8 error is a
  parameter.\<close>

fun display_error :: "(u8 list \<Rightarrow> rstr) \<Rightarrow> dyn_error \<Rightarrow> rstr" where
  "display_error U (IoErr e) = io_text e"
| "display_error U (ForeignErr e) = e"
| "display_error U (Utf8Err bs) = U bs"
| "display_error U (ParseDeviceIdErr e) = display_ParseDeviceIdError e"
| "display_error U (DeviceNameValidationErr e) = display_DeviceNameValidationError e"
| "display_error U (UnsupportedPlatformErr e) = display_UnsupportedPlatformError e"
| "display_error U (DeviceIdErr e) = display_DeviceIdError e"
| "display_error U (DeviceNameErr e) = display_DeviceNameError e"
| "display_error U (LocalDeviceErr e) = display_LocalDeviceError e"
| "display_error U (TrustedPeerStoreErr e) = display_TrustedPeerStoreError e"
| "display_error U (PairingMessageErr e) = display_PairingMessageError e"
| "display_error U (PairingRequestErr e) = display_PairingRequestFailure e"
| "display_error U (PairingResponseErr e) = display_PairingResponseError e"
| "display_error U (ProtocolRangeErr e) = display_DiscoveryProtocolRangeError e"
| "display_error U (MetadataErr e) = display_DiscoveryMetadataError e"
| "display_error U (AdvertisementErr e) = display_DiscoveryAdvertisementError e"
| "display_error U (BrowserErr e) = display_DiscoveryBrowserError e"
| "display_error U (DiscoveryCliErr e) = display_DiscoveryCliError e"
| "display_error U (CliErr e) = display_CliError e"

text \<open>The errors whose text does not repeat the text of their cause.\<close>

fun summarises :: "dyn_error \<Rightarrow> bool" where
  "summarises (BrowserErr e) \<longleftrightarrow> True"
| "summarises (AdvertisementErr e) \<longleftrightarrow> True"
| "summarises (DeviceIdErr (DeviceIdError.Invalid path source)) \<longleftrightarrow> True"
| "summarises (DeviceNameErr (DeviceNameError.Invalid path source)) \<longleftrightarrow> True"
| "summarises _ \<longleftrightarrow> False"

lemma sublist_prepend: "sublist xs ys \<Longrightarrow> sublist xs (zs @ ys)"
  by (auto simp: sublist_def) (metis append.assoc)

lemma source_quoted:
  assumes "error_source_of e = Some c" "\<not> summarises e"
  shows "sublist (display_error U c) (display_error U e)"
  using assms
  by (cases e rule: error_source_of.cases)
    (auto simp: TrustedPeerStoreError_source_def DiscoveryMetadataError_source_def DiscoveryCliError_source_def CliError_cause_def
      split: TrustedPeerStoreError.splits DiscoveryMetadataError.splits cli_source.splits cli_cause.splits
      elim!: DeviceIdError_source.elims DeviceNameError_source.elims LocalDeviceError_source.elims
        PairingRequestFailure_source.elims PairingResponseError_source.elims cli_error_source.elims CliError_source.elims
      intro!: sublist_prepend)

lemma causes_quoted:
  "\<forall>x\<in>set (e # causes e). \<not> summarises x \<Longrightarrow> c \<in> set (causes e) \<Longrightarrow>
     sublist (display_error U c) (display_error U e)"
proof (induction e rule: causes.induct)
  case (1 e)
  from 1(3) obtain b where b: "error_source_of e = Some b" "c = b \<or> c \<in> set (causes b)" "set (causes e) = insert b (set (causes b))"
    by (cases "error_source_of e") (simp_all add: causes.simps [of e])
  have quoted: "sublist (display_error U b) (display_error U e)"
    using source_quoted [OF b(1)] 1(2) by simp
  then show ?case
    using b(2) 1(1) [OF b(1)] 1(2) b(3) by (auto intro: sublist_order.order_trans)
qed

lemma cli_causes: "causes (CliErr e) \<noteq> []" "length (causes (CliErr e)) \<le> 4"
  using causes_length [of "CliErr e"] by (simp_all add: causes.simps [of "CliErr e"])

text \<open>What the daemon said is never shown: an error of the browser has the same text whatever caused it.\<close>

lemma browser_cause_not_shown:
  "display_DiscoveryBrowserError (b\<lparr>DiscoveryBrowserError.error_cause := cause\<rparr>) = display_DiscoveryBrowserError b"
  by (simp add: display_DiscoveryBrowserError_def)

end
