(* ===== verification/Error_Properties.thy ===== *)
theory Error_Properties
  imports Error_Chain Cli_Properties
begin

text \<open>
  What the user learns from a failed command: the causes of the error, in the line the command
  line writes on standard error.
\<close>

text \<open>C36. A failed load is explained: \<open>device\<close> exits with 1 and one line on standard error in which the
  text of every cause down to the root appears - of at most four - unless one of them is an invalid
  persisted value, which is reported by its path only. Network, process and standard output are
  untouched.\<close>

theorem failed_load_names_causes:
  assumes "try_parse_from A args = Ok \<lparr>cli_command = Device\<rparr>"
    and "load_current_device config os T (the_uuid A) v4 (files sys) = (Err source, w)"
    and "\<forall>x\<in>set (causes (CliErr (Load source))). \<not> summarises x"
  shows "\<exists>line. main_program A config os T v4 args sys =
      Some (FAILURE, sys\<lparr>files := w, standard_error := snd (the_writer A (line @ [10]) (standard_error sys))\<rparr>) \<and>
    1 \<le> length (causes (CliErr (Load source))) \<and> length (causes (CliErr (Load source))) \<le> 4 \<and>
    (\<forall>c\<in>set (causes (CliErr (Load source))). sublist (display_error U c) line)"
proof (rule exI, intro conjI ballI)
  show "main_program A config os T v4 args sys = Some (FAILURE, sys\<lparr>files := w, standard_error :=
      snd (the_writer A ((ascii ''error: '' @ display_CliError (Load source)) @ [10]) (standard_error sys))\<rparr>)"
    using assms(1,2) by (simp add: main_program_def run_from_def complain_def)
  show "1 \<le> length (causes (CliErr (Load source)))" "length (causes (CliErr (Load source))) \<le> 4"
    using cli_causes [of "Load source"] by (simp_all add: Suc_leI)
  fix c
  assume "c \<in> set (causes (CliErr (Load source)))"
  then have "sublist (display_error U c) (display_error U (CliErr (Load source)))"
    using causes_quoted [of "CliErr (Load source)" c U] assms(3) by simp
  then show "sublist (display_error U c) (ascii ''error: '' @ display_CliError (Load source))"
    using sublist_prepend by simp
qed

theorem failed_load_names_causes_witness:
  "\<exists>line. main_program sample_surroundings (Some []) (ascii ''plan9'') sample_tempfile () [] sample_system =
      Some (FAILURE, sample_system\<lparr>files := sample_world, standard_error := [line @ [10]]\<rparr>) \<and>
    sublist (ascii ''plan9'') line"
proof -
  let ?source = "PlatformFailed (UnsupportedPlatformError (ascii ''plan9''))"
  have parse: "try_parse_from sample_surroundings [] = Ok \<lparr>cli_command = Device\<rparr>"
    by (simp add: sample_surroundings_def)
  have "PlatformSource_detect (ascii ''plan9'') (manager_platform (LocalDeviceManager_in_app_config [])) =
      Err (UnsupportedPlatformError (ascii ''plan9''))"
    by (simp add: LocalDeviceManager_in_app_config_def Platform_current_def from_target_os_def text_simps)
  note detect = unsupported_platform_untouched [OF this, of sample_tempfile "the_uuid sample_surroundings" "()" sample_world]
  have load: "load_current_device (Some []) (ascii ''plan9'') sample_tempfile (the_uuid sample_surroundings) () (files sample_system) =
      (Err ?source, sample_world)"
    using detect by (simp add: sample_system_def load_current_device_def LocalDeviceManager_for_current_user_def
        io_bind_def io_match_def io_return_def)
  have chain: "causes (CliErr (Load ?source)) = [LocalDeviceErr ?source, UnsupportedPlatformErr (UnsupportedPlatformError (ascii ''plan9''))]"
    by (simp add: causes.simps CliError_cause_def)
  have plain: "\<forall>x\<in>set (causes (CliErr (Load ?source))). \<not> summarises x" by (simp add: chain)
  from failed_load_names_causes [OF parse load plain, of "\<lambda>_. []"] obtain line where line:
    "main_program sample_surroundings (Some []) (ascii ''plan9'') sample_tempfile () [] sample_system =
      Some (FAILURE, sample_system\<lparr>files := sample_world, standard_error :=
        snd (the_writer sample_surroundings (line @ [10]) (standard_error sample_system))\<rparr>)"
    "sublist (display_UnsupportedPlatformError (UnsupportedPlatformError (ascii ''plan9''))) line"
    by (auto simp: chain)
  have "sublist (ascii ''plan9'') line"
    by (rule sublist_order.order_trans [OF _ line(2)]) (simp add: display_UnsupportedPlatformError_def sublist_prepend)
  then show ?thesis
    using line(1) by (auto simp: sample_surroundings_def sample_system_def keep_lines_def)
qed

end
